(* ===== verification/Npemwin_Prelude.thy ===== *)
theory Npemwin_Prelude
  imports Main "HOL-Library.Word"
begin

text \<open>
  Shared vocabulary of the development: bytes and byte strings, the parts of the C
  library the program calls (character classes, \<open>strlen\<close>, \<open>memcpy\<close>, decimal
  \<open>printf\<close>, \<open>sscanf\<close>), C integers, and the list and word lemmas the components
  share. A C buffer together with its size variable is a list of bytes of that length;
  a NUL-terminated string is the list of its bytes without the terminator.
\<close>

unbundle bit_operations_syntax

type_synonym byte = "8 word"
type_synonym u32 = "32 word"

named_theorems ctype_simps \<open>character class facts\<close>
named_theorems scan_simps \<open>evaluation of sscanf on printed text\<close>

section \<open>Byte strings\<close>

text \<open>A C string literal, without its terminating NUL.\<close>

definition cstr :: "string \<Rightarrow> byte list" where
  "cstr s = map of_char s"

text \<open>The string a C function sees in a buffer: everything before the first NUL.\<close>

definition cstring :: "byte list \<Rightarrow> byte list" where
  "cstring buf = takeWhile (\<lambda>c. c \<noteq> 0) buf"

text \<open>\<open>memcpy(&dst[off], src, n)\<close>; the caller guarantees that the copy fits.\<close>

definition memcpy_at :: "'a list \<Rightarrow> nat \<Rightarrow> 'a list \<Rightarrow> 'a list" where
  "memcpy_at dst off src = take off dst @ src @ drop (off + length src) dst"

lemma length_memcpy_at [simp]:
  "off + length src \<le> length dst \<Longrightarrow> length (memcpy_at dst off src) = length dst"
  by (simp add: memcpy_at_def)

lemma memcpy_at_read [simp]:
  "off + length src \<le> length dst \<Longrightarrow>
     take (length src) (drop off (memcpy_at dst off src)) = src"
  by (simp add: memcpy_at_def)

lemma cstring_append_nul [simp]: "0 \<notin> set s \<Longrightarrow> cstring (s @ 0 # t) = s"
proof -
  assume "0 \<notin> set s"
  then have "takeWhile (\<lambda>c. c \<noteq> 0) (s @ 0 # t) = s @ takeWhile (\<lambda>c. c \<noteq> 0) (0 # t)"
    by (intro takeWhile_append2) auto
  then show ?thesis by (simp add: cstring_def)
qed

lemma cstring_append [simp]: "0 \<notin> set s \<Longrightarrow> cstring (s @ t) = s @ cstring t"
  unfolding cstring_def by (rule takeWhile_append2) auto

lemma cstring_id [simp]: "0 \<notin> set s \<Longrightarrow> cstring s = s"
  by (auto simp: cstring_def takeWhile_eq_all_conv)

lemma cstring_no_nul [simp]: "0 \<notin> set (cstring s)"
  by (auto simp: cstring_def dest: set_takeWhileD)

lemma cstring_Nil [simp]: "cstring [] = []"
  by (simp add: cstring_def)

lemma length_cstring_le: "length (cstring s) \<le> length s"
  by (simp add: cstring_def length_takeWhile_le)

section \<open>C integers\<close>

text \<open>
  Storing a decimal text into an \<open>int\<close> object: \<open>strtol\<close> saturates at 64 bits and the
  assignment keeps the low 32 bits, read as two's complement.
\<close>

definition c_int_of :: "int \<Rightarrow> int" where
  "c_int_of v = signed_take_bit 31 (max (- (2 ^ 63)) (min (2 ^ 63 - 1) v))"

lemma c_int_of_id:
  assumes "- (2 ^ 31) \<le> v" and "v < 2 ^ 31"
  shows "c_int_of v = v"
proof -
  have "max (- (2 ^ 63)) (min (2 ^ 63 - 1) v) = v"
    using assms by simp
  then show ?thesis
    using assms by (simp add: c_int_of_def signed_take_bit_int_eq_self)
qed

section \<open>Character classes\<close>

text \<open>The functions of \<open>ctype.h\<close> in the C locale.\<close>

definition isdigit :: "byte \<Rightarrow> bool" where
  "isdigit c \<longleftrightarrow> 48 \<le> c \<and> c \<le> 57"

definition isupper :: "byte \<Rightarrow> bool" where
  "isupper c \<longleftrightarrow> 65 \<le> c \<and> c \<le> 90"

definition islower :: "byte \<Rightarrow> bool" where
  "islower c \<longleftrightarrow> 97 \<le> c \<and> c \<le> 122"

definition isalnum :: "byte \<Rightarrow> bool" where
  "isalnum c \<longleftrightarrow> isdigit c \<or> isupper c \<or> islower c"

definition isspace :: "byte \<Rightarrow> bool" where
  "isspace c \<longleftrightarrow> c = 32 \<or> (9 \<le> c \<and> c \<le> 13)"

definition tolower :: "byte \<Rightarrow> byte" where
  "tolower c = (if isupper c then c + 32 else c)"

definition toupper :: "byte \<Rightarrow> byte" where
  "toupper c = (if islower c then c - 32 else c)"

lemmas ctype_defs = isdigit_def isupper_def islower_def isalnum_def isspace_def

lemma isupper_flip: "islower c \<Longrightarrow> isupper (c - 32)"
  unfolding ctype_defs by unat_arith

lemma islower_flip: "isupper c \<Longrightarrow> islower (c + 32)"
  by (simp add: ctype_defs word_le_nat_alt unat_word_ariths)

lemma case_disjoint: "islower c \<Longrightarrow> \<not> isupper c" "isdigit c \<Longrightarrow> \<not> isupper c"
    "isdigit c \<Longrightarrow> \<not> islower c"
  unfolding ctype_defs by unat_arith+

lemma isspace_disjoint: "isspace c \<Longrightarrow> \<not> isupper c" "isspace c \<Longrightarrow> \<not> islower c"
    "isspace c \<Longrightarrow> \<not> isdigit c"
  unfolding ctype_defs by (unat_arith; fail)+

lemma tolower_toupper [simp]: "tolower (toupper c) = tolower c"
  by (simp add: tolower_def toupper_def isupper_flip case_disjoint)

lemma tolower_idem [simp]: "tolower (tolower c) = tolower c"
  using case_disjoint islower_flip by (auto simp: tolower_def)

lemma isalnum_toupper [simp]: "isalnum (toupper c) = isalnum c"
  by (auto simp: toupper_def isalnum_def isupper_flip)

lemma isalnum_tolower [simp]: "isalnum (tolower c) = isalnum c"
  by (auto simp: tolower_def isalnum_def islower_flip)

lemma isalnum_not_isspace [ctype_simps]: "isalnum c \<Longrightarrow> \<not> isspace c"
  using isspace_disjoint by (auto simp: isalnum_def)

lemma isdigit_not_isspace [ctype_simps]: "isdigit c \<Longrightarrow> \<not> isspace c"
  using isspace_disjoint by auto

lemma isalnum_not_nul [ctype_simps]: "isalnum c \<Longrightarrow> c \<noteq> 0"
  by (auto simp: ctype_defs)

lemma ctype_consts [simp]:
  "isspace 32" "\<not> isspace 0" "\<not> isspace 47" "\<not> isspace 46" "\<not> isdigit 32" "\<not> isdigit 47"
  "\<not> isalnum 46" "toupper 46 = 46" "tolower 46 = 46" "toupper 0 = 0"
  by (simp_all add: ctype_defs toupper_def tolower_def)

section \<open>Decimal text\<close>

text \<open>\<open>%d\<close> of a non-negative value, then of any value, and \<open>%-wd\<close> / \<open>%-ws\<close>.\<close>

fun dec :: "nat \<Rightarrow> byte list" where
  "dec n = (if n < 10 then [of_nat (48 + n)] else dec (n div 10) @ [of_nat (48 + n mod 10)])"

declare dec.simps [simp del]

definition printf_d :: "int \<Rightarrow> byte list" where
  "printf_d v = (if v < 0 then 45 # dec (nat (- v)) else dec (nat v))"

definition pad_right :: "nat \<Rightarrow> byte list \<Rightarrow> byte list" where
  "pad_right w s = s @ replicate (w - length s) 32"

lemma length_pad_right [simp]: "length (pad_right w s) = max w (length s)"
  by (simp add: pad_right_def)

definition digit_val :: "byte \<Rightarrow> nat" where
  "digit_val c = unat c - 48"

definition digits_val :: "byte list \<Rightarrow> nat" where
  "digits_val ds = foldl (\<lambda>a c. 10 * a + digit_val c) 0 ds"

lemma digit_byte [simp]:
  assumes "k < 10"
  shows "isdigit (48 + of_nat k)" and "digit_val (48 + of_nat k) = k"
proof -
  have u: "unat (48 + of_nat k :: byte) = 48 + k"
    using assms by (simp add: unat_word_ariths unat_of_nat)
  show "isdigit (48 + of_nat k)"
    using assms u by (simp add: isdigit_def word_le_nat_alt)
  show "digit_val (48 + of_nat k) = k"
    using u by (simp add: digit_val_def)
qed

lemma dec_digits: "\<forall>c \<in> set (dec n). isdigit c"
proof (induction n rule: dec.induct)
  case (1 n)
  then show ?case
    by (subst dec.simps) (auto simp del: of_nat_add simp add: of_nat_add)
qed

lemma dec_nonempty [simp]: "dec n \<noteq> []"
  by (subst dec.simps) simp

lemma digits_val_snoc [simp]: "digits_val (ds @ [c]) = 10 * digits_val ds + digit_val c"
  by (simp add: digits_val_def)

lemma digits_val_dec [simp]: "digits_val (dec n) = n"
proof (induction n rule: dec.induct)
  case (1 n)
  show ?case
  proof (cases "n < 10")
    case True
    then show ?thesis
      by (simp add: dec.simps [of n] digits_val_def del: of_nat_add) (simp add: of_nat_add)
  next
    case False
    with "1.IH" show ?thesis
      by (simp add: dec.simps [of n])
  qed
qed

lemma length_dec_le: "n < 10 ^ k \<Longrightarrow> 0 < k \<Longrightarrow> length (dec n) \<le> k"
proof (induction k arbitrary: n)
  case 0
  then show ?case by simp
next
  case (Suc k)
  show ?case
  proof (cases "n < 10")
    case True
    then show ?thesis by (simp add: dec.simps [of n])
  next
    case False
    with Suc.prems have k: "0 < k" by (cases k) auto
    from Suc.prems have "n div 10 < 10 ^ k" by simp
    with k have "length (dec (n div 10)) \<le> k" by (intro Suc.IH)
    with False show ?thesis by (simp add: dec.simps [of n])
  qed
qed

lemma dec_no_nul [simp]: "0 \<notin> set (dec n)"
proof
  assume "0 \<in> set (dec n)"
  then have "isdigit 0" using dec_digits by blast
  then show False by (simp add: isdigit_def)
qed

lemma dec_no_space: "\<forall>c \<in> set (dec n). \<not> isspace c"
  using dec_digits isdigit_not_isspace by blast

section \<open>A handle kept in a variable\<close>

text \<open>
  A program behind a pipe, or an environment of the data base, is opened into a variable that holds at most one,
  and closed from it. Opening gives a status, the variable, and the handles obtained and given back;
  closing gives the variable and the handles given back.
\<close>

fun handle_sessions ::
  "('e \<Rightarrow> 'h option \<Rightarrow> int \<times> 'h option \<times> 'h list \<times> 'h list) \<Rightarrow> ('h option \<Rightarrow> 'h option \<times> 'h list)
     \<Rightarrow> 'e list \<Rightarrow> 'h option \<Rightarrow> 'h option \<times> 'h list \<times> 'h list" where
  "handle_sessions opn cls [] h = (h, [], [])"
| "handle_sessions opn cls (e # es) h =
     (case opn e h of (_, h1, op1, cl1) \<Rightarrow> case cls h1 of (h2, cl2) \<Rightarrow>
        case handle_sessions opn cls es h2 of (h3, op3, cl3) \<Rightarrow> (h3, op1 @ op3, (cl1 @ cl2) @ cl3))"

locale owned_handle =
  fixes open_handle :: "'e \<Rightarrow> 'h option \<Rightarrow> int \<times> 'h option \<times> 'h list \<times> 'h list"
    and close_handle :: "'h option \<Rightarrow> 'h option \<times> 'h list"
  assumes open_accounts: "open_handle e None = (status, h, op, cl) \<Longrightarrow> op = cl @ snd (close_handle h)"
    and open_status: "open_handle e None = (status, h, op, cl) \<Longrightarrow> status = 0 \<longleftrightarrow> h \<noteq> None"
    and close_forgets: "fst (close_handle h) = None"
    and close_nothing: "snd (close_handle None) = []"
begin

lemma close_once: "snd (close_handle (fst (close_handle h))) = []"
  by (simp add: close_forgets close_nothing)

lemma failed_open_closed: "open_handle e None = (status, h, op, cl) \<Longrightarrow> status \<noteq> 0 \<Longrightarrow> op = cl"
  using open_accounts open_status close_nothing by fastforce

text \<open>Whatever the answers of the system, opening and closing again and again leaves nothing open.\<close>

lemma sessions_balanced:
  "handle_sessions open_handle close_handle es None = (h, op, cl) \<Longrightarrow> h = None \<and> op = cl"
proof (induction es arbitrary: h op cl)
  case Nil
  then show ?case by simp
next
  case (Cons e es)
  obtain st h1 op1 cl1 where o: "open_handle e None = (st, h1, op1, cl1)" using prod_cases4 by blast
  obtain h2 cl2 where c: "close_handle h1 = (h2, cl2)" using prod.exhaust by blast
  obtain h3 op3 cl3 where r: "handle_sessions open_handle close_handle es None = (h3, op3, cl3)" using prod_cases3 by blast
  have "h2 = None" using c close_forgets [of h1] by simp
  then have "h = h3 \<and> op = op1 @ op3 \<and> cl = (cl1 @ cl2) @ cl3" using Cons.prems o c r by simp
  then show ?case using Cons.IH [OF r] open_accounts [OF o] c by simp
qed

end

end
