(* ===== verification/Insert.thy ===== *)
theory Insert
  imports Npemwin_Prelude
begin

text \<open>
  \<open>tools/npemwininsert\<close> (\<open>emwin.c\<close>, \<open>util.c\<close>, \<open>io.c\<close> and \<open>process_file\<close> of \<open>main.c\<close>): the
  tool that cuts a file into packets and writes them to the infeed fifo of the server. The
  open input file is the list of its bytes not yet read; the date text that \<open>strftime\<close>
  builds and the answers of \<open>write\<close> are arguments.
\<close>

section \<open>The packet under construction\<close>

definition HEADER_DATESIZE :: nat where "HEADER_DATESIZE = 22"
definition HEADER_FNAMESIZE :: nat where "HEADER_FNAMESIZE = 12"
definition HEADER_SIZE :: nat where "HEADER_SIZE = 80"
definition NULL_SIZE :: nat where "NULL_SIZE = 6"
definition DATA_SIZE :: nat where "DATA_SIZE = 1024"
definition PACKET_SIZE :: nat where "PACKET_SIZE = 1116"

lemmas insert_consts = HEADER_DATESIZE_def HEADER_FNAMESIZE_def HEADER_SIZE_def NULL_SIZE_def
  DATA_SIZE_def PACKET_SIZE_def

record emwin_packet_st =
  fname :: "byte list"
  header_date :: "byte list"
  packet :: "byte list"
  ep_file :: "byte list"
  parts_total :: nat
  last_part_size :: nat
  part_number :: nat
  ep_checksum :: nat

definition get_parts_total :: "nat \<Rightarrow> nat" where
  "get_parts_total fsize =
     (let pt = fsize div DATA_SIZE in if fsize mod DATA_SIZE \<noteq> 0 then pt + 1 else pt)"

definition get_last_part_size :: "nat \<Rightarrow> nat" where
  "get_last_part_size fsize =
     (let sz = fsize mod DATA_SIZE in if sz = 0 then DATA_SIZE else sz)"

text \<open>
  The text that \<open>strftime\<close> makes of the local time is an argument. Like the length of the header
  below, its length is asserted and then tested; the definitions follow the test, which is what
  a build with \<open>NDEBUG\<close> runs, and where one without it ends the tool.
\<close>

definition build_header_date :: "byte list \<Rightarrow> emwin_packet_st \<Rightarrow> int \<times> emwin_packet_st" where
  "build_header_date date ep =
     (if length date \<noteq> HEADER_DATESIZE then (1, ep) else (0, ep\<lparr>header_date := date\<rparr>))"

text \<open>
  The status and the structure. \<open>fsize\<close> is the size that \<open>stat\<close> reports and \<open>file\<close> what \<open>open\<close>
  finds, \<open>None\<close> if they fail; the content may have changed in between. The number of parts is an
  \<open>off_t\<close> and is cut to the \<open>int\<close> member \<open>parts_total\<close>; where that is negative it is here 0, since
  it is used only as the bound of a loop that then does not run.
\<close>

definition init_emwin_packet_st ::
  "nat option \<Rightarrow> byte list option \<Rightarrow> byte list \<Rightarrow> byte list \<Rightarrow> int \<times> emwin_packet_st" where
  "init_emwin_packet_st fsize file date emwinfname =
     (let ep = \<lparr>fname = take HEADER_FNAMESIZE emwinfname, header_date = [], packet = [],
                 ep_file = [], parts_total = 0, last_part_size = 0, part_number = 0, ep_checksum = 0\<rparr>
      in case fsize of
          None \<Rightarrow> (-1, ep)
        | Some fsize \<Rightarrow>
            let ep = ep\<lparr>parts_total := nat (c_int_of (int (get_parts_total fsize))),
                        last_part_size := get_last_part_size fsize, part_number := 0\<rparr>
            in case build_header_date date ep of
                (status, ep) \<Rightarrow>
                  if status \<noteq> 0 then (status, ep)
                  else case file of
                      None \<Rightarrow> (-1, ep)
                    | Some content \<Rightarrow> (0, ep\<lparr>ep_file := content\<rparr>))"

definition calc_checksum :: "byte list \<Rightarrow> nat" where
  "calc_checksum data = (\<Sum>b \<leftarrow> data. unat b)"

text \<open>The header text \<open>/PF%-12s/PN %-5d/PT %-5d/CS %-6d/FD%s%s\<close>; status 1 if it has not 80 bytes.\<close>

definition header_text :: "emwin_packet_st \<Rightarrow> byte list" where
  "header_text ep =
     cstr ''/PF'' @ pad_right 12 (map toupper (fname ep)) @ cstr ''/PN '' @ pad_right 5 (dec (part_number ep))
     @ cstr ''/PT '' @ pad_right 5 (dec (parts_total ep)) @ cstr ''/CS '' @ pad_right 6 (dec (ep_checksum ep))
     @ cstr ''/FD'' @ header_date ep @ replicate 10 32 @ [13, 10]"

definition build_emwin_header :: "emwin_packet_st \<Rightarrow> int \<times> emwin_packet_st" where
  "build_emwin_header ep =
     (let header = header_text ep
      in if length header \<noteq> HEADER_SIZE then (1, ep)
         else (0, ep\<lparr>packet := memcpy_at (packet ep) NULL_SIZE header\<rparr>))"

definition build_emwin_packet :: "emwin_packet_st \<Rightarrow> int \<times> emwin_packet_st" where
  "build_emwin_packet ep =
     (let ep = ep\<lparr>part_number := part_number ep + 1\<rparr>;
          data_size = (if part_number ep = parts_total ep then last_part_size ep else DATA_SIZE);
          ep = ep\<lparr>packet := replicate PACKET_SIZE 0\<rparr>;
          data = take data_size (ep_file ep);
          ep = ep\<lparr>packet := memcpy_at (packet ep) (NULL_SIZE + HEADER_SIZE) data,
                  ep_file := drop data_size (ep_file ep)\<rparr>
      in if length data \<noteq> data_size then (-1, ep)
         else build_emwin_header (ep\<lparr>ep_checksum := calc_checksum data\<rparr>))"

section \<open>Sending\<close>

text \<open>
  One answer of \<open>write\<close> on the fifo: an error, or the number of bytes it takes at most. With
  no answer left the (blocking) \<open>write\<close> takes everything.
\<close>

datatype wr = Wr_err | Wr_acc nat

text \<open>The loop of \<open>writef\<close>: the value returned, the answers left, and the bytes written.\<close>

fun writef_loop :: "byte list \<Rightarrow> nat \<Rightarrow> wr list \<Rightarrow> int \<times> wr list \<times> byte list" where
  "writef_loop buf i [] = (int (length buf), [], drop i buf)"
| "writef_loop buf i (w # ws) =
     (if i \<ge> length buf then (int i, w # ws, [])
      else case w of
          Wr_err \<Rightarrow> (-1, ws, [])
        | Wr_acc k \<Rightarrow>
            (let n = min k (length buf - i)
             in if n = 0 then (int i, ws, [])
                else case writef_loop buf (i + n) ws of
                    (r, ws', out) \<Rightarrow> (r, ws', take n (drop i buf) @ out)))"

definition writef :: "byte list \<Rightarrow> wr list \<Rightarrow> int \<times> wr list \<times> byte list" where
  "writef buf ws = writef_loop buf 0 ws"

definition send_emwin_packet :: "emwin_packet_st \<Rightarrow> wr list \<Rightarrow> int \<times> wr list \<times> byte list" where
  "send_emwin_packet ep ws =
     (case writef (packet ep) ws of
        (n, ws, out) \<Rightarrow>
          ((if n = -1 then -1 else if n \<noteq> int PACKET_SIZE then 1 else 0), ws, out))"

text \<open>The loop over the parts of the file, left at the first error: status and fifo contents.\<close>

fun process_parts :: "nat \<Rightarrow> emwin_packet_st \<Rightarrow> wr list \<Rightarrow> int \<times> byte list" where
  "process_parts 0 ep ws = (0, [])"
| "process_parts (Suc left) ep ws =
     (case build_emwin_packet ep of
        (status, ep) \<Rightarrow>
          if status \<noteq> 0 then (status, [])
          else case send_emwin_packet ep ws of
              (status, ws, out) \<Rightarrow>
                if status \<noteq> 0 then (status, out)
                else case process_parts left ep ws of (status, out') \<Rightarrow> (status, out @ out'))"

definition process_file ::
  "nat option \<Rightarrow> byte list option \<Rightarrow> byte list \<Rightarrow> byte list \<Rightarrow> wr list \<Rightarrow> int \<times> byte list" where
  "process_file fsize file date emwinfname ws =
     (case init_emwin_packet_st fsize file date emwinfname of
        (status, ep) \<Rightarrow> if status \<noteq> 0 then (status, []) else process_parts (parts_total ep) ep ws)"

section \<open>Sizes\<close>

lemma parts_cover:
  assumes "0 < n"
  shows "n = (get_parts_total n - 1) * 1024 + get_last_part_size n
    \<and> 0 < get_parts_total n \<and> 0 < get_last_part_size n \<and> get_last_part_size n \<le> 1024"
proof -
  have d: "n div 1024 * 1024 + n mod 1024 = n" by (rule div_mult_mod_eq)
  show ?thesis
  proof (cases "n mod 1024 = 0")
    case True
    with d assms have "0 < n div 1024" by (cases "n div 1024") auto
    then obtain q where q: "n div 1024 = Suc q" by (cases "n div 1024") auto
    with True d show ?thesis
      by (simp add: get_parts_total_def get_last_part_size_def insert_consts Let_def)
  next
    case False
    with d show ?thesis
      by (simp add: get_parts_total_def get_last_part_size_def insert_consts Let_def less_imp_le)
  qed
qed

lemma calc_checksum_bound: "calc_checksum data \<le> 255 * length data"
proof (induction data)
  case (Cons b data)
  have "unat b < 2 ^ LENGTH(8)" by (rule unsigned_less)
  then have "unat b \<le> 255" by simp
  with Cons show ?case by (simp add: calc_checksum_def)
qed (simp add: calc_checksum_def)

lemma length_header_text:
  assumes "length (fname ep) \<le> 12" "part_number ep < 10 ^ 5" "parts_total ep < 10 ^ 5"
    "ep_checksum ep < 10 ^ 6" "length (header_date ep) = 22"
  shows "length (header_text ep) = 80"
  using assms length_dec_le [of "part_number ep" 5] length_dec_le [of "parts_total ep" 5]
    length_dec_le [of "ep_checksum ep" 6]
  by (simp add: header_text_def cstr_def max_def)

text \<open>What one round of packet building yields when it succeeds, and when it does.\<close>

definition after_read :: "nat \<Rightarrow> emwin_packet_st \<Rightarrow> emwin_packet_st" where
  "after_read data_size ep =
     ep\<lparr>part_number := part_number ep + 1, packet := memcpy_at (replicate 1116 0) 86 (take data_size (ep_file ep)),
        ep_file := drop data_size (ep_file ep), ep_checksum := calc_checksum (take data_size (ep_file ep))\<rparr>"

lemma build_emwin_packet_eq:
  assumes "data_size = (if part_number ep + 1 = parts_total ep then last_part_size ep else 1024)"
  shows "fst (build_emwin_packet ep) = 0 \<longleftrightarrow>
      data_size \<le> length (ep_file ep) \<and> length (header_text (after_read data_size ep)) = 80"
    and "fst (build_emwin_packet ep) = 0 \<Longrightarrow> snd (build_emwin_packet ep) =
      (after_read data_size ep)\<lparr>packet := memcpy_at (packet (after_read data_size ep)) 6 (header_text (after_read data_size ep))\<rparr>"
proof -
  have r: "build_emwin_packet ep =
      (if data_size \<le> length (ep_file ep) then build_emwin_header (after_read data_size ep)
       else (-1, snd (build_emwin_packet ep)))"
    unfolding after_read_def
    by (cases "part_number ep + 1 = parts_total ep")
       (auto simp: build_emwin_packet_def Let_def insert_consts assms min_def)
  show "fst (build_emwin_packet ep) = 0 \<longleftrightarrow>
      data_size \<le> length (ep_file ep) \<and> length (header_text (after_read data_size ep)) = 80"
    by (subst r) (simp add: build_emwin_header_def Let_def insert_consts)
  then show "fst (build_emwin_packet ep) = 0 \<Longrightarrow> snd (build_emwin_packet ep) =
      (after_read data_size ep)\<lparr>packet := memcpy_at (packet (after_read data_size ep)) 6 (header_text (after_read data_size ep))\<rparr>"
    by (subst r) (simp add: build_emwin_header_def Let_def insert_consts)
qed

lemma build_emwin_packet_shape:
  assumes "data_size = (if part_number ep + 1 = parts_total ep then last_part_size ep else 1024)"
    and "data_size \<le> 1024" "build_emwin_packet ep = (0, ep')"
  shows "data_size \<le> length (ep_file ep)
    \<and> packet ep' = replicate 6 0 @ header_text ep' @ take data_size (ep_file ep) @ replicate (1030 - data_size) 0
    \<and> length (header_text ep') = 80
    \<and> ep_file ep' = drop data_size (ep_file ep) \<and> part_number ep' = part_number ep + 1
    \<and> ep_checksum ep' = calc_checksum (take data_size (ep_file ep))
    \<and> fname ep' = fname ep \<and> header_date ep' = header_date ep \<and> parts_total ep' = parts_total ep
    \<and> last_part_size ep' = last_part_size ep"
proof -
  let ?ep = "after_read data_size ep"
  have len: "data_size \<le> length (ep_file ep)" "length (header_text ?ep) = 80"
    using build_emwin_packet_eq(1) [OF assms(1)] assms(3) by simp_all
  have ep': "ep' = ?ep\<lparr>packet := memcpy_at (packet ?ep) 6 (header_text ?ep)\<rparr>"
    using build_emwin_packet_eq(2) [OF assms(1)] assms(3) by simp
  then have ht: "header_text ep' = header_text ?ep" by (simp add: header_text_def)
  have "packet ep' = replicate 6 0 @ header_text ?ep @ take data_size (ep_file ep) @ replicate (1030 - data_size) 0"
    using len assms(2) unfolding ep' by (simp add: after_read_def memcpy_at_def)
  then show ?thesis using len ht by (simp add: ep') (simp add: after_read_def)
qed

lemma build_emwin_packet_ok:
  assumes "data_size = (if part_number ep + 1 = parts_total ep then last_part_size ep else 1024)"
    and "data_size \<le> length (ep_file ep)" and "data_size \<le> 1024"
    and "length (fname ep) \<le> 12" "part_number ep + 1 < 10 ^ 5" "parts_total ep < 10 ^ 5"
    and "length (header_date ep) = 22"
  shows "\<exists>ep'. build_emwin_packet ep = (0, ep')
    \<and> packet ep' = replicate 6 0 @ header_text ep' @ take data_size (ep_file ep) @ replicate (1030 - data_size) 0
    \<and> length (header_text ep') = 80
    \<and> ep_file ep' = drop data_size (ep_file ep) \<and> part_number ep' = part_number ep + 1
    \<and> ep_checksum ep' = calc_checksum (take data_size (ep_file ep))
    \<and> fname ep' = fname ep \<and> header_date ep' = header_date ep \<and> parts_total ep' = parts_total ep
    \<and> last_part_size ep' = last_part_size ep"
proof -
  have "calc_checksum (take data_size (ep_file ep)) < 10 ^ 6"
    using calc_checksum_bound [of "take data_size (ep_file ep)"] assms(2,3) by simp
  then have "length (header_text (after_read data_size ep)) = 80"
    using assms by (intro length_header_text) (auto simp: after_read_def)
  then have "fst (build_emwin_packet ep) = 0"
    using build_emwin_packet_eq(1) [OF assms(1)] assms(2) by simp
  then obtain ep' where "build_emwin_packet ep = (0, ep')" by (metis prod.collapse)
  then show ?thesis using build_emwin_packet_shape [OF assms(1,3)] by blast
qed

section \<open>The packets of a file\<close>

text \<open>The data of part \<open>k\<close> (from 1) of a file, and the packet that carries it.\<close>

definition file_part :: "byte list \<Rightarrow> nat \<Rightarrow> byte list" where
  "file_part file k = take 1024 (drop ((k - 1) * 1024) file)"

definition packet_for :: "byte list \<Rightarrow> byte list \<Rightarrow> byte list \<Rightarrow> nat \<Rightarrow> byte list" where
  "packet_for file date name k =
     (let data = file_part file k
      in replicate 6 0
         @ header_text \<lparr>fname = name, header_date = date, packet = [], ep_file = [],
             parts_total = get_parts_total (length file), last_part_size = 0, part_number = k,
             ep_checksum = calc_checksum data\<rparr>
         @ data @ replicate (1030 - length data) 0)"

text \<open>A fifo whose reader keeps up: every \<open>write\<close> takes something.\<close>

definition accepting :: "wr list \<Rightarrow> bool" where
  "accepting ws \<longleftrightarrow> (\<forall>w \<in> set ws. \<exists>k > 0. w = Wr_acc k)"

lemma writef_loop_accepting:
  "accepting ws \<Longrightarrow> i \<le> length buf \<Longrightarrow>
     \<exists>ws'. writef_loop buf i ws = (int (length buf), ws', drop i buf) \<and> accepting ws'"
proof (induction ws arbitrary: i)
  case Nil
  then show ?case by (simp add: accepting_def)
next
  case (Cons w ws)
  then obtain k where k: "w = Wr_acc k" "0 < k" by (auto simp: accepting_def)
  let ?n = "min k (length buf - i)"
  show ?case
  proof (cases "i = length buf")
    case True
    with Cons.prems show ?thesis by simp
  next
    case False
    have "accepting ws" "i + ?n \<le> length buf" using Cons.prems by (simp_all add: accepting_def)
    then obtain ws' where w: "writef_loop buf (i + ?n) ws =
        (int (length buf), ws', drop (i + ?n) buf)" "accepting ws'"
      using Cons.IH [of "i + ?n"] by blast
    have "take ?n (drop i buf) @ drop (i + ?n) buf = drop i buf"
      by (metis append_take_drop_id drop_drop add.commute)
    with w False Cons.prems k show ?thesis by (auto simp: Let_def)
  qed
qed

lemma send_emwin_packet_ok:
  assumes "accepting ws" "length (packet ep) = 1116"
  shows "\<exists>ws'. send_emwin_packet ep ws = (0, ws', packet ep) \<and> accepting ws'"
  using writef_loop_accepting [OF assms(1), of 0 "packet ep"] assms(2)
  by (auto simp: send_emwin_packet_def writef_def insert_consts)

lemma file_part_data:
  assumes "0 < length file" "Suc k \<le> get_parts_total (length file)"
  shows "take (if Suc k = get_parts_total (length file) then get_last_part_size (length file) else 1024)
           (drop (k * 1024) file) = file_part file (Suc k)
    \<and> (if Suc k = get_parts_total (length file) then get_last_part_size (length file) else 1024)
        \<le> length (drop (k * 1024) file)
    \<and> drop (if Suc k = get_parts_total (length file) then get_last_part_size (length file) else 1024)
        (drop (k * 1024) file) = drop (Suc k * 1024) file"
proof -
  let ?T = "get_parts_total (length file)" and ?L = "get_last_part_size (length file)"
  have c: "length file = (?T - 1) * 1024 + ?L" "0 < ?T" "0 < ?L" "?L \<le> 1024"
    using parts_cover [OF assms(1)] by auto
  show ?thesis
  proof (cases "Suc k = ?T")
    case True
    then have kT: "?T - 1 = k" by simp
    with c(1) have len: "length file = k * 1024 + ?L" by simp
    with c(4) show ?thesis by (simp add: True [symmetric] file_part_def)
  next
    case False
    with assms(2) have "Suc k \<le> ?T - 1" by simp
    then have "Suc k * 1024 \<le> (?T - 1) * 1024" by (rule mult_le_mono1)
    with c(1) have "Suc k * 1024 \<le> length file" by linarith
    with False show ?thesis by (simp add: file_part_def add.commute)
  qed
qed

lemma header_text_cong:
  "fname a = fname b \<Longrightarrow> header_date a = header_date b \<Longrightarrow> part_number a = part_number b \<Longrightarrow>
   parts_total a = parts_total b \<Longrightarrow> ep_checksum a = ep_checksum b \<Longrightarrow> header_text a = header_text b"
  by (simp add: header_text_def)

text \<open>The structure after \<open>k\<close> parts; building a part gives its packet.\<close>

definition part_state :: "byte list \<Rightarrow> byte list \<Rightarrow> byte list \<Rightarrow> nat \<Rightarrow> emwin_packet_st \<Rightarrow> bool" where
  "part_state file date name k ep \<longleftrightarrow> part_number ep = k \<and> ep_file ep = drop (k * 1024) file \<and> fname ep = name
     \<and> header_date ep = date \<and> parts_total ep = get_parts_total (length file)
     \<and> last_part_size ep = get_last_part_size (length file)"

definition sendable :: "byte list \<Rightarrow> byte list \<Rightarrow> byte list \<Rightarrow> bool" where
  "sendable file date name \<longleftrightarrow> length name \<le> 12 \<and> length date = 22 \<and> get_parts_total (length file) < 10 ^ 5"

lemma build_part:
  assumes "sendable file date name" "part_state file date name k ep" "Suc k \<le> get_parts_total (length file)" "file \<noteq> []"
  shows "\<exists>ep'. build_emwin_packet ep = (0, ep') \<and> packet ep' = packet_for file date name (Suc k)
    \<and> length (packet ep') = 1116 \<and> part_state file date name (Suc k) ep'"
proof -
  note sd = assms(1) [unfolded sendable_def] and ps = assms(2) [unfolded part_state_def]
  have f: "0 < length file" using assms(4) by simp
  define ds where
    "ds = (if Suc k = get_parts_total (length file) then get_last_part_size (length file) else 1024)"
  have fp: "take ds (ep_file ep) = file_part file (Suc k)" "ds \<le> length (ep_file ep)"
      "drop ds (ep_file ep) = drop (Suc k * 1024) file"
    using file_part_data [OF f assms(3)] ps unfolding ds_def by auto
  have ds: "ds \<le> 1024" using parts_cover [OF f] by (simp add: ds_def)
  have sizes: "part_number ep + 1 < 10 ^ 5" "parts_total ep < 10 ^ 5" using assms(3) sd ps by simp_all
  have "ds = (if part_number ep + 1 = parts_total ep then last_part_size ep else 1024)"
    using ps by (simp add: ds_def)
  then obtain ep' where e: "build_emwin_packet ep = (0, ep')"
      "packet ep' = replicate 6 0 @ header_text ep' @ file_part file (Suc k) @ replicate (1030 - ds) 0"
      "length (header_text ep') = 80"
      "ep_file ep' = drop (Suc k * 1024) file" "part_number ep' = part_number ep + 1"
      "ep_checksum ep' = calc_checksum (file_part file (Suc k))"
      "fname ep' = fname ep" "header_date ep' = header_date ep" "parts_total ep' = parts_total ep"
      "last_part_size ep' = last_part_size ep"
    using build_emwin_packet_ok [of ds ep, OF _ fp(2) ds _ sizes] sd ps unfolding fp(1,3) by metis
  have len: "length (file_part file (Suc k)) = ds" using fp(2) unfolding fp(1) [symmetric] by simp
  have "packet ep' = packet_for file date name (Suc k)"
    unfolding e(2) packet_for_def Let_def len using e(5-9) ps
    by (intro arg_cong2 [where f = append] header_text_cong) simp_all
  moreover have "length (packet ep') = 1116" using e(2,3) len ds by simp
  moreover have "part_state file date name (Suc k) ep'" using e(4-10) ps by (simp add: part_state_def)
  ultimately show ?thesis using e(1) by blast
qed

lemma process_parts_ok:
  assumes "left + k = get_parts_total (length file)" "sendable file date name" "accepting ws" "file \<noteq> []"
    "part_state file date name k ep"
  shows "process_parts left ep ws = (0, concat (map (packet_for file date name) [Suc k..<Suc (k + left)]))"
  using assms
proof (induction left arbitrary: k ep ws)
  case (Suc left)
  obtain ep' where e: "build_emwin_packet ep = (0, ep')" "packet ep' = packet_for file date name (Suc k)"
    "length (packet ep') = 1116" "part_state file date name (Suc k) ep'"
    using build_part [OF Suc.prems(2,5) _ Suc.prems(4)] Suc.prems(1) by auto
  obtain ws' where s: "send_emwin_packet ep' ws = (0, ws', packet ep')" "accepting ws'"
    using send_emwin_packet_ok [OF Suc.prems(3) e(3)] by blast
  have "process_parts left ep' ws' = (0, concat (map (packet_for file date name) [Suc (Suc k)..<Suc (Suc k + left)]))"
    using Suc.prems(1,2,4) e(4) s(2) by (intro Suc.IH) simp_all
  then show ?case using e(1,2) s(1) by (simp add: upt_conv_Cons del: upt_Suc)
qed simp

text \<open>A send that reports success has written the whole packet.\<close>

lemma writef_loop_all: "writef_loop buf i ws = (int (length buf), ws', out) \<Longrightarrow> i \<le> length buf \<Longrightarrow> out = drop i buf"
proof (induction ws arbitrary: i out)
  case (Cons w ws)
  show ?case
  proof (cases "i < length buf")
    case True
    then obtain k where k: "w = Wr_acc k" "min k (length buf - i) \<noteq> 0"
      using Cons.prems(1) by (cases w) (auto simp: Let_def split: if_splits)
    let ?n = "min k (length buf - i)"
    obtain out' where o: "writef_loop buf (i + ?n) ws = (int (length buf), ws', out')" "out = take ?n (drop i buf) @ out'"
      using Cons.prems(1) True k by (auto simp: Let_def split: prod.splits if_splits)
    have "out' = drop (i + ?n) buf" using Cons.IH [OF o(1)] True by simp
    with o(2) show ?thesis by (metis append_take_drop_id drop_drop add.commute)
  next
    case False
    with Cons.prems show ?thesis by simp
  qed
qed simp

lemma send_emwin_packet_all:
  assumes "send_emwin_packet ep ws = (0, ws', out)" "length (packet ep) = 1116"
  shows "out = packet ep"
proof -
  have "writef_loop (packet ep) 0 ws = (int (length (packet ep)), ws', out)"
    using assms by (auto simp: send_emwin_packet_def writef_def insert_consts split: prod.splits if_splits)
  from writef_loop_all [OF this] show ?thesis by simp
qed

text \<open>
  What a success means, whatever the sizes and the name: the file held as many bytes as were
  announced, and the packets written are those of these bytes.
\<close>

lemma process_parts_success:
  assumes "left + k = get_parts_total n" "0 < n" "part_number ep = k" "ep_file ep = drop (k * 1024) file"
    "fname ep = name" "header_date ep = date" "parts_total ep = get_parts_total n" "last_part_size ep = get_last_part_size n"
    and "process_parts left ep ws = (0, out)"
  shows "(0 < left \<longrightarrow> n \<le> length file)
    \<and> out = concat (map (packet_for (take n file) date name) [Suc k..<Suc (k + left)])"
  using assms
proof (induction left arbitrary: k ep ws out)
  case (Suc left)
  let ?T = "get_parts_total n" and ?L = "get_last_part_size n"
  note cover = parts_cover [OF Suc.prems(2)]
  define ds where "ds = (if part_number ep + 1 = parts_total ep then last_part_size ep else 1024)"
  have ds: "ds = (if Suc k = ?T then ?L else 1024)" "ds \<le> 1024" "0 < ds"
    using Suc.prems(3,7,8) cover by (simp_all add: ds_def)
  obtain ep' ws' o1 o2 where b: "build_emwin_packet ep = (0, ep')" "send_emwin_packet ep' ws = (0, ws', o1)"
      "process_parts left ep' ws' = (0, o2)" "out = o1 @ o2"
    using Suc.prems(9) by (auto split: prod.splits if_splits)
  note sh = build_emwin_packet_shape [OF ds_def ds(2) b(1)]
  have room: "k * 1024 + ds \<le> length file" using sh ds(3) Suc.prems(4) by auto
  have fine: "left \<noteq> 0 \<Longrightarrow> ds = 1024" "left = 0 \<Longrightarrow> k * 1024 + ds = n"
    using ds(1) Suc.prems(1) cover by auto
  have IH: "left \<noteq> 0 \<Longrightarrow> n \<le> length file \<and>
      o2 = concat (map (packet_for (take n file) date name) [Suc (Suc k)..<Suc (Suc k + left)])"
    using Suc.prems sh fine(1) b(3) Suc.IH [of "Suc k" ep' ws' o2] by (simp add: add.commute)
  have n: "n \<le> length file" using IH fine(2) room by (cases "left = 0") auto
  have o2: "o2 = concat (map (packet_for (take n file) date name) [Suc (Suc k)..<Suc (Suc k + left)])"
    using IH b(3) by (cases "left = 0") auto
  have len: "length (take n file) = n" using n by simp
  have fp: "take ds (drop (k * 1024) (take n file)) = file_part (take n file) (Suc k)"
      "ds \<le> length (drop (k * 1024) (take n file))"
    using file_part_data [of "take n file" k] Suc.prems(1,2) unfolding len ds(1) by auto
  have data: "take ds (ep_file ep) = file_part (take n file) (Suc k)"
    using fp Suc.prems(4) n by (simp add: drop_take min_absorb2)
  have dl: "length (file_part (take n file) (Suc k)) = ds" using sh unfolding data [symmetric] by simp
  have "packet ep' = packet_for (take n file) date name (Suc k)"
    unfolding packet_for_def Let_def dl len using sh Suc.prems(3,5-7) unfolding data
    by (simp add: header_text_def)
  moreover have "o1 = packet ep'"
    using send_emwin_packet_all [OF b(2)] sh ds(2) dl data by simp
  ultimately show ?case using n o2 b(4) by (simp add: upt_conv_Cons del: upt_Suc)
qed simp

lemma process_file_success:
  assumes "process_file (Some n) (Some file) date name ws = (0, out)" "get_parts_total n < 2 ^ 31"
  shows "n \<le> length file
    \<and> out = concat (map (packet_for (take n file) date (take 12 name)) [1..<Suc (get_parts_total n)])"
proof -
  have "c_int_of (int (get_parts_total n)) = int (get_parts_total n)"
    using assms(2) by (intro c_int_of_id) auto
  moreover have "length date = 22"
    using assms(1) by (auto simp: process_file_def init_emwin_packet_st_def build_header_date_def Let_def insert_consts split: if_splits)
  moreover define ep where "ep = \<lparr>fname = take 12 name, header_date = date, packet = [], ep_file = file,
      parts_total = get_parts_total n, last_part_size = get_last_part_size n, part_number = 0, ep_checksum = 0\<rparr>"
  ultimately have p: "process_parts (get_parts_total n) ep ws = (0, out)"
    using assms(1) by (simp add: process_file_def init_emwin_packet_st_def build_header_date_def Let_def insert_consts)
  show ?thesis
  proof (cases "n = 0")
    case True
    then show ?thesis using p by (simp add: get_parts_total_def insert_consts)
  next
    case False
    then show ?thesis
      using process_parts_success [of "get_parts_total n" 0 n ep "file" "take 12 name" date ws out] p parts_cover [of n]
      by (simp add: ep_def)
  qed
qed

text \<open>A number of parts that is too large for an \<open>int\<close>: the tool succeeds without sending anything.\<close>

lemma huge_file_not_sent:
  assumes "length date = 22"
  shows "process_file (Some (2 ^ 42)) (Some file) date name ws = (0, [])"
proof -
  have "c_int_of (int (get_parts_total (2 ^ 42))) = 0"
    by (simp add: get_parts_total_def insert_consts c_int_of_def signed_take_bit_eq_take_bit_shift)
  then show ?thesis
    using assms by (simp add: process_file_def init_emwin_packet_st_def build_header_date_def Let_def insert_consts)
qed

lemma init_part_state:
  assumes "sendable file date name"
  shows "\<exists>ep. init_emwin_packet_st (Some (length file)) (Some file) date name = (0, ep)
    \<and> parts_total ep = get_parts_total (length file) \<and> part_state file date name 0 ep"
proof -
  have "c_int_of (int (get_parts_total (length file))) = int (get_parts_total (length file))"
    using assms by (intro c_int_of_id) (auto simp: sendable_def)
  with assms show ?thesis
    by (simp add: init_emwin_packet_st_def build_header_date_def Let_def insert_consts sendable_def part_state_def)
qed

lemma parts_of_empty: "get_parts_total (length []) = 0"
  by (simp add: get_parts_total_def insert_consts)

lemma process_file_packets:
  assumes "sendable file date name" "accepting ws"
  shows "process_file (Some (length file)) (Some file) date name ws =
    (0, concat (map (packet_for file date name) [1..<Suc (get_parts_total (length file))]))"
proof -
  obtain ep where ep: "init_emwin_packet_st (Some (length file)) (Some file) date name = (0, ep)"
    "parts_total ep = get_parts_total (length file)" "part_state file date name 0 ep"
    using init_part_state [OF assms(1)] by blast
  show ?thesis
  proof (cases "file = []")
    case True
    then show ?thesis using ep parts_of_empty by (simp add: process_file_def)
  next
    case False
    with process_parts_ok [OF _ assms(1,2) False ep(3), of "get_parts_total (length file)"] ep show ?thesis
      by (simp add: process_file_def)
  qed
qed

end
