(* ===== verification/Util.thy ===== *)
theory Util
  imports Npemwin_Prelude
begin

text \<open>
  \<open>src/util.c\<close>: month and weekday names, the checked conversions of decimal text, and the
  big-endian packing of 32-bit and 16-bit values that carries the packet sizes through the
  client queues. A \<open>NULL\<close> result is \<open>None\<close>.
\<close>

section \<open>Month and weekday names\<close>

definition months :: "byte list list" where
  "months = map cstr [''Jan'', ''Feb'', ''Mar'', ''Apr'', ''May'', ''Jun'', ''Jul'',
     ''Aug'', ''Sep'', ''Oct'', ''Nov'', ''Dec'']"

definition wdays :: "byte list list" where
  "wdays = map cstr [''Sun'', ''Mon'', ''Tue'', ''Wed'', ''Thu'', ''Fri'', ''Sat'']"

definition valid_month :: "int \<Rightarrow> bool" where
  "valid_month month \<longleftrightarrow> month \<ge> 0 \<and> month \<le> 11"

definition get_month_name :: "int \<Rightarrow> byte list option" where
  "get_month_name month = (if valid_month month then Some (months ! nat month) else None)"

definition strcasecmp_eq :: "byte list \<Rightarrow> byte list \<Rightarrow> bool" where
  "strcasecmp_eq a b \<longleftrightarrow> map tolower a = map tolower b"

fun get_month_from :: "byte list list \<Rightarrow> int \<Rightarrow> byte list \<Rightarrow> int" where
  "get_month_from [] i s = -1"
| "get_month_from (m # ms) i s = (if strcasecmp_eq m s then i else get_month_from ms (i + 1) s)"

definition get_month :: "byte list \<Rightarrow> int" where
  "get_month s = get_month_from months 0 s"

definition valid_wday :: "int \<Rightarrow> bool" where
  "valid_wday wday \<longleftrightarrow> wday \<ge> 0 \<and> wday \<le> 6"

definition get_wday_name :: "int \<Rightarrow> byte list option" where
  "get_wday_name wday = (if valid_wday wday then Some (wdays ! nat wday) else None)"

section \<open>Decimal text to integers\<close>

text \<open>
  \<open>strtol\<close> and \<open>strtoul\<close> in base ten: leading blanks, a sign, the longest run of digits,
  the rest of the text, and whether \<open>errno\<close> was set for a value outside the 64-bit range.
  \<open>None\<close> is the case \<open>end == s\<close>: no digits.
\<close>

definition strto_parse :: "byte list \<Rightarrow> (bool \<times> nat \<times> byte list) option" where
  "strto_parse s =
     (let s1 = dropWhile isspace s;
          neg = (s1 \<noteq> [] \<and> hd s1 = 45);
          s2 = (if s1 \<noteq> [] \<and> (hd s1 = 45 \<or> hd s1 = 43) then tl s1 else s1);
          ds = takeWhile isdigit s2
      in if ds = [] then None else Some (neg, digits_val ds, drop (length ds) s2))"

definition strtol :: "byte list \<Rightarrow> (int \<times> byte list \<times> bool) option" where
  "strtol s = (case strto_parse s of
      None \<Rightarrow> None
    | Some (neg, n, r) \<Rightarrow>
        (let v = (if neg then - int n else int n)
         in Some (max (- (2 ^ 63)) (min (2 ^ 63 - 1) v), r, v < - (2 ^ 63) \<or> v > 2 ^ 63 - 1)))"

definition strtoul :: "byte list \<Rightarrow> (int \<times> byte list \<times> bool) option" where
  "strtoul s = (case strto_parse s of
      None \<Rightarrow> None
    | Some (neg, n, r) \<Rightarrow>
        (if n > 2 ^ 64 - 1 then Some (2 ^ 64 - 1, r, True)
         else Some ((if neg then - int n else int n) mod 2 ^ 64, r, False)))"

text \<open>
  The converted value is the argument of \<open>Some\<close>; \<open>None\<close> is status 1. The 64-bit result
  is assigned to a 32-bit variable before any check, as the code does.
\<close>

definition strto_int :: "byte list \<Rightarrow> int option" where
  "strto_int s = (case strtol s of
      None \<Rightarrow> None
    | Some (v, rest, erange) \<Rightarrow>
        if rest \<noteq> [] \<or> erange then None else Some (signed_take_bit 31 v))"

definition strto_uint :: "byte list \<Rightarrow> u32 option" where
  "strto_uint s = (case strtoul s of
      None \<Rightarrow> None
    | Some (v, rest, erange) \<Rightarrow>
        if rest \<noteq> [] \<or> erange then None else Some (word_of_int v))"

definition strto_u16 :: "byte list \<Rightarrow> 16 word option" where
  "strto_u16 s = (case strto_uint s of
      None \<Rightarrow> None
    | Some u \<Rightarrow> if u \<le> 65535 then Some (ucast u) else None)"

text \<open>\<open>valid_str\<close>: a pointer that is not \<open>NULL\<close> and a string that is not empty.\<close>

definition valid_str :: "byte list option \<Rightarrow> bool" where
  "valid_str s \<longleftrightarrow> (case s of None \<Rightarrow> False | Some t \<Rightarrow> t \<noteq> [])"

section \<open>Big-endian packing\<close>

definition unpack_uint32 :: "byte list \<Rightarrow> nat \<Rightarrow> u32" where
  "unpack_uint32 p start =
     push_bit 24 (ucast (p ! start)) + push_bit 16 (ucast (p ! (start + 1)))
     + push_bit 8 (ucast (p ! (start + 2))) + ucast (p ! (start + 3))"

definition pack_uint32 :: "byte list \<Rightarrow> u32 \<Rightarrow> nat \<Rightarrow> byte list" where
  "pack_uint32 p u start =
     memcpy_at p start
       [ucast (drop_bit 24 u AND 0xff), ucast (drop_bit 16 u AND 0xff),
        ucast (drop_bit 8 u AND 0xff), ucast (u AND 0xff)]"

definition unpack_uint16 :: "byte list \<Rightarrow> nat \<Rightarrow> 16 word" where
  "unpack_uint16 p start = push_bit 8 (ucast (p ! start)) + ucast (p ! (start + 1))"

definition pack_uint16 :: "byte list \<Rightarrow> 16 word \<Rightarrow> nat \<Rightarrow> byte list" where
  "pack_uint16 p u start =
     memcpy_at p start [ucast (drop_bit 8 u AND 0xff), ucast (u AND 0xff)]"

lemma ucast_low_byte [simp]: "(ucast (w AND 0xff) :: byte) = ucast w" for w :: "'a::len word"
proof -
  have m: "(0xff::'a word) = mask 8" by (simp add: mask_eq_exp_minus_1)
  show ?thesis unfolding m
    by (rule bit_word_eqI) (auto simp: bit_unsigned_iff bit_and_iff bit_mask_iff dest: bit_imp_le_length)
qed
lemma bytes_of_u32:
  fixes u :: u32
  shows "push_bit 24 (ucast (ucast (drop_bit 24 u) :: byte))
     + push_bit 16 (ucast (ucast (drop_bit 16 u) :: byte))
     + push_bit 8 (ucast (ucast (drop_bit 8 u) :: byte))
     + ucast (ucast u :: byte) = u" (is "?a + ?b + ?c + ?d = u")
proof -
  note bits = bit_push_bit_iff bit_unsigned_iff bit_drop_bit_eq bit_or_iff
  have 1: "?a + ?b = ?a OR ?b"
    by (rule disjunctive_add) (auto simp: bits)
  have 2: "(?a OR ?b) + ?c = ?a OR ?b OR ?c"
    by (subst disjunctive_add) (auto simp: bits or.assoc)
  have 3: "(?a OR ?b OR ?c) + ?d = ?a OR ?b OR ?c OR ?d"
    by (subst disjunctive_add) (auto simp: bits or.assoc)
  have "?a OR ?b OR ?c OR ?d = u"
  proof (rule bit_word_eqI)
    fix n :: nat assume "n < LENGTH(32)"
    then show "bit (?a OR ?b OR ?c OR ?d) n = bit u n"
      by (cases "n < 8"; cases "n < 16"; cases "n < 24") (auto simp: bits)
  qed
  with 1 2 3 show ?thesis by simp
qed
lemma bytes_of_u16:
  fixes u :: "16 word"
  shows "push_bit 8 (ucast (ucast (drop_bit 8 u) :: byte)) + ucast (ucast u :: byte) = u" (is "?c + ?d = u")
proof -
  note bits = bit_push_bit_iff bit_unsigned_iff bit_drop_bit_eq bit_or_iff
  have "?c + ?d = ?c OR ?d"
    by (rule disjunctive_add) (auto simp: bits)
  also have "\<dots> = u"
  proof (rule bit_word_eqI)
    fix n :: nat assume "n < LENGTH(16)"
    then show "bit (?c OR ?d) n = bit u n"
      by (cases "n < 8") (auto simp: bits)
  qed
  finally show ?thesis .
qed

lemma unpack_bytes:
  "length pre = start \<Longrightarrow> unpack_uint32 (pre @ a # b # c # d # post) start =
     push_bit 24 (ucast a) + push_bit 16 (ucast b) + push_bit 8 (ucast c) + ucast d"
  by (auto simp: unpack_uint32_def nth_append)

lemma unpack_pack [simp]:
  "start + 4 \<le> length p \<Longrightarrow> unpack_uint32 (pack_uint32 p u start) start = u"
  by (simp add: pack_uint32_def memcpy_at_def unpack_bytes bytes_of_u32)

lemma length_pack_uint32 [simp]:
  "start + 4 \<le> length p \<Longrightarrow> length (pack_uint32 p u start) = length p"
  by (simp add: pack_uint32_def)

lemma drop_pack_uint32 [simp]:
  "start + 4 \<le> length p \<Longrightarrow> drop (start + 4) (pack_uint32 p u start) = drop (start + 4) p"
  by (simp add: pack_uint32_def memcpy_at_def eval_nat_numeral)

lemma drop4_pack_uint32 [simp]: "4 \<le> length p \<Longrightarrow> drop 4 (pack_uint32 p u 0) = drop 4 p"
  using drop_pack_uint32 [of 0 p u] by simp

lemma pack_uint32_take:
  "start + 4 \<le> length p \<Longrightarrow> take start (pack_uint32 p u start) = take start p"
  by (simp add: pack_uint32_def memcpy_at_def)

text \<open>
  Packing a 32-bit size into a buffer and unpacking it again gives the size back, and
  the bytes before and after the four size bytes are unchanged.
\<close>

theorem unpack_pack_uint32:
  assumes "start + 4 \<le> length p"
  shows "unpack_uint32 (pack_uint32 p u start) start = u
    \<and> length (pack_uint32 p u start) = length p
    \<and> take start (pack_uint32 p u start) = take start p
    \<and> drop (start + 4) (pack_uint32 p u start) = drop (start + 4) p"
  using assms by (simp add: pack_uint32_take)

theorem unpack_pack_uint32_witness:
  "1 + 4 \<le> length [1, 2, 3, 4, 5, 6 :: byte] \<and> unpack_uint32 (pack_uint32 [1, 2, 3, 4, 5, 6] 0x045C 1) 1 = 0x045C"
  using unpack_pack_uint32 [where start = 1 and p = "[1, 2, 3, 4, 5, 6]" and u = "0x045C"] by simp

section \<open>Reading numbers back\<close>

lemma takeWhile_dec [simp]: "takeWhile isdigit (dec n) = dec n"
  using dec_digits [of n] by (auto simp: takeWhile_eq_all_conv)

lemma dec_hd: "isdigit (hd (dec n))"
  using dec_digits [of n] by (simp add: list.set_sel(1))

lemma dropWhile_dec [simp]: "dropWhile isspace (dec n) = dec n"
  using dec_hd [of n] isdigit_not_isspace by (cases "dec n") auto

lemma dec_hd_digit [simp]: "hd (dec n) \<noteq> 45" "hd (dec n) \<noteq> 43"
  using dec_hd [of n] by (auto simp: isdigit_def)

lemma strto_parse_dec: "strto_parse (dec n) = Some (False, n, [])"
  by (simp add: strto_parse_def Let_def)

lemma strto_parse_neg_dec: "strto_parse (45 # dec n) = Some (True, n, [])"
  by (simp add: strto_parse_def Let_def isspace_def)

text \<open>
  Every C \<open>int\<close> printed with \<open>%d\<close> is read back by \<open>strto_int\<close> as the same value.
\<close>

theorem strto_int_printf_d:
  assumes "- (2 ^ 31) \<le> v" and "v < 2 ^ 31"
  shows "strto_int (printf_d v) = Some v"
proof (cases "v < 0")
  case True
  with assms show ?thesis
    by (simp add: strto_int_def strtol_def printf_d_def strto_parse_neg_dec Let_def
        signed_take_bit_int_eq_self)
next
  case False
  with assms show ?thesis
    by (simp add: strto_int_def strtol_def printf_d_def strto_parse_dec Let_def
        signed_take_bit_int_eq_self)
qed

theorem strto_int_printf_d_witness:
  "(- (2 ^ 31) \<le> (- 1016 :: int)) \<and> strto_int (printf_d (- 1016)) = Some (- 1016)"
  using strto_int_printf_d [of "- 1016"] by simp

text \<open>
  \<open>strto_u16\<close> accepts exactly the values that fit 16 bits as long as the text denotes a
  32-bit value; but a text whose value is \<open>2 ^ 32 + k\<close> with \<open>k\<close> below \<open>2 ^ 16\<close> is accepted
  as \<open>k\<close>, because the 64-bit result of \<open>strtoul\<close> is cut to 32 bits before the range check.
\<close>

theorem strto_u16_range:
  "(n < 2 ^ 16 \<longrightarrow> strto_u16 (dec n) = Some (of_nat n))
   \<and> (2 ^ 16 \<le> n \<and> n < 2 ^ 32 \<longrightarrow> strto_u16 (dec n) = None)
   \<and> (n < 2 ^ 16 \<longrightarrow> strto_u16 (dec (2 ^ 32 + n)) = Some (of_nat n))"
proof -
  have u: "strto_uint (dec m) = Some (of_nat m)" if "m < 2 ^ 64" for m
  proof -
    have "int m < 2 ^ 64"
      using that by (simp flip: of_nat_less_iff)
    then show ?thesis
      using that by (simp add: strto_uint_def strtoul_def strto_parse_dec)
  qed
  have le: "(of_nat m :: u32) \<le> 65535 \<longleftrightarrow> m \<le> 65535" if "m < 2 ^ 32" for m
    using that by (simp add: word_le_nat_alt unat_of_nat)
  have wrap: "(4294967296 + x :: u32) = x" for x
  proof -
    have "(4294967296 :: u32) = 0" by simp
    then show ?thesis by simp
  qed
  have cast: "ucast (of_nat n :: u32) = (of_nat n :: 16 word)" if "n < 2 ^ 16"
    using that by (simp add: unsigned_of_nat take_bit_nat_eq_self)
  show ?thesis
    using u [of n] u [of "2 ^ 32 + n"] le [of n] wrap cast
    by (auto simp: strto_u16_def)
qed

theorem strto_u16_range_witness:
  "strto_u16 (dec 1000) = Some 1000 \<and> strto_u16 (dec (2 ^ 32 + 1000)) = Some 1000"
  using strto_u16_range [of 1000] by simp

end
