(* ===== verification/Scanf.thy ===== *)
theory Scanf
  imports Npemwin_Prelude
begin

text \<open>
  The C library's \<open>sscanf\<close> for the directives the program uses: literal bytes, white
  space, \<open>%ws\<close>, \<open>%d\<close> and \<open>%wc\<close>. The result is the list of assigned values; its
  length is the value \<open>sscanf\<close> returns. The scan stops at the first directive that does
  not match. \<open>%wc\<close> follows the C library in accepting fewer than \<open>w\<close> bytes at the end of
  the input, as long as there is one.
\<close>

datatype scan_dir = SLit byte | SWs | SStr nat | SInt | SChars nat

datatype scan_val = VStr "byte list" | VInt int

definition skip_ws :: "byte list \<Rightarrow> byte list" where
  "skip_ws s = dropWhile isspace s"

text \<open>\<open>%ws\<close>: at most \<open>w\<close> non-blank bytes.\<close>

definition scan_str :: "nat \<Rightarrow> byte list \<Rightarrow> (byte list \<times> byte list) option" where
  "scan_str w s =
     (let s = skip_ws s;
          tok = take w (takeWhile (\<lambda>c. \<not> isspace c) s)
      in if tok = [] then None else Some (tok, drop (length tok) s))"

text \<open>\<open>%d\<close>: an optional sign and at least one digit.\<close>

definition scan_nat :: "byte list \<Rightarrow> (nat \<times> byte list) option" where
  "scan_nat s =
     (let ds = takeWhile isdigit s
      in if ds = [] then None else Some (digits_val ds, drop (length ds) s))"

definition scan_int :: "byte list \<Rightarrow> (int \<times> byte list) option" where
  "scan_int s =
     (case skip_ws s of
        [] \<Rightarrow> None
      | c # cs \<Rightarrow>
          if c = 45 then map_option (map_prod (\<lambda>n. - int n) id) (scan_nat cs)
          else if c = 43 then map_option (map_prod int id) (scan_nat cs)
          else map_option (map_prod int id) (scan_nat (c # cs)))"

fun sscanf :: "scan_dir list \<Rightarrow> byte list \<Rightarrow> scan_val list" where
  "sscanf [] s = []"
| "sscanf (SLit b # ds) s =
     (case s of [] \<Rightarrow> [] | c # cs \<Rightarrow> if c = b then sscanf ds cs else [])"
| "sscanf (SWs # ds) s = sscanf ds (skip_ws s)"
| "sscanf (SStr w # ds) s =
     (case scan_str w s of None \<Rightarrow> [] | Some (t, s') \<Rightarrow> VStr t # sscanf ds s')"
| "sscanf (SInt # ds) s =
     (case scan_int s of None \<Rightarrow> [] | Some (v, s') \<Rightarrow> VInt (c_int_of v) # sscanf ds s')"
| "sscanf (SChars w # ds) s =
     (if s = [] then [] else VStr (take w s) # sscanf ds (drop w s))"

abbreviation scan_lit :: "byte list \<Rightarrow> scan_dir list" where
  "scan_lit s \<equiv> map SLit s"

section \<open>Scanning printed text\<close>

lemma sscanf_lit [scan_simps]: "sscanf (scan_lit l @ ds) (l @ s) = sscanf ds s"
  by (induction l) auto

lemma skip_ws_pad [simp]: "skip_ws (replicate k 32 @ s) = skip_ws s"
  by (induction k) (auto simp: skip_ws_def)

lemma skip_ws_Cons [simp]: "\<not> isspace c \<Longrightarrow> skip_ws (c # s) = c # s"
  by (simp add: skip_ws_def)

lemma skip_ws_append: "s \<noteq> [] \<Longrightarrow> \<forall>c \<in> set s. \<not> isspace c \<Longrightarrow> skip_ws (s @ t) = s @ t"
  by (cases s) auto

lemma takeWhile_stop:
  "\<forall>c \<in> set s. P c \<Longrightarrow> t = [] \<or> \<not> P (hd t) \<Longrightarrow> takeWhile P (s @ t) = s"
  by (cases t) (auto simp: takeWhile_append2)

lemma sscanf_str_pad [scan_simps]:
  assumes tok: "tok \<noteq> []" "\<forall>c \<in> set tok. \<not> isspace c" "length tok \<le> w"
  shows "sscanf (SStr w # ds) (pad_right w tok @ s) = VStr tok # sscanf ds (replicate (w - length tok) 32 @ s)"
proof -
  let ?rest = "replicate (w - length tok) 32 @ s"
  have ws: "skip_ws (tok @ ?rest) = tok @ ?rest"
    using tok by (intro skip_ws_append) auto
  have "take w (takeWhile (\<lambda>c. \<not> isspace c) (tok @ ?rest)) = tok"
  proof (cases "length tok = w")
    case True
    have "takeWhile (\<lambda>c. \<not> isspace c) (tok @ s) = tok @ takeWhile (\<lambda>c. \<not> isspace c) s"
      using tok by (intro takeWhile_append2) auto
    with True show ?thesis by simp
  next
    case False
    with tok(3) obtain k where "w - length tok = Suc k" by (cases "w - length tok") auto
    then have "hd ?rest = 32" by simp
    then have "takeWhile (\<lambda>c. \<not> isspace c) (tok @ ?rest) = tok"
      using tok(2) by (intro takeWhile_stop) auto
    with tok(3) show ?thesis by simp
  qed
  with ws tok(1) have "scan_str w (pad_right w tok @ s) = Some (tok, ?rest)"
    by (simp add: scan_str_def pad_right_def Let_def del: take_eq_Nil)
  then show ?thesis by simp
qed

lemma sscanf_ws_pad [scan_simps]:
  "\<not> isspace c \<Longrightarrow> sscanf (SWs # ds) (replicate k 32 @ c # s) = sscanf ds (c # s)"
  by simp

lemma sscanf_ws_space [scan_simps]:
  "sscanf (SWs # ds) (32 # s) = sscanf (SWs # ds) s"
  by (simp add: skip_ws_def)

lemma dec_hd_not_sign: "dec n = c # cs \<Longrightarrow> c \<noteq> 45 \<and> c \<noteq> 43 \<and> \<not> isspace c"
proof -
  assume "dec n = c # cs"
  then have "isdigit c" using dec_digits [of n] by auto
  then show ?thesis using isdigit_not_isspace [of c] by (auto simp: isdigit_def)
qed

lemma scan_int_dec:
  assumes "t = [] \<or> \<not> isdigit (hd t)"
  shows "scan_int (dec n @ t) = Some (int n, t)"
proof -
  obtain c cs where c: "dec n = c # cs" by (cases "dec n") auto
  have "takeWhile isdigit (dec n @ t) = dec n"
    using assms dec_digits by (intro takeWhile_stop) auto
  then have "scan_nat (dec n @ t) = Some (n, t)"
    by (simp add: scan_nat_def)
  with c dec_hd_not_sign [OF c] show ?thesis
    by (simp add: scan_int_def)
qed

lemma sscanf_int_pad [scan_simps]:
  assumes "\<not> isdigit c" and "n < 2 ^ 31"
  shows "sscanf (SInt # ds) (pad_right w (dec n) @ c # s) =
           VInt (int n) # sscanf ds (replicate (w - length (dec n)) 32 @ c # s)"
proof -
  have "int n < 2 ^ 31"
    using assms(2) by simp
  then have "c_int_of (int n) = int n"
    by (intro c_int_of_id) auto
  moreover have "scan_int (pad_right w (dec n) @ c # s) =
      Some (int n, replicate (w - length (dec n)) 32 @ c # s)"
    unfolding pad_right_def append_assoc using assms(1)
    by (intro scan_int_dec) (cases "w - length (dec n)"; simp)
  ultimately show ?thesis by simp
qed

lemma sscanf_chars [scan_simps]:
  "length t = w \<Longrightarrow> 0 < w \<Longrightarrow> sscanf (SChars w # ds) (t @ s) = VStr t # sscanf ds s"
  by auto

section \<open>What the conversions can yield\<close>

fun convs :: "scan_dir list \<Rightarrow> scan_dir list" where
  "convs [] = []"
| "convs (SLit b # ds) = convs ds"
| "convs (SWs # ds) = convs ds"
| "convs (d # ds) = d # convs ds"

fun fits :: "scan_dir \<Rightarrow> scan_val \<Rightarrow> bool" where
  "fits (SStr w) (VStr t) = (length t \<le> w)"
| "fits SInt (VInt v) = (- (2 ^ 31) \<le> v \<and> v < 2 ^ 31)"
| "fits (SChars w) (VStr t) = (length t \<le> w)"
| "fits _ _ = False"

lemma c_int_of_range: "- (2 ^ 31) \<le> c_int_of v" "c_int_of v < 2 ^ 31"
  unfolding c_int_of_def by (rule signed_take_bit_int_greater_eq_minus_exp, rule signed_take_bit_int_less_exp)

lemma scan_str_width: "scan_str w s = Some (t, s') \<Longrightarrow> length t \<le> w"
  by (auto simp: scan_str_def Let_def split: if_splits)

lemma sscanf_fits: "list_all2 fits (take (length (sscanf ds s)) (convs ds)) (sscanf ds s)"
proof (induction ds s rule: sscanf.induct)
  case (5 ds s)
  then show ?case using c_int_of_range by (auto split: option.splits)
qed (auto split: list.splits option.splits dest: scan_str_width)

section \<open>What was scanned\<close>

text \<open>
  The converse: where at least one more value was assigned, the text has the form that the
  directives describe. \<open>reads_as\<close> says what \<open>%d\<close> reads: digits, with or without a sign.
\<close>

definition reads_as :: "byte list \<Rightarrow> int \<Rightarrow> bool" where
  "reads_as t v \<longleftrightarrow>
     (\<exists>ds. ds \<noteq> [] \<and> (\<forall>c \<in> set ds. isdigit c)
        \<and> (t = 45 # ds \<and> v = - int (digits_val ds)
           \<or> (t = ds \<or> t = 43 # ds) \<and> v = int (digits_val ds)))"

definition blank :: "byte list \<Rightarrow> bool" where
  "blank s \<longleftrightarrow> (\<forall>c \<in> set s. isspace c)"

lemma skip_ws_split: "\<exists>w. blank w \<and> s = w @ skip_ws s"
  by (intro exI [of _ "takeWhile isspace s"]) (auto simp: blank_def skip_ws_def dest: set_takeWhileD)

lemma scan_nat_split:
  assumes "scan_nat s = Some (n, s')"
  shows "\<exists>ds. ds \<noteq> [] \<and> (\<forall>c \<in> set ds. isdigit c) \<and> n = digits_val ds \<and> s = ds @ s'"
  using assms
  by (intro exI [of _ "takeWhile isdigit s"])
    (auto simp: scan_nat_def Let_def dropWhile_eq_drop [symmetric] dest: set_takeWhileD split: if_splits)

lemma scan_int_split:
  assumes "scan_int s = Some (v, s')"
  shows "\<exists>w t. blank w \<and> reads_as t v \<and> s = w @ t @ s'"
proof -
  obtain w where w: "blank w" "s = w @ skip_ws s" using skip_ws_split by blast
  obtain c cs where c: "skip_ws s = c # cs"
    using assms by (cases "skip_ws s") (auto simp: scan_int_def)
  have "\<exists>t. reads_as t v \<and> skip_ws s = t @ s'"
  proof (cases "c = 45 \<or> c = 43")
    case True
    then obtain n where n: "scan_nat cs = Some (n, s')" "v = (if c = 45 then - int n else int n)"
      using assms c by (auto simp: scan_int_def)
    with scan_nat_split [OF n(1)] True c show ?thesis
      by (intro exI [of _ "take (length (skip_ws s) - length s') (skip_ws s)"])
        (auto simp: reads_as_def)
  next
    case False
    then obtain n where n: "scan_nat (c # cs) = Some (n, s')" "v = int n"
      using assms c by (auto simp: scan_int_def)
    with scan_nat_split [OF n(1)] c show ?thesis
      by (auto simp: reads_as_def)
  qed
  with w show ?thesis by (metis append.assoc)
qed

lemma scan_str_split:
  assumes "scan_str n s = Some (t, s')"
  shows "\<exists>w. blank w \<and> t \<noteq> [] \<and> length t \<le> n \<and> (\<forall>c \<in> set t. \<not> isspace c) \<and> s = w @ t @ s'"
proof -
  obtain w where w: "blank w" "s = w @ skip_ws s" using skip_ws_split by blast
  let ?t = "take n (takeWhile (\<lambda>c. \<not> isspace c) (skip_ws s))"
  have t: "t = ?t" "t \<noteq> []" "s' = drop (length t) (skip_ws s)"
    using assms by (auto simp: scan_str_def Let_def split: if_splits)
  have "skip_ws s = t @ drop n (takeWhile (\<lambda>c. \<not> isspace c) (skip_ws s)) @ dropWhile (\<lambda>c. \<not> isspace c) (skip_ws s)"
    unfolding t(1) by (metis append.assoc append_take_drop_id takeWhile_dropWhile_id)
  then have "skip_ws s = t @ s'"
    using t(3) by (metis append_eq_conv_conj)
  then have "s = w @ t @ s'" using w(2) by (rule subst)
  moreover have "\<forall>c \<in> set t. \<not> isspace c" "length t \<le> n"
    unfolding t(1) by (auto dest: in_set_takeD set_takeWhileD)
  ultimately show ?thesis using w(1) t(2) by blast
qed

lemma sscanf_lit_inv:
  "sscanf (scan_lit l @ ds) s \<noteq> [] \<Longrightarrow> \<exists>s'. s = l @ s' \<and> sscanf (scan_lit l @ ds) s = sscanf ds s'"
  by (induction l arbitrary: s) (auto split: list.splits if_splits)

lemma sscanf_ws_inv: "\<exists>w s'. blank w \<and> s = w @ s' \<and> sscanf (SWs # ds) s = sscanf ds s'"
  using skip_ws_split [of s] by auto

lemma sscanf_str_inv:
  assumes "sscanf (SStr n # ds) s = v # vs"
  shows "\<exists>w t s'. blank w \<and> t \<noteq> [] \<and> length t \<le> n \<and> (\<forall>c \<in> set t. \<not> isspace c)
    \<and> s = w @ t @ s' \<and> v = VStr t \<and> sscanf ds s' = vs"
  using assms scan_str_split [of n s] by (fastforce split: option.splits)

lemma sscanf_int_inv:
  assumes "sscanf (SInt # ds) s = v # vs"
  shows "\<exists>w t i s'. blank w \<and> reads_as t i \<and> s = w @ t @ s' \<and> v = VInt (c_int_of i) \<and> sscanf ds s' = vs"
  using assms scan_int_split [of s] by (fastforce split: option.splits)

lemma sscanf_chars_inv:
  assumes "sscanf [SChars n] s = v # vs" and "0 < n"
  shows "\<exists>t s'. t \<noteq> [] \<and> length t \<le> n \<and> s = t @ s' \<and> v = VStr t \<and> vs = []"
  using assms by (intro exI [of _ "take n s"] exI [of _ "drop n s"]) (auto split: if_splits)

text \<open>A number between literals, as the headers of the packets have it: \<open>" /XX %d"\<close>.\<close>

lemma sscanf_number_inv:
  assumes "sscanf (SWs # scan_lit l @ SWs # SInt # ds) s = v # vs"
  shows "\<exists>w1 w2 t i s'. blank w1 \<and> blank w2 \<and> reads_as t i \<and> s = w1 @ l @ w2 @ t @ s'
    \<and> v = VInt (c_int_of i) \<and> sscanf ds s' = vs"
proof -
  obtain w1 s1 where 1: "blank w1" "s = w1 @ s1" "sscanf (scan_lit l @ SWs # SInt # ds) s1 = v # vs"
    using assms sscanf_ws_inv by metis
  obtain s2 where 2: "s1 = l @ s2" "sscanf (SWs # SInt # ds) s2 = v # vs"
    using 1(3) sscanf_lit_inv [of l "SWs # SInt # ds" s1] by auto
  obtain w2 s3 where 3: "blank w2" "s2 = w2 @ s3" "sscanf (SInt # ds) s3 = v # vs"
    using 2(2) sscanf_ws_inv by metis
  obtain w3 t i s' where 4: "blank w3" "reads_as t i" "s3 = w3 @ t @ s'" "v = VInt (c_int_of i)"
      "sscanf ds s' = vs"
    using sscanf_int_inv [OF 3(3)] by blast
  have "blank (w2 @ w3)" using 3(1) 4(1) by (auto simp: blank_def)
  with 1 2 3 4 show ?thesis by (metis append.assoc)
qed

end
