(* ===== verification/Config.thy ===== *)
theory Config
  imports Util Scanf "HOL-Library.Word"
begin

text \<open>
  The configuration: the table of options and what is done with it (\<open>src/libtclconf/tclconf.c\<close>), the
  options of the program, their default values, their checks and their listing (\<open>src/conf.c.in\<close>,
  \<open>init_globals\<close> of \<open>src/init.c\<close>, \<open>src/defaults.h.in\<close>). The configuration file is a Tcl script; what
  evaluating it assigns to the linked variables is an argument.
\<close>

section \<open>The table of options\<close>

datatype link_type = TCL_LINK_STRING | TCL_LINK_INT

record confoption_st =
  opt_name :: string
  opt_id :: nat
  opt_type :: link_type
  opt_p :: "byte list option"
  opt_v :: int

abbreviation str_opt :: "string \<Rightarrow> nat \<Rightarrow> confoption_st" where
  "str_opt n i \<equiv> \<lparr>opt_name = n, opt_id = i, opt_type = TCL_LINK_STRING, opt_p = None, opt_v = 0\<rparr>"

abbreviation int_opt :: "string \<Rightarrow> nat \<Rightarrow> int \<Rightarrow> confoption_st" where
  "int_opt n i v \<equiv> \<lparr>opt_name = n, opt_id = i, opt_type = TCL_LINK_INT, opt_p = None, opt_v = v\<rparr>"

type_synonym conf_table = "confoption_st list"

text \<open>The options; the numbers are those that \<open>conf.awk\<close> gives to the names \<open>CONFOPT_*\<close>.\<close>

definition confoptions :: conf_table where
  "confoptions = [
     str_opt ''user'' 1, str_opt ''group'' 2, str_opt ''home'' 3, int_opt ''umask'' 4 18,
     str_opt ''bbclientid'' 5, int_opt ''bbclientid_secs'' 6 300, str_opt ''spooldir'' 7,
     str_opt ''datadir'' 8, str_opt ''lockdir'' 9, str_opt ''tmpdir'' 10, str_opt ''qfilesdir'' 11,
     int_opt ''spoolfilemode'' 12 438, str_opt ''pidfile'' 13, int_opt ''pidfilemode'' 14 438,
     str_opt ''statusfile'' 15, int_opt ''statsperiod'' 16 60, str_opt ''wx14_signal_statusfile'' 17,
     str_opt ''wx14_signal_logfile'' 18, str_opt ''serverslistfile'' 19, str_opt ''emwinstatusfile'' 20,
     int_opt ''minconsecutivepackets'' 21 20, int_opt ''maxbadpacketcount'' 22 3,
     int_opt ''retrysleep'' 23 60, str_opt ''serverstatefile'' 24, str_opt ''serveractivefile'' 25,
     str_opt ''serverthreadsfile'' 26, int_opt ''connecttimeout'' 27 10, int_opt ''readtimeout'' 28 5,
     int_opt ''readtimeoutretry'' 29 2, int_opt ''writetimeout'' 30 1, int_opt ''writetimeoutretry'' 31 2,
     str_opt ''qrunner'' 32, int_opt ''qrunperiod'' 33 10, int_opt ''qrunreportperiod'' 34 100,
     str_opt ''prefilter'' 35, str_opt ''startscript'' 36, str_opt ''stopscript'' 37,
     str_opt ''scheduler'' 38, int_opt ''httpd_enable'' 39 1, str_opt ''httpd'' 40,
     int_opt ''bbserver_enable'' 41 0, str_opt ''bbserver'' 42, str_opt ''bbserver_mserverlist'' 43,
     str_opt ''bbserver_mserverlist_raw'' 44, str_opt ''bbserver_mserverpublist'' 45,
     str_opt ''bbserver_mserverpublist_raw'' 46, str_opt ''bbserver_mserverdirlist'' 47,
     str_opt ''bbserver_mserverdirlist_raw'' 48, str_opt ''bbserver_mserversatlist'' 49,
     str_opt ''bbserver_mserversatlist_raw'' 50, str_opt ''bbserver_bbserverlist'' 51,
     str_opt ''bbserver_bbserverlist_raw'' 52, str_opt ''bbserver_bbserversatlist'' 53,
     str_opt ''bbserver_bbserversatlist_raw'' 54, str_opt ''servername'' 55, str_opt ''serverport'' 56,
     int_opt ''maxnetclients'' 57 (-1), int_opt ''serverprotocol'' 58 3,
     int_opt ''client_id_wait_secs'' 59 5, int_opt ''min_compress_ratio'' 60 60,
     int_opt ''client_queue_dbcache_mb'' 61 1, int_opt ''client_queue_maxsize_soft'' 62 256,
     int_opt ''client_queue_maxsize_hard'' 63 512, int_opt ''client_queue_timeout_msecs'' 64 10000,
     int_opt ''serverstate_log_period'' 65 60, int_opt ''serverthreads_log_freq'' 66 100]"

fun find_confoption :: "conf_table \<Rightarrow> nat \<Rightarrow> confoption_st option" where
  "find_confoption [] i = None"
| "find_confoption (op # ops) i = (if opt_id op = i then Some op else find_confoption ops i)"

text \<open>
  What a script assigns to a linked variable. The library refuses to assign anything but a number to
  a variable linked to an \<open>int\<close>; then the script fails there.
\<close>

datatype setting = SetStr "byte list" | SetInt "32 word"

fun store :: "setting \<Rightarrow> confoption_st \<Rightarrow> confoption_st" where
  "store (SetStr s) op = (if opt_type op = TCL_LINK_STRING then op\<lparr>opt_p := Some s\<rparr> else op)"
| "store (SetInt v) op = (if opt_type op = TCL_LINK_INT then op\<lparr>opt_v := sint v\<rparr> else op)"

definition assign :: "string \<times> setting \<Rightarrow> conf_table \<Rightarrow> conf_table" where
  "assign a tab = map (\<lambda>op. if opt_name op = fst a then store (snd a) op else op) tab"

text \<open>
  The library: whether an interpreter can be made, and for a file the assignments of the script and
  its status (0 is \<open>TCL_OK\<close>). What \<open>stat\<close> says of a file.
\<close>

datatype stat_res = Stat_ok | Stat_enoent | Stat_error

record tcl_env =
  tcl_interp :: bool
  tcl_script :: "byte list \<Rightarrow> (string \<times> setting) list \<times> int"
  tcl_stat :: "byte list \<Rightarrow> stat_res"

definition parse_configfile :: "tcl_env \<Rightarrow> byte list \<Rightarrow> conf_table \<Rightarrow> int \<times> conf_table" where
  "parse_configfile e scriptname tab =
     (if \<not> tcl_interp e then (-1, tab)
      else case tcl_script e scriptname of (as, status) \<Rightarrow> (status, fold assign as tab))"

definition exists_configfile :: "tcl_env \<Rightarrow> byte list \<Rightarrow> int" where
  "exists_configfile e fname = (case tcl_stat e fname of Stat_ok \<Rightarrow> 0 | Stat_enoent \<Rightarrow> 1 | Stat_error \<Rightarrow> -1)"

definition parse_configfile2 :: "tcl_env \<Rightarrow> byte list \<Rightarrow> conf_table \<Rightarrow> int \<times> conf_table" where
  "parse_configfile2 e scriptname tab =
     (let status = exists_configfile e scriptname in
      if status = 1 then (0, tab) else if status = -1 then (-1, tab) else parse_configfile e scriptname tab)"

definition kill_confopt_table :: "conf_table \<Rightarrow> conf_table" where
  "kill_confopt_table tab = map (\<lambda>op. if opt_type op = TCL_LINK_STRING then op\<lparr>opt_p := None\<rparr> else op) tab"

section \<open>The variables\<close>

text \<open>
  The configurable members of \<open>struct npemwin_globals\<close>, by their names. A string is a null pointer, a
  literal, or a pointer to the string of an option, which the table owns. Besides \<open>int\<close> there are a
  \<open>time_t\<close> of 64 bits and members of the type \<open>mode_t\<close>.
\<close>

datatype strp = SNull | SLit "byte list" | STab nat

datatype gval = GStr strp | GInt int | GMode "32 word" | GTime "64 word"

type_synonym gvars = "string \<rightharpoonup> gval"

text \<open>The string behind a pointer; \<open>None\<close> if it has been freed.\<close>

definition strp_val :: "conf_table \<Rightarrow> strp \<Rightarrow> byte list option option" where
  "strp_val tab p =
     (case p of
        SNull \<Rightarrow> Some None
      | SLit s \<Rightarrow> Some (Some s)
      | STab i \<Rightarrow> (case find_confoption tab i of None \<Rightarrow> None | Some op \<Rightarrow> map_option Some (opt_p op)))"

text \<open>
  \<open>setoptval\<close> writes through a pointer to \<open>int\<close>, whatever the variable is: of a \<open>time_t\<close> it writes the
  lower half. \<open>None\<close> is the null pointer of an id that is not in the table.
\<close>

definition write_int :: "int \<Rightarrow> gval option \<Rightarrow> gval" where
  "write_int v old =
     (case old of
        Some (GTime w) \<Rightarrow> GTime (or (push_bit 32 (drop_bit 32 w)) (ucast (word_of_int v :: 32 word)))
      | Some (GMode m) \<Rightarrow> GMode (word_of_int v)
      | _ \<Rightarrow> GInt v)"

definition setoptval :: "conf_table \<Rightarrow> string \<times> nat \<Rightarrow> gvars \<Rightarrow> gvars option" where
  "setoptval tab call g =
     (case call of (var, i) \<Rightarrow>
        case find_confoption tab i of
          None \<Rightarrow> None
        | Some op \<Rightarrow>
            Some (if opt_type op = TCL_LINK_STRING
                  then (if opt_p op \<noteq> None then g(var \<mapsto> GStr (STab i)) else g)
                  else g(var \<mapsto> write_int (opt_v op) (g var))))"

text \<open>The default values; \<open>confdir\<close> and \<open>libexecdir\<close> are filled in when the program is built.\<close>

definition default_values :: "byte list \<Rightarrow> byte list \<Rightarrow> (string \<times> gval) list" where
  "default_values confdir libexecdir = [
     (''user'', GStr (SLit (cstr ''noaaport''))), (''group'', GStr (SLit (cstr ''noaaport''))),
     (''home'', GStr (SLit (cstr ''/var/npemwin''))), (''umask'', GMode 18),
     (''bbclientid'', GStr (SLit (cstr ''ByteBlast Client|NM-npemwin@noaaport.net|''))),
     (''bbclientid_secs'', GInt 300), (''spooldir'', GStr (SLit (cstr ''/var/npemwin/spool''))),
     (''datadir'', GStr (SLit (cstr ''data''))), (''lockdir'', GStr (SLit (cstr ''lock''))),
     (''tmpdir'', GStr (SLit (cstr ''tmp''))), (''qfilesdir'', GStr (SLit (cstr ''qfiles''))),
     (''spoolfile_mode'', GMode 438), (''pidfile'', GStr (SLit (cstr ''/var/run/npemwin/npemwind.pid''))),
     (''pidfile_mode'', GMode 438),
     (''statusfile'', GStr (SLit (cstr ''/var/npemwin/stats/npemwind.status''))),
     (''nbspstats_period'', GTime 60),
     (''wx14_signal_statusfile'', GStr (SLit (cstr ''/var/npemwin/stats/wx14signal.status''))),
     (''wx14_signal_logfile'', GStr (SLit (cstr ''/var/npemwin/stats/wx14signal.log''))),
     (''serverslistfile'', GStr (SLit (confdir @ cstr ''/servers.conf''))),
     (''emwinstatusfile'', GStr (SLit (cstr ''/var/npemwin/stats/servers.status''))),
     (''min_consecutive_packets'', GInt 20), (''max_bad_packet_count'', GInt 3), (''retrysleep'', GInt 60),
     (''serverstatefile'', GStr (SLit (cstr ''/var/npemwin/stats/npemwind.server''))),
     (''serveractivefile'', GStr (SLit (cstr ''/var/npemwin/stats/npemwind.active''))),
     (''serverthreadsfile'', GStr (SLit (cstr ''/var/npemwin/stats/npemwind.sthreads''))),
     (''connecttimeout_s'', GInt 10), (''readtimeout_s'', GInt 5), (''readtimeout_retry'', GInt 2),
     (''writetimeout_s'', GInt 1), (''writetimeout_retry'', GInt 2),
     (''qrunner'', GStr (SLit (libexecdir @ cstr ''/qrunner''))), (''qrunperiod'', GInt 10),
     (''qrunreportperiod'', GInt 100), (''prefilter'', GStr SNull),
     (''startscript'', GStr (SLit (libexecdir @ cstr ''/npemwind-start.tcl''))),
     (''stopscript'', GStr (SLit (libexecdir @ cstr ''/npemwind-stop.tcl''))),
     (''scheduler'', GStr (SLit (libexecdir @ cstr ''/scheduler''))), (''httpd_enable'', GInt 1),
     (''httpd'', GStr (SLit (libexecdir @ cstr ''/httpd''))), (''bbserver_enable'', GInt 0),
     (''bbserver'', GStr (SLit (libexecdir @ cstr ''/bbserver''))),
     (''mserverlist'', GStr (SLit (cstr ''/var/npemwin/stats/mserverlist.txt''))),
     (''mserverlist_raw'', GStr (SLit (cstr ''/var/npemwin/stats/mserverlist.raw''))),
     (''mserverpublist'', GStr (SLit (cstr ''/var/npemwin/stats/mserverpublist.txt''))),
     (''mserverpublist_raw'', GStr (SLit (cstr ''/var/npemwin/stats/mserverpublist.raw''))),
     (''mserverdirlist'', GStr (SLit (cstr ''/var/npemwin/stats/mserverdirlist.txt''))),
     (''mserverdirlist_raw'', GStr (SLit (cstr ''/var/npemwin/stats/mserverdirlist.raw''))),
     (''mserversatlist'', GStr (SLit (cstr ''/var/npemwin/stats/mserversatlist.txt''))),
     (''mserversatlist_raw'', GStr (SLit (cstr ''/var/npemwin/stats/mserversatlist.raw''))),
     (''bbserverlist'', GStr (SLit (cstr ''/var/npemwin/stats/bbserverlist.txt''))),
     (''bbserverlist_raw'', GStr (SLit (cstr ''/var/npemwin/stats/bbserverlist.raw''))),
     (''bbserversatlist'', GStr (SLit (cstr ''/var/npemwin/stats/bbserversatlist.txt''))),
     (''bbserversatlist_raw'', GStr (SLit (cstr ''/var/npemwin/stats/bbserversatlist.raw''))),
     (''servername'', GStr SNull), (''serverport'', GStr (SLit (cstr ''2211''))),
     (''maxnetclients'', GInt (-1)), (''serverprotocol'', GInt 3), (''client_id_wait_secs'', GInt 5),
     (''min_compress_ratio'', GInt 60), (''client_queue_dbcache_mb'', GInt 1),
     (''client_queue_maxsize_soft'', GInt 256), (''client_queue_maxsize_hard'', GInt 512),
     (''client_queue_timeout_msecs'', GInt 10000), (''serverstate_log_period'', GInt 60),
     (''serverthreads_log_freq'', GInt 100)]"

definition init_globals :: "byte list \<Rightarrow> byte list \<Rightarrow> gvars" where
  "init_globals confdir libexecdir = map_of (default_values confdir libexecdir)"

text \<open>The calls of \<open>setoptval\<close> in \<open>configure\<close>: the variable and the number of the option.\<close>

definition setoptval_calls :: "(string \<times> nat) list" where
  "setoptval_calls = [
     (''user'', 1), (''group'', 2), (''home'', 3), (''umask'', 4), (''bbclientid'', 5),
     (''bbclientid_secs'', 6), (''spooldir'', 7), (''datadir'', 8), (''lockdir'', 9), (''tmpdir'', 10),
     (''qfilesdir'', 11), (''spoolfile_mode'', 12), (''pidfile'', 13), (''pidfile_mode'', 14),
     (''statusfile'', 15), (''nbspstats_period'', 16), (''wx14_signal_statusfile'', 17),
     (''wx14_signal_logfile'', 18), (''serverslistfile'', 19), (''emwinstatusfile'', 20),
     (''min_consecutive_packets'', 21), (''max_bad_packet_count'', 22), (''retrysleep'', 23),
     (''serverstatefile'', 24), (''serveractivefile'', 25), (''serverthreadsfile'', 26),
     (''connecttimeout_s'', 27), (''readtimeout_s'', 28), (''readtimeout_retry'', 29),
     (''writetimeout_s'', 30), (''writetimeout_retry'', 31), (''qrunner'', 32), (''qrunperiod'', 33),
     (''qrunreportperiod'', 34), (''prefilter'', 35), (''startscript'', 36), (''stopscript'', 37),
     (''scheduler'', 38), (''httpd_enable'', 39), (''httpd'', 40), (''bbserver_enable'', 41),
     (''bbserver'', 42), (''mserverlist'', 43), (''mserverlist_raw'', 44), (''mserverpublist'', 45),
     (''mserverpublist_raw'', 46), (''mserverdirlist'', 47), (''mserverdirlist_raw'', 48),
     (''mserversatlist'', 49), (''mserversatlist_raw'', 50), (''bbserverlist'', 51),
     (''bbserverlist_raw'', 52), (''bbserversatlist'', 53), (''bbserversatlist_raw'', 54),
     (''servername'', 55), (''serverport'', 56), (''maxnetclients'', 57), (''serverprotocol'', 58),
     (''client_id_wait_secs'', 59), (''min_compress_ratio'', 60), (''client_queue_dbcache_mb'', 61),
     (''client_queue_maxsize_soft'', 62), (''client_queue_maxsize_hard'', 63),
     (''client_queue_timeout_msecs'', 64), (''serverstate_log_period'', 65),
     (''serverthreads_log_freq'', 66)]"

fun setoptvals :: "conf_table \<Rightarrow> (string \<times> nat) list \<Rightarrow> gvars \<Rightarrow> gvars option" where
  "setoptvals tab [] g = Some g"
| "setoptvals tab (c # cs) g = Option.bind (setoptval tab c g) (setoptvals tab cs)"

definition configure ::
  "tcl_env \<Rightarrow> byte list option \<Rightarrow> byte list \<Rightarrow> conf_table \<times> gvars \<Rightarrow> (int \<times> conf_table \<times> gvars) option" where
  "configure e configfile defconfigfile c =
     (case (case configfile of
              Some file1 \<Rightarrow> parse_configfile e file1 (fst c)
            | None \<Rightarrow> parse_configfile2 e defconfigfile (fst c)) of
        (status, tab) \<Rightarrow>
          if status \<noteq> 0 then Some (status, tab, snd c)
          else map_option (\<lambda>g. (0, tab, g)) (setoptvals tab setoptval_calls (snd c)))"

definition release_confoptions :: "conf_table \<Rightarrow> conf_table" where
  "release_confoptions tab = kill_confopt_table tab"

section \<open>Checks\<close>

text \<open>The three macros, with the variable, the bounds and the name for the message.\<close>

datatype vcheck = CheckStr string string | CheckLow string int string | CheckRange string int int string

definition int_val :: "gval option \<Rightarrow> int" where
  "int_val v = (case v of Some (GInt i) \<Rightarrow> i | Some (GTime w) \<Rightarrow> sint w | Some (GMode m) \<Rightarrow> uint m | _ \<Rightarrow> 0)"

definition str_val :: "conf_table \<Rightarrow> gval option \<Rightarrow> byte list option" where
  "str_val tab v = (case v of Some (GStr p) \<Rightarrow> (case strp_val tab p of Some s \<Rightarrow> s | None \<Rightarrow> None) | _ \<Rightarrow> None)"

fun vfails :: "conf_table \<Rightarrow> gvars \<Rightarrow> vcheck \<Rightarrow> string option" where
  "vfails tab g (CheckStr f n) = (if valid_str (str_val tab (g f)) then None else Some n)"
| "vfails tab g (CheckLow f a n) = (if int_val (g f) < a then Some n else None)"
| "vfails tab g (CheckRange f a b n) = (if int_val (g f) < a \<or> int_val (g f) > b then Some n else None)"

definition validations :: "vcheck list" where
  "validations = [
     CheckLow ''bbclientid_secs'' 0 ''bbclientid_secs'', CheckStr ''spooldir'' ''spooldir'',
     CheckStr ''datadir'' ''datadir'', CheckStr ''lockdir'' ''lockdir'', CheckStr ''tmpdir'' ''tmpdir'',
     CheckStr ''qfilesdir'' ''qfilesdir'', CheckStr ''pidfile'' ''pidfile'',
     CheckStr ''statusfile'' ''statusfile'', CheckLow ''nbspstats_period'' 0 ''statsperiod'',
     CheckStr ''wx14_signal_statusfile'' ''wx14_signal_statusfile'',
     CheckStr ''wx14_signal_logfile'' ''wx14_signal_logfile'',
     CheckStr ''serverslistfile'' ''serverslistfile'', CheckStr ''emwinstatusfile'' ''emwinstatusfile'',
     CheckLow ''min_consecutive_packets'' 0 ''minconsecutivepackets'',
     CheckLow ''max_bad_packet_count'' 0 ''maxbadpacketcount'', CheckLow ''retrysleep'' 0 ''retrysleep'',
     CheckStr ''serverstatefile'' ''serverstatefile'', CheckStr ''serveractivefile'' ''serveractivefile'',
     CheckStr ''serverthreadsfile'' ''serverthreadsfile'',
     CheckLow ''connecttimeout_s'' 0 ''connecttimeout'', CheckLow ''readtimeout_s'' 0 ''readtimeout'',
     CheckLow ''readtimeout_retry'' 0 ''readtimeoutretry'', CheckLow ''writetimeout_s'' 0 ''writetimeout'',
     CheckLow ''writetimeout_retry'' 0 ''writetimeoutretry'', CheckStr ''qrunner'' ''qrunner'',
     CheckLow ''qrunperiod'' 0 ''qrunperiod'', CheckLow ''qrunreportperiod'' 0 ''qrunreportperiod'',
     CheckStr ''scheduler'' ''scheduler'', CheckRange ''httpd_enable'' 0 1 ''httpd_enable'',
     CheckStr ''httpd'' ''httpd'', CheckRange ''bbserver_enable'' 0 1 ''bbserver_enable'',
     CheckStr ''bbserver'' ''bbserver'', CheckStr ''mserverlist'' ''bbserver_mserverlist'',
     CheckStr ''mserverlist_raw'' ''bbserver_mserverlist_raw'',
     CheckStr ''mserverpublist'' ''bbserver_mserverpublist'',
     CheckStr ''mserverpublist_raw'' ''bbserver_mserverpublist_raw'',
     CheckStr ''mserverdirlist'' ''bbserver_mserverdirlist'',
     CheckStr ''mserverdirlist_raw'' ''bbserver_mserverdirlist_raw'',
     CheckStr ''mserversatlist'' ''bbserver_mserversatlist'',
     CheckStr ''mserversatlist_raw'' ''bbserver_mserversatlist_raw'',
     CheckStr ''bbserverlist'' ''bbserver_bbserverlist'',
     CheckStr ''bbserverlist_raw'' ''bbserver_bbserverlist_raw'',
     CheckStr ''bbserversatlist'' ''bbserver_bbserversatlist'',
     CheckStr ''bbserversatlist_raw'' ''bbserver_bbserversatlist_raw'',
     CheckStr ''serverport'' ''serverport'', CheckLow ''maxnetclients'' (-1) ''maxnetclients'',
     CheckLow ''serverprotocol'' 0 ''serverprotocol'',
     CheckLow ''client_id_wait_secs'' 0 ''client_id_wait_secs'',
     CheckRange ''min_compress_ratio'' 1 100 ''min_compress_ratio'',
     CheckLow ''client_queue_dbcache_mb'' 0 ''client_queue_dbcache_mb'',
     CheckLow ''client_queue_maxsize_soft'' 0 ''client_queue_maxsize_soft'',
     CheckLow ''client_queue_maxsize_hard'' 0 ''client_queue_maxsize_hard'',
     CheckLow ''client_queue_timeout_msecs'' 0 ''client_queue_timeout_msecs'',
     CheckLow ''serverstate_log_period'' 0 ''serverstate_log_period'',
     CheckLow ''serverthreads_log_freq'' 0 ''serverthreadslog_freq'']"

fun first_failure :: "conf_table \<Rightarrow> gvars \<Rightarrow> vcheck list \<Rightarrow> string option" where
  "first_failure tab g [] = None"
| "first_failure tab g (v # vs) = (case vfails tab g v of Some n \<Rightarrow> Some n | None \<Rightarrow> first_failure tab g vs)"

definition validate_configuration :: "conf_table \<times> gvars \<Rightarrow> int" where
  "validate_configuration c = (if first_failure (fst c) (snd c) validations \<noteq> None then 1 else 0)"

section \<open>Listing\<close>

fun oct :: "nat \<Rightarrow> byte list" where
  "oct n = (if n < 8 then [of_nat (48 + n)] else oct (n div 8) @ [of_nat (48 + n mod 8)])"

declare oct.simps [simp del]

datatype pfmt = PStr | POct | PDec | PUmax

definition listing :: "(string \<times> string \<times> pfmt) list" where
  "listing = [
     (''user'', ''user'', PStr), (''group'', ''group'', PStr), (''home'', ''home'', PStr),
     (''umask'', ''umask'', POct), (''bbclientid'', ''bbclientid'', PStr),
     (''bbclientsid_secs'', ''bbclientid_secs'', PDec), (''spooldir'', ''spooldir'', PStr),
     (''datadir'', ''datadir'', PStr), (''lockdir'', ''lockdir'', PStr), (''tmpdir'', ''tmpdir'', PStr),
     (''qfilesdir'', ''qfilesdir'', PStr), (''spoolfilemode'', ''spoolfile_mode'', POct),
     (''pidfile'', ''pidfile'', PStr), (''pidfilemode'', ''pidfile_mode'', POct),
     (''statusfile'', ''statusfile'', PStr), (''statsperiod'', ''nbspstats_period'', PUmax),
     (''wx14_signal_statusfile'', ''wx14_signal_statusfile'', PStr),
     (''wx14_signal_logfile'', ''wx14_signal_logfile'', PStr),
     (''serverslistfile'', ''serverslistfile'', PStr), (''emwinstatusfile'', ''emwinstatusfile'', PStr),
     (''minconsecutivepackets'', ''min_consecutive_packets'', PDec),
     (''maxbadpacketcount'', ''max_bad_packet_count'', PDec), (''retrysleep'', ''retrysleep'', PDec),
     (''serverstatefile'', ''serverstatefile'', PStr), (''serveractivefile'', ''serveractivefile'', PStr),
     (''serverthreads'', ''serverthreadsfile'', PStr), (''connecttimeout'', ''connecttimeout_s'', PDec),
     (''readtimeout'', ''readtimeout_s'', PDec), (''readtimeoutretry'', ''readtimeout_retry'', PDec),
     (''writetimeout'', ''writetimeout_s'', PDec), (''writetimeoutretry'', ''writetimeout_retry'', PDec),
     (''qrunner'', ''qrunner'', PStr), (''qrunperiod'', ''qrunperiod'', PDec),
     (''qrunreportperiod'', ''qrunreportperiod'', PDec), (''prefilter'', ''prefilter'', PStr),
     (''startscript'', ''startscript'', PStr), (''stopscript'', ''stopscript'', PStr),
     (''scheduler'', ''scheduler'', PStr), (''httpd_enable'', ''httpd_enable'', PDec),
     (''httpd'', ''httpd'', PStr), (''bbserver_enable'', ''bbserver_enable'', PDec),
     (''bbserver'', ''bbserver'', PStr), (''bbserver_mserverlist'', ''mserverlist'', PStr),
     (''bbserver_mserverlist_raw'', ''mserverlist_raw'', PStr),
     (''bbserver_mserverpublist'', ''mserverpublist'', PStr),
     (''bbserver_mserverpublist_raw'', ''mserverpublist_raw'', PStr),
     (''bbserver_mserverdirlist'', ''mserverdirlist'', PStr),
     (''bbserver_mserverdirlist_raw'', ''mserverdirlist_raw'', PStr),
     (''bbserver_mserversatlist'', ''mserversatlist'', PStr),
     (''bbserver_mserversatlist_raw'', ''mserversatlist_raw'', PStr),
     (''bbserver_bbserverlist'', ''bbserverlist'', PStr),
     (''bbserver_bbserverlist_raw'', ''bbserverlist_raw'', PStr),
     (''bbserver_bbserversatlist'', ''bbserversatlist'', PStr),
     (''bbserver_bbserversatlist_raw'', ''bbserversatlist_raw'', PStr),
     (''servername'', ''servername'', PStr), (''serverport'', ''serverport'', PStr),
     (''maxnetclients'', ''maxnetclients'', PDec), (''serverprotocol'', ''serverprotocol'', PDec),
     (''client_id_wait_secs'', ''client_id_wait_secs'', PDec),
     (''min_compress_ratio'', ''min_compress_ratio'', PDec),
     (''client_queue_dbcache_mb'', ''client_queue_dbcache_mb'', PDec),
     (''client_queue_maxsize_soft'', ''client_queue_maxsize_soft'', PDec),
     (''client_queue_maxsize_hard'', ''client_queue_maxsize_hard'', PDec),
     (''client_queue_timeout_msecs'', ''client_queue_timeout_msecs'', PDec),
     (''serverstate_log_period'', ''serverstate_log_period'', PDec),
     (''serverthreads_log_freq'', ''serverthreads_log_freq'', PDec)]"

definition fprintf_str :: "string \<Rightarrow> byte list option \<Rightarrow> byte list" where
  "fprintf_str name value =
     cstr name @ [32] @ (case value of None \<Rightarrow> cstr ''NULL'' | Some s \<Rightarrow> if s = [] then [34, 34] else s) @ [10]"

fun print_line :: "conf_table \<Rightarrow> gvars \<Rightarrow> string \<times> string \<times> pfmt \<Rightarrow> byte list" where
  "print_line tab g (l, f, PStr) = fprintf_str l (str_val tab (g f))"
| "print_line tab g (l, f, POct) = cstr l @ [32] @ oct (nat (int_val (g f))) @ [10]"
| "print_line tab g (l, f, PDec) = cstr l @ [32] @ printf_d (int_val (g f)) @ [10]"
| "print_line tab g (l, f, PUmax) = cstr l @ [32] @ dec (nat (int_val (g f) mod 2 ^ 64)) @ [10]"

definition print_confoptions :: "conf_table \<times> gvars \<Rightarrow> byte list" where
  "print_confoptions c = concat (map (print_line (fst c) (snd c)) listing)"

section \<open>The table\<close>

text \<open>What a script cannot change: names, numbers and types.\<close>

definition opt_key :: "confoption_st \<Rightarrow> string \<times> nat \<times> link_type" where
  "opt_key op = (opt_name op, opt_id op, opt_type op)"

definition conf_shape :: "conf_table \<Rightarrow> bool" where
  "conf_shape tab \<longleftrightarrow> map opt_key tab = map opt_key confoptions"

lemma option_numbers: "map opt_id confoptions = [1..<67]" "map snd setoptval_calls = [1..<67]"
  by (simp_all add: confoptions_def setoptval_calls_def upt_conv_Cons del: One_nat_def upt_Suc)

lemma option_variables: "distinct (map fst setoptval_calls)"
  by (simp add: setoptval_calls_def)

lemma length_confoptions: "length confoptions = 66"
  using arg_cong [OF option_numbers(1), of length] by simp

lemma find_confoption_nth:
  "distinct (map opt_id tab) \<Longrightarrow> k < length tab \<Longrightarrow> find_confoption tab (opt_id (tab ! k)) = Some (tab ! k)"
  by (induction tab arbitrary: k) (auto simp: nth_Cons split: nat.splits)

lemma conf_shape_ids:
  assumes "conf_shape tab"
  shows "map opt_id tab = [1..<67]" "length tab = 66"
proof -
  have "map (fst \<circ> snd \<circ> opt_key) tab = map (fst \<circ> snd \<circ> opt_key) confoptions"
    using assms unfolding conf_shape_def by (metis list.map_comp)
  then show ids: "map opt_id tab = [1..<67]" by (simp add: opt_key_def comp_def option_numbers)
  from arg_cong [OF ids, of length] show "length tab = 66" by simp
qed

lemma conf_shape_find:
  assumes "conf_shape tab" "1 \<le> i" "i < 67"
  shows "find_confoption tab i = Some (tab ! (i - 1))" "opt_key (tab ! (i - 1)) = opt_key (confoptions ! (i - 1))"
proof -
  note ids = conf_shape_ids [OF assms(1)]
  have k: "i - 1 < length tab" using assms(3) ids(2) by simp
  have "opt_id (tab ! (i - 1)) = i"
    using nth_map [OF k, of opt_id] assms(2,3) by (simp add: ids(1))
  then show "find_confoption tab i = Some (tab ! (i - 1))"
    using find_confoption_nth [OF _ k] by (simp add: ids(1))
  have "map opt_key tab ! (i - 1) = map opt_key confoptions ! (i - 1)"
    using assms(1) by (simp add: conf_shape_def)
  then show "opt_key (tab ! (i - 1)) = opt_key (confoptions ! (i - 1))"
    using k by (simp add: ids(2) length_confoptions)
qed

text \<open>A script works on each option alone.\<close>

definition assign1 :: "string \<times> setting \<Rightarrow> confoption_st \<Rightarrow> confoption_st" where
  "assign1 a op = (if opt_name op = fst a then store (snd a) op else op)"

lemma store_key: "opt_key (store s op) = opt_key op"
  by (cases s) (simp_all add: opt_key_def)

lemma assign1_key: "opt_key (assign1 a op) = opt_key op"
  by (simp add: assign1_def store_key)

lemma fold_assign: "fold assign as tab = map (fold assign1 as) tab"
  by (induction as arbitrary: tab) (simp_all add: assign_def assign1_def comp_def)

lemma fold_assign1_key: "opt_key (fold assign1 as op) = opt_key op"
  by (induction as arbitrary: op) (simp_all add: assign1_key)

lemma conf_shape_fold: "conf_shape tab \<Longrightarrow> conf_shape (fold assign as tab)"
  by (simp add: conf_shape_def fold_assign fold_assign1_key comp_def)

lemma conf_shape_kill: "conf_shape tab \<Longrightarrow> conf_shape (kill_confopt_table tab)"
proof -
  have "opt_key (if opt_type op = TCL_LINK_STRING then op\<lparr>opt_p := None\<rparr> else op) = opt_key op" for op
    by (simp add: opt_key_def)
  then show "conf_shape tab \<Longrightarrow> conf_shape (kill_confopt_table tab)"
    by (simp add: conf_shape_def kill_confopt_table_def comp_def)
qed

text \<open>The last assignment counts.\<close>

fun last_str :: "string \<Rightarrow> (string \<times> setting) list \<Rightarrow> byte list option \<Rightarrow> byte list option" where
  "last_str n [] old = old"
| "last_str n ((m, s) # as) old =
     last_str n as (if m = n then (case s of SetStr x \<Rightarrow> Some x | SetInt _ \<Rightarrow> old) else old)"

fun last_int :: "string \<Rightarrow> (string \<times> setting) list \<Rightarrow> int \<Rightarrow> int" where
  "last_int n [] old = old"
| "last_int n ((m, s) # as) old = last_int n as (if m = n then (case s of SetInt x \<Rightarrow> sint x | SetStr _ \<Rightarrow> old) else old)"

lemma fold_assign1_str:
  "opt_type op = TCL_LINK_STRING \<Longrightarrow> opt_p (fold assign1 as op) = last_str (opt_name op) as (opt_p op)"
proof (induction as arbitrary: op)
  case (Cons a as)
  have "opt_type (assign1 a op) = TCL_LINK_STRING" "opt_name (assign1 a op) = opt_name op"
    using assign1_key [of a op] Cons.prems by (simp_all add: opt_key_def)
  with Cons show ?case by (cases a; cases "snd a") (auto simp: assign1_def)
qed simp

lemma fold_assign1_int:
  "opt_type op = TCL_LINK_INT \<Longrightarrow> opt_v (fold assign1 as op) = last_int (opt_name op) as (opt_v op)"
proof (induction as arbitrary: op)
  case (Cons a as)
  have "opt_type (assign1 a op) = TCL_LINK_INT" "opt_name (assign1 a op) = opt_name op"
    using assign1_key [of a op] Cons.prems by (simp_all add: opt_key_def)
  with Cons show ?case by (cases a; cases "snd a") (auto simp: assign1_def)
qed simp

section \<open>From the file to the variables\<close>

definition option_effect :: "confoption_st \<Rightarrow> nat \<Rightarrow> gval option \<Rightarrow> gval option" where
  "option_effect op i old =
     (if opt_type op = TCL_LINK_STRING then (if opt_p op \<noteq> None then Some (GStr (STab i)) else old)
      else Some (write_int (opt_v op) old))"

lemma setoptval_eq: "find_confoption tab i = Some op \<Longrightarrow> setoptval tab (f, i) g = Some (g(f := option_effect op i (g f)))"
  by (auto simp: setoptval_def option_effect_def)

lemma setoptvals_eq:
  assumes "\<forall>(f, i) \<in> set cs. find_confoption tab i \<noteq> None" "distinct (map fst cs)"
  shows "\<exists>g'. setoptvals tab cs g = Some g'
    \<and> (\<forall>f i. (f, i) \<in> set cs \<longrightarrow> g' f = option_effect (the (find_confoption tab i)) i (g f))
    \<and> (\<forall>f. f \<notin> fst ` set cs \<longrightarrow> g' f = g f)"
  using assms
proof (induction cs arbitrary: g)
  case (Cons c cs)
  obtain f i where c: "c = (f, i)" by (cases c)
  then obtain op where op: "find_confoption tab i = Some op" using Cons.prems(1) by auto
  define g1 where "g1 = g(f := option_effect op i (g f))"
  have nf: "f \<notin> fst ` set cs" "distinct (map fst cs)" "\<forall>(f, i) \<in> set cs. find_confoption tab i \<noteq> None"
    using Cons.prems c by auto
  from Cons.IH [OF nf(3,2), of g1] obtain g' where g': "setoptvals tab cs g1 = Some g'"
    "\<And>f i. (f, i) \<in> set cs \<Longrightarrow> g' f = option_effect (the (find_confoption tab i)) i (g1 f)"
    "\<And>f. f \<notin> fst ` set cs \<Longrightarrow> g' f = g1 f"
    by blast
  have same: "g1 f' = g f'" if "f' \<noteq> f" for f' using that by (simp add: g1_def)
  have ne: "f' \<noteq> f" if "(f', j) \<in> set cs" for f' j using nf(1) that by force
  have g1f: "g1 f = option_effect op i (g f)" by (simp add: g1_def)
  have s: "setoptvals tab (c # cs) g = Some g'" using g'(1) op by (simp add: c setoptval_eq g1_def)
  moreover have "g' f' = option_effect (the (find_confoption tab j)) j (g f')" if "(f', j) \<in> set (c # cs)" for f' j
  proof (cases "(f', j) \<in> set cs")
    case True
    then show ?thesis using g'(2) [OF True] same [OF ne [OF True]] by simp
  next
    case False
    with that c have "f' = f" "j = i" by auto
    then show ?thesis using g'(3) [OF nf(1)] g1f op by simp
  qed
  moreover have "g' f' = g f'" if "f' \<notin> fst ` set (c # cs)" for f'
    using that c g'(3) same by simp
  ultimately show ?case by blast
qed simp

lemma call_number: "(f, i) \<in> set setoptval_calls \<Longrightarrow> 1 \<le> i \<and> i < 67"
proof -
  assume "(f, i) \<in> set setoptval_calls"
  then have "i \<in> set (map snd setoptval_calls)" by force
  then show "1 \<le> i \<and> i < 67" by (simp only: option_numbers) simp
qed

lemma calls_found:
  assumes "conf_shape tab" shows "\<forall>(f, i) \<in> set setoptval_calls. find_confoption tab i \<noteq> None"
  using conf_shape_find(1) [OF assms] call_number by fastforce

text \<open>Configuring is always defined: every number is in the table.\<close>

lemma configure_eq:
  assumes "(case cf of Some file1 \<Rightarrow> parse_configfile e file1 tab | None \<Rightarrow> parse_configfile2 e dcf tab) = (st, tab1)"
  shows "configure e cf dcf (tab, g) =
    (if st \<noteq> 0 then Some (st, tab1, g) else map_option (\<lambda>g. (0, tab1, g)) (setoptvals tab1 setoptval_calls g))"
  using assms by (simp only: configure_def fst_conv snd_conv prod.case)

lemma configure_defined:
  assumes "conf_shape tab"
  shows "\<exists>st tab' g'. configure e cf dcf (tab, g) = Some (st, tab', g') \<and> conf_shape tab'"
proof -
  obtain st tab1 where p: "(case cf of Some file1 \<Rightarrow> parse_configfile e file1 tab | None \<Rightarrow> parse_configfile2 e dcf tab) = (st, tab1)"
    by fastforce
  have sh: "conf_shape tab1"
    using p assms
    by (auto simp: parse_configfile_def parse_configfile2_def Let_def conf_shape_fold split: option.splits if_splits prod.splits)
  obtain g' where "setoptvals tab1 setoptval_calls g = Some g'"
    using setoptvals_eq [OF calls_found [OF sh] option_variables, of g] by blast
  then show ?thesis using sh by (cases "st = 0") (simp_all add: configure_eq [OF p])
qed

lemma conf_shape_init: "conf_shape confoptions"
  by (simp add: conf_shape_def)

lemma nth_fold_assign:
  "i < length tab \<Longrightarrow> fold assign as tab ! i = fold assign1 as (tab ! i)"
  by (simp add: fold_assign)

lemma option_string_initial: "\<forall>op \<in> set confoptions. opt_p op = None"
  by (simp add: confoptions_def)

lemma default_names: "map fst (default_values cd ld) = map fst setoptval_calls"
  by (simp add: default_values_def setoptval_calls_def)

lemma option_defaults:
  "list_all2 (\<lambda>op d. opt_type op = TCL_LINK_STRING \<or> write_int (opt_v op) (Some (snd d)) = snd d)
     confoptions (default_values cd ld)"
  by (simp add: default_values_def confoptions_def write_int_def)

text \<open>
  The options, the defaults and the calls are in the same order, so the value of a variable is found
  at the place of its option.
\<close>

lemma length_defaults: "length (default_values cd ld) = 66" "length setoptval_calls = 66"
  using arg_cong [OF default_names, of length cd ld] arg_cong [OF option_numbers(2), of length] by simp_all

lemma init_globals_nth:
  assumes "k < 66"
  shows "init_globals cd ld (fst (setoptval_calls ! k)) = Some (snd (default_values cd ld ! k))"
proof -
  have k: "k < length (default_values cd ld)" "k < length setoptval_calls"
    using assms by (simp_all add: length_defaults)
  have "fst (default_values cd ld ! k) = fst (setoptval_calls ! k)"
    using arg_cong [OF default_names, of "\<lambda>xs. xs ! k" cd ld] k by simp
  then have "(fst (setoptval_calls ! k), snd (default_values cd ld ! k)) \<in> set (default_values cd ld)"
    using nth_mem [OF k(1)] by (metis prod.collapse)
  moreover have "distinct (map fst (default_values cd ld))"
    unfolding default_names by (rule option_variables)
  ultimately show ?thesis unfolding init_globals_def by (rule map_of_is_SomeI [rotated])
qed

lemma call_nth:
  assumes "(f, i) \<in> set setoptval_calls"
  shows "1 \<le> i" "i < 67" "setoptval_calls ! (i - 1) = (f, i)"
proof -
  show b: "1 \<le> i" "i < 67" using call_number [OF assms] by simp_all
  obtain k where k: "k < length setoptval_calls" "setoptval_calls ! k = (f, i)"
    using assms by (auto simp: in_set_conv_nth)
  have "map snd setoptval_calls ! k = [1..<67] ! k" by (simp only: option_numbers)
  with k have "i = Suc k" by (simp add: length_defaults)
  with k show "setoptval_calls ! (i - 1) = (f, i)" by simp
qed

lemma init_int_option:
  assumes "(f, i) \<in> set setoptval_calls" "opt_type (confoptions ! (i - 1)) = TCL_LINK_INT"
  shows "init_globals cd ld f = Some (write_int (opt_v (confoptions ! (i - 1))) (init_globals cd ld f))"
proof -
  note c = call_nth [OF assms(1)]
  then have k: "i - 1 < 66" by simp
  have "init_globals cd ld f = Some (snd (default_values cd ld ! (i - 1)))"
    using init_globals_nth [OF k, of cd ld] c(3) by simp
  moreover have "write_int (opt_v (confoptions ! (i - 1))) (Some (snd (default_values cd ld ! (i - 1))))
      = snd (default_values cd ld ! (i - 1))"
    using list_all2_nthD [OF option_defaults, of "i - 1" cd ld] k assms(2) by (simp add: length_confoptions)
  ultimately show ?thesis by simp
qed

section \<open>Validation\<close>

primrec vname :: "vcheck \<Rightarrow> string" where
  "vname (CheckStr f n) = f" | "vname (CheckLow f a n) = f" | "vname (CheckRange f a b n) = f"

text \<open>The checks go through the variables in the order of the defaults.\<close>

fun checked :: "(string \<times> gval) list \<Rightarrow> vcheck list \<Rightarrow> bool" where
  "checked ds [] = True"
| "checked [] (v # vs) = False"
| "checked ((f, d) # ds) (v # vs) =
     (if vname v = f then vfails [] (\<lambda>_. Some d) v = None \<and> checked ds vs else checked ds (v # vs))"

definition no_table :: "gval option \<Rightarrow> bool" where
  "no_table d = (case d of Some (GStr (STab i)) \<Rightarrow> False | _ \<Rightarrow> True)"

lemma vfails_local: "no_table (g (vname v)) \<Longrightarrow> vfails tab g v = vfails [] (\<lambda>_. g (vname v)) v"
  by (cases v) (auto simp: str_val_def strp_val_def no_table_def split: option.splits gval.splits strp.splits)

lemma checked_vfails:
  "checked ds vs \<Longrightarrow> distinct (map fst ds) \<Longrightarrow> v \<in> set vs \<Longrightarrow> vfails [] (\<lambda>_. map_of ds (vname v)) v = None"
proof (induction ds vs rule: checked.induct)
  case (3 f d ds v' vs)
  have ne: "vname v \<noteq> f" if "checked ds vs'" "v \<in> set vs'" for vs'
  proof -
    have "v \<in> set vs' \<Longrightarrow> vname v \<in> fst ` set ds" using that(1)
      by (induction ds vs' rule: checked.induct) (auto split: if_splits)
    with that 3 show ?thesis by auto
  qed
  show ?case
  proof (cases "vname v' = f")
    case True
    with 3 ne [of vs] show ?thesis by auto
  next
    case False
    with 3 ne [of "v' # vs"] show ?thesis by auto
  qed
qed simp_all

lemma vfails_None:
  "vfails tab g (CheckStr f n) = None \<longleftrightarrow> (\<exists>s. str_val tab (g f) = Some s \<and> s \<noteq> [])"
  "vfails tab g (CheckLow f a n) = None \<longleftrightarrow> a \<le> int_val (g f)"
  "vfails tab g (CheckRange f a b n) = None \<longleftrightarrow> a \<le> int_val (g f) \<and> int_val (g f) \<le> b"
  by (auto simp: valid_str_def split: option.splits)

lemma first_failure_None: "first_failure tab g vs = None \<longleftrightarrow> (\<forall>v \<in> set vs. vfails tab g v = None)"
  by (induction vs) (auto split: option.splits)

lemma validate_iff: "validate_configuration (tab, g) = 0 \<longleftrightarrow> (\<forall>v \<in> set validations. vfails tab g v = None)"
  by (simp add: validate_configuration_def first_failure_None)

lemma cstr_nonempty [simp]: "cstr (c # s) \<noteq> []"
  by (simp add: cstr_def)

lemma defaults_checked: "checked (default_values cd ld) validations"
  unfolding validations_def default_values_def
  by (simp add: valid_str_def str_val_def strp_val_def int_val_def)

lemma defaults_no_table: "no_table (init_globals cd ld f)"
proof -
  have "list_all (\<lambda>d. no_table (Some (snd d))) (default_values cd ld)"
    by (simp add: default_values_def no_table_def)
  then show ?thesis
    by (cases "init_globals cd ld f") (auto simp: init_globals_def list_all_iff no_table_def dest!: map_of_SomeD)
qed

lemma find_after_script:
  assumes "(f, i) \<in> set setoptval_calls"
  shows "find_confoption (fold assign as confoptions) i = Some (fold assign1 as (confoptions ! (i - 1)))"
proof -
  note c = call_nth [OF assms]
  then have "i - 1 < length confoptions" by (simp add: length_confoptions)
  with conf_shape_find(1) [OF conf_shape_fold [OF conf_shape_init] c(1,2)] show ?thesis
    by (simp add: nth_fold_assign)
qed

text \<open>What a script that succeeds leaves in the variables.\<close>

lemma configure_script:
  assumes "tcl_interp e" "tcl_script e scr = (as, 0)"
  obtains g' where
    "configure e (Some scr) dcf (confoptions, g) = Some (0, fold assign as confoptions, g')"
    "\<And>f i. (f, i) \<in> set setoptval_calls \<Longrightarrow> g' f = option_effect (fold assign1 as (confoptions ! (i - 1))) i (g f)"
    "\<And>f. f \<notin> fst ` set setoptval_calls \<Longrightarrow> g' f = g f"
proof -
  let ?tab = "fold assign as confoptions"
  have p: "(case Some scr of Some file1 \<Rightarrow> parse_configfile e file1 confoptions
      | None \<Rightarrow> parse_configfile2 e dcf confoptions) = (0, ?tab)"
    using assms by (simp add: parse_configfile_def)
  obtain g' where g': "setoptvals ?tab setoptval_calls g = Some g'"
    "\<forall>f i. (f, i) \<in> set setoptval_calls \<longrightarrow> g' f = option_effect (the (find_confoption ?tab i)) i (g f)"
    "\<forall>f. f \<notin> fst ` set setoptval_calls \<longrightarrow> g' f = g f"
    using setoptvals_eq [OF calls_found [OF conf_shape_fold [OF conf_shape_init]] option_variables] by blast
  have "configure e (Some scr) dcf (confoptions, g) = Some (0, ?tab, g')"
    using g'(1) by (simp add: configure_eq [OF p])
  then show thesis using g'(2,3) find_after_script by (intro that [of g']) simp_all
qed

lemma assign1_type: "opt_type (fold assign1 as op) = opt_type op" "opt_name (fold assign1 as op) = opt_name op"
  using fold_assign1_key [of as op] by (simp_all add: opt_key_def)

lemma option_p_initial: "i - 1 < 66 \<Longrightarrow> opt_p (confoptions ! (i - 1)) = None"
  using option_string_initial by (simp add: length_confoptions)

text \<open>
  The name under which the documentation, \<open>conf/npemwind.conf\<close>, offers each variable: the name of
  the variable itself, except for the following.
\<close>

definition documented_names :: "(string \<times> string) list" where
  "documented_names = [
     (''spoolfile_mode'', ''spoolfilemode''), (''pidfile_mode'', ''pidfilemode''),
     (''nbspstats_period'', ''statsperiod''), (''min_consecutive_packets'', ''minconsecutivepackets''),
     (''max_bad_packet_count'', ''maxbadpacketcount''), (''connecttimeout_s'', ''connecttimeout''),
     (''readtimeout_s'', ''readtimeout''), (''readtimeout_retry'', ''readtimeoutretry''),
     (''writetimeout_s'', ''writetimeout''), (''writetimeout_retry'', ''writetimeoutretry''),
     (''mserverlist'', ''bbserver_mserverlist''), (''mserverlist_raw'', ''bbserver_mserverlist_raw''),
     (''mserverpublist'', ''bbserver_mserverpublist''), (''mserverpublist_raw'', ''bbserver_mserverpublist_raw''),
     (''mserverdirlist'', ''bbserver_mserverdirlist''), (''mserverdirlist_raw'', ''bbserver_mserverdirlist_raw''),
     (''mserversatlist'', ''bbserver_mserversatlist''), (''mserversatlist_raw'', ''bbserver_mserversatlist_raw''),
     (''bbserverlist'', ''bbserver_bbserverlist''), (''bbserverlist_raw'', ''bbserver_bbserverlist_raw''),
     (''bbserversatlist'', ''bbserver_bbserversatlist''), (''bbserversatlist_raw'', ''bbserver_bbserversatlist_raw'')]"

definition documented_option :: "string \<Rightarrow> string" where
  "documented_option f = (case map_of documented_names f of Some n \<Rightarrow> n | None \<Rightarrow> f)"

text \<open>The place of an option in the table is that of its variable among the defaults.\<close>

fun option_fits :: "confoption_st \<Rightarrow> string \<times> gval \<Rightarrow> bool" where
  "option_fits op (f, GStr p) = (opt_name op = documented_option f \<and> opt_type op = TCL_LINK_STRING)"
| "option_fits op (f, GInt v) = (opt_name op = documented_option f \<and> opt_type op = TCL_LINK_INT \<and> opt_v op = v)"
| "option_fits op (f, GMode m) = (opt_name op = documented_option f \<and> opt_type op = TCL_LINK_INT \<and> opt_v op = uint m)"
| "option_fits op (f, GTime w) =
     (opt_name op = documented_option f \<and> opt_type op = TCL_LINK_INT \<and> opt_v op = uint w \<and> w = 60)"

lemma options_fit: "list_all2 option_fits confoptions (default_values cd ld)"
  by (simp add: default_values_def confoptions_def documented_option_def documented_names_def)

lemma write_int_time: "int_val (Some (write_int v (Some (GTime 60)))) = v mod 2 ^ 32"
proof -
  have "drop_bit 32 (60 :: 64 word) = 0" by code_simp
  moreover have "sint (ucast (word_of_int v :: 32 word) :: 64 word) = v mod 2 ^ 32"
  proof -
    have "uint (ucast (word_of_int v :: 32 word) :: 64 word) = v mod 2 ^ 32"
      by (simp add: uint_up_ucast is_up uint_word_of_int)
    moreover have "signed_take_bit 63 (v mod 2 ^ 32) = v mod 2 ^ 32"
      using pos_mod_bound [of "2 ^ 32" v] pos_mod_sign [of "2 ^ 32" v]
      by (intro signed_take_bit_int_eq_self) auto
    ultimately show ?thesis by (simp add: sint_uint)
  qed
  ultimately show ?thesis by (simp add: write_int_def int_val_def)
qed

lemma default_option:
  assumes "f \<in> fst ` set (default_values cd ld)"
  obtains i d op where "(f, i) \<in> set setoptval_calls" "init_globals cd ld f = Some d"
    "op = confoptions ! (i - 1)" "option_fits op (f, d)" "opt_p op = None"
proof -
  obtain k where k: "k < 66" "fst (setoptval_calls ! k) = f"
    using assms default_names [of cd ld] length_defaults(2)
    by (metis in_set_conv_nth length_map list.set_map nth_map)
  obtain i where i: "setoptval_calls ! k = (f, i)" using k(2) by (metis prod.collapse)
  have mem: "(f, i) \<in> set setoptval_calls" using i k(1) length_defaults(2) nth_mem by metis
  note n = call_nth [OF mem]
  then have i66: "i - 1 < 66" by simp
  have "option_fits (confoptions ! (i - 1)) (default_values cd ld ! (i - 1))"
    using list_all2_nthD [OF options_fit, of "i - 1" cd ld] i66 by (simp add: length_confoptions)
  moreover have "fst (default_values cd ld ! (i - 1)) = f"
    using arg_cong [OF default_names, of "\<lambda>xs. xs ! (i - 1)" cd ld] i66 n(3) by (simp add: length_defaults)
  ultimately have "option_fits (confoptions ! (i - 1)) (f, snd (default_values cd ld ! (i - 1)))"
    by (metis prod.collapse)
  then show thesis
    using that [OF mem _ refl] init_globals_nth [OF i66, of cd ld] n(3) option_p_initial [OF i66] by simp
qed

text \<open>
  C16. Reading the configuration from a script that succeeds gives every variable of the program
  what the script assigned last to the option that the documentation names for it: a string
  variable the string, and if none was assigned its default; an \<open>int\<close> variable the number, or
  its default; a \<open>mode_t\<close> the number cut to 32 bits; and the one \<open>time_t\<close>, the period of the
  statistics, the number modulo 2 to the 32. Nothing else is set, and no call of \<open>setoptval\<close>
  meets a null pointer.
\<close>

theorem configure_settings:
  assumes "tcl_interp e" "tcl_script e scr = (as, 0)"
  shows "\<exists>tab g. configure e (Some scr) dcf (confoptions, init_globals cd ld) = Some (0, tab, g)
    \<and> (\<forall>f \<in> fst ` set (default_values cd ld).
         case init_globals cd ld f of
           Some (GStr p) \<Rightarrow>
             (case last_str (documented_option f) as None of
                None \<Rightarrow> g f = Some (GStr p)
              | Some s \<Rightarrow> str_val tab (g f) = Some s)
         | Some (GInt v) \<Rightarrow> g f = Some (GInt (last_int (documented_option f) as v))
         | Some (GMode m) \<Rightarrow> g f = Some (GMode (word_of_int (last_int (documented_option f) as (uint m))))
         | Some (GTime w) \<Rightarrow> int_val (g f) = last_int (documented_option f) as (uint w) mod 2 ^ 32
         | None \<Rightarrow> False)
    \<and> (\<forall>f. f \<notin> fst ` set (default_values cd ld) \<longrightarrow> g f = None)"
proof -
  let ?tab = "fold assign as confoptions"
  obtain g where g: "configure e (Some scr) dcf (confoptions, init_globals cd ld) = Some (0, ?tab, g)"
    "\<And>f i. (f, i) \<in> set setoptval_calls \<Longrightarrow>
       g f = option_effect (fold assign1 as (confoptions ! (i - 1))) i (init_globals cd ld f)"
    "\<And>f. f \<notin> fst ` set setoptval_calls \<Longrightarrow> g f = init_globals cd ld f"
    using configure_script [OF assms] by metis
  have var: "case init_globals cd ld f of
           Some (GStr p) \<Rightarrow>
             (case last_str (documented_option f) as None of
                None \<Rightarrow> g f = Some (GStr p)
              | Some s \<Rightarrow> str_val ?tab (g f) = Some s)
         | Some (GInt v) \<Rightarrow> g f = Some (GInt (last_int (documented_option f) as v))
         | Some (GMode m) \<Rightarrow> g f = Some (GMode (word_of_int (last_int (documented_option f) as (uint m))))
         | Some (GTime w) \<Rightarrow> int_val (g f) = last_int (documented_option f) as (uint w) mod 2 ^ 32
         | None \<Rightarrow> False" if "f \<in> fst ` set (default_values cd ld)" for f
  proof -
    from that obtain i d op where op: "(f, i) \<in> set setoptval_calls" "init_globals cd ld f = Some d"
        "op = confoptions ! (i - 1)" "option_fits op (f, d)" "opt_p op = None"
      by (rule default_option)
    have eff: "g f = option_effect (fold assign1 as op) i (Some d)"
      using g(2) [OF op(1)] op(2,3) by simp
    note found = find_after_script [OF op(1), of as, folded op(3)]
    show ?thesis
      using eff found op fold_assign1_str [of op as] fold_assign1_int [of op as] write_int_time
      by (cases d)
        (auto simp: option_effect_def assign1_type str_val_def strp_val_def write_int_def [of _ "Some (GInt _)"]
          write_int_def [of _ "Some (GMode _)"] split: option.splits)
  qed
  have "g f = None" if "f \<notin> fst ` set (default_values cd ld)" for f
  proof -
    have "f \<notin> fst ` set setoptval_calls" using that default_names [of cd ld] by (metis list.set_map)
    then show ?thesis using g(3) that by (simp add: init_globals_def map_of_eq_None_iff)
  qed
  with g(1) var show ?thesis by blast
qed

definition example_env :: "(string \<times> setting) list \<Rightarrow> tcl_env" where
  "example_env as = \<lparr>tcl_interp = True, tcl_script = (\<lambda>_. (as, 0)), tcl_stat = (\<lambda>_. Stat_ok)\<rparr>"

theorem configure_settings_witness:
  "\<exists>tab g. configure (example_env [(''readtimeout'', SetInt 7), (''group'', SetStr [97])]) (Some []) []
       (confoptions, init_globals [] []) = Some (0, tab, g)
    \<and> g ''readtimeout_s'' = Some (GInt 7) \<and> str_val tab (g ''group'') = Some [97]
    \<and> g ''user'' = Some (GStr (SLit (cstr ''noaaport'')))"
proof -
  let ?as = "[(''readtimeout'', SetInt 7), (''group'', SetStr [97])]"
  have seven: "sint (7 :: 32 word) = 7" by code_simp
  have v: "''readtimeout_s'' \<in> fst ` set (default_values [] [])" "''group'' \<in> fst ` set (default_values [] [])"
      "''user'' \<in> fst ` set (default_values [] [])"
      "init_globals [] [] ''readtimeout_s'' = Some (GInt 5)"
      "init_globals [] [] ''group'' = Some (GStr (SLit (cstr ''noaaport'')))"
      "init_globals [] [] ''user'' = Some (GStr (SLit (cstr ''noaaport'')))"
    by (simp_all add: default_values_def init_globals_def)
  have d: "documented_option ''readtimeout_s'' = ''readtimeout''" "documented_option ''group'' = ''group''"
      "documented_option ''user'' = ''user''"
    by (simp_all add: documented_option_def documented_names_def)
  show ?thesis
    using configure_settings [of "example_env ?as" "[]" ?as "[]" "[]" "[]"] v d seven
    by (fastforce simp: example_env_def)
qed

text \<open>Without a configuration file nothing changes.\<close>

lemma configure_succeeds:
  assumes "conf_shape tab1" "(case cf of Some file1 \<Rightarrow> parse_configfile e file1 tab | None \<Rightarrow> parse_configfile2 e dcf tab) = (0, tab1)"
  obtains g' where "configure e cf dcf (tab, g) = Some (0, tab1, g')"
    "\<And>f i. (f, i) \<in> set setoptval_calls \<Longrightarrow> g' f = option_effect (the (find_confoption tab1 i)) i (g f)"
    "\<And>f. f \<notin> fst ` set setoptval_calls \<Longrightarrow> g' f = g f"
  using setoptvals_eq [OF calls_found [OF assms(1)] option_variables, of g] configure_eq [OF assms(2), of g] by fastforce

lemma configure_no_file:
  assumes "tcl_stat e dcf = Stat_enoent"
  shows "configure e None dcf (confoptions, init_globals cd ld) = Some (0, confoptions, init_globals cd ld)"
proof -
  have p: "(case None of Some file1 \<Rightarrow> parse_configfile e file1 confoptions
      | None \<Rightarrow> parse_configfile2 e dcf confoptions) = (0, confoptions)"
    using assms by (simp add: parse_configfile2_def exists_configfile_def)
  obtain g' where g': "configure e None dcf (confoptions, init_globals cd ld) = Some (0, confoptions, g')"
    "\<And>f i. (f, i) \<in> set setoptval_calls \<Longrightarrow> g' f = option_effect (the (find_confoption confoptions i)) i (init_globals cd ld f)"
    "\<And>f. f \<notin> fst ` set setoptval_calls \<Longrightarrow> g' f = init_globals cd ld f"
    using configure_succeeds [OF conf_shape_init p] by blast
  have "g' f = init_globals cd ld f" for f
  proof (cases "f \<in> fst ` set setoptval_calls")
    case True
    then obtain i where i: "(f, i) \<in> set setoptval_calls" by force
    note c = call_nth [OF i]
    have "g' f = option_effect (confoptions ! (i - 1)) i (init_globals cd ld f)"
      using g'(2) [OF i] find_after_script [OF i, of "[]"] by simp
    with c option_p_initial [of i] init_int_option [OF i, of cd ld] show ?thesis
      by (cases "opt_type (confoptions ! (i - 1))") (auto simp: option_effect_def)
  qed (simp add: g'(3))
  with g'(1) show ?thesis by (simp add: ext [of g' "init_globals cd ld"])
qed

text \<open>Writing twice is writing the second value, and a string is never unset.\<close>

lemma write_int_twice: "write_int v (Some (write_int u old)) = write_int v old"
proof -
  have "drop_bit 32 (or (push_bit 32 (drop_bit 32 w)) (ucast (x :: 32 word))) = drop_bit 32 w" for w :: "64 word" and x
    by (rule bit_eqI) (auto simp: bit_simps dest: bit_imp_le_length)
  then show ?thesis by (auto simp: write_int_def split: option.splits gval.splits)
qed

lemma fold_assign1_set: "opt_p op \<noteq> None \<Longrightarrow> opt_p (fold assign1 as op) \<noteq> None"
proof (induction as arbitrary: op)
  case (Cons a as)
  have "opt_p (assign1 a op) \<noteq> None" using Cons.prems by (cases a; cases "snd a") (auto simp: assign1_def)
  with Cons.IH show ?case by simp
qed simp

lemma option_effect_twice:
  "option_effect (fold assign1 bs op) i (option_effect op i old) = option_effect (fold assign1 bs op) i old"
  using fold_assign1_set [of op bs] by (auto simp: option_effect_def assign1_type write_int_twice)

text \<open>
  C29. The default configuration file and the file of the command line are layers: reading
  the first and then the second leaves the table and every variable exactly as one file with the
  contents of both would, so that the second overrides the first option by option.
\<close>

theorem configuration_layers:
  assumes "tcl_interp e" "tcl_stat e dcf = Stat_ok" "tcl_script e dcf = (as, 0)" "tcl_script e scr = (bs, 0)"
  shows "\<exists>tab1 g1 tab2 g2. configure e None dcf (confoptions, init_globals cd ld) = Some (0, tab1, g1)
    \<and> configure e (Some scr) dcf (tab1, g1) = Some (0, tab2, g2)
    \<and> configure (e\<lparr>tcl_script := (\<lambda>_. (as @ bs, 0))\<rparr>) (Some scr) dcf (confoptions, init_globals cd ld) = Some (0, tab2, g2)"
proof -
  let ?t1 = "fold assign as confoptions" and ?t2 = "fold assign (as @ bs) confoptions"
  have sh: "conf_shape ?t1" "conf_shape ?t2" by (simp_all add: conf_shape_fold conf_shape_init)
  obtain g1 where g1: "configure e None dcf (confoptions, init_globals cd ld) = Some (0, ?t1, g1)"
    "\<And>f i. (f, i) \<in> set setoptval_calls \<Longrightarrow> g1 f = option_effect (the (find_confoption ?t1 i)) i (init_globals cd ld f)"
    "\<And>f. f \<notin> fst ` set setoptval_calls \<Longrightarrow> g1 f = init_globals cd ld f"
    using configure_succeeds [OF sh(1), where cf = None and e = e and tab = confoptions and dcf = dcf and g = "init_globals cd ld"] assms
    by (auto simp: parse_configfile2_def parse_configfile_def exists_configfile_def)
  obtain g2 where g2: "configure e (Some scr) dcf (?t1, g1) = Some (0, ?t2, g2)"
    "\<And>f i. (f, i) \<in> set setoptval_calls \<Longrightarrow> g2 f = option_effect (the (find_confoption ?t2 i)) i (g1 f)"
    "\<And>f. f \<notin> fst ` set setoptval_calls \<Longrightarrow> g2 f = g1 f"
    using configure_succeeds [OF sh(2), where cf = "Some scr" and e = e and tab = ?t1 and dcf = dcf and g = g1] assms by (auto simp: parse_configfile_def)
  obtain g3 where g3: "configure (e\<lparr>tcl_script := (\<lambda>_. (as @ bs, 0))\<rparr>) (Some scr) dcf (confoptions, init_globals cd ld) = Some (0, ?t2, g3)"
    "\<And>f i. (f, i) \<in> set setoptval_calls \<Longrightarrow> g3 f = option_effect (the (find_confoption ?t2 i)) i (init_globals cd ld f)"
    "\<And>f. f \<notin> fst ` set setoptval_calls \<Longrightarrow> g3 f = init_globals cd ld f"
    using configure_succeeds [OF sh(2), where cf = "Some scr" and e = "e\<lparr>tcl_script := (\<lambda>_. (as @ bs, 0))\<rparr>"
        and tab = confoptions and dcf = dcf and g = "init_globals cd ld"] assms
    by (auto simp: parse_configfile_def)
  have "g2 f = g3 f" for f
  proof (cases "f \<in> fst ` set setoptval_calls")
    case True
    then obtain i where i: "(f, i) \<in> set setoptval_calls" by force
    then show ?thesis
      using g1(2) [OF i] g2(2) [OF i] g3(2) [OF i] find_after_script [OF i, of as] find_after_script [OF i, of "as @ bs"]
      by (simp add: option_effect_twice)
  qed (simp add: g1(3) g2(3) g3(3))
  then have "g2 = g3" by (rule ext)
  with g1(1) g2(1) g3(1) show ?thesis by blast
qed

theorem configuration_layers_witness:
  "\<exists>tab1 g1 tab2 g2.
     configure (example_env [(''user'', SetStr [97])]) None [] (confoptions, init_globals [] []) = Some (0, tab1, g1)
     \<and> configure (example_env [(''user'', SetStr [97])]) (Some [98]) [] (tab1, g1) = Some (0, tab2, g2)"
  using configuration_layers [of "example_env [(''user'', SetStr [97])]" "[]" "[(''user'', SetStr [97])]" "[98]" "[(''user'', SetStr [97])]" "[]" "[]"]
  by (auto simp: example_env_def)

lemma defaults_valid: "validate_configuration (confoptions, init_globals cd ld) = 0"
proof -
  have d: "distinct (map fst (default_values cd ld))" unfolding default_names by (rule option_variables)
  have "vfails [] (\<lambda>_. init_globals cd ld (vname v)) v = None" if "v \<in> set validations" for v
    using checked_vfails [OF defaults_checked d that] by (simp add: init_globals_def)
  then show ?thesis
    unfolding validate_iff using vfails_local [of "init_globals cd ld", OF defaults_no_table] by simp
qed

text \<open>
  What a usable value is: a string that the daemon needs is not empty, a number is not
  negative, a switch is 0 or 1, the compression ratio is a percentage that is not 0, and the
  number of clients is at least -1, which stands for no limit. Some strings may be left out,
  and the masks of the files are taken as they are.
\<close>

definition optional_strings :: "string set" where
  "optional_strings = {''user'', ''group'', ''home'', ''bbclientid'', ''prefilter'', ''startscript'', ''stopscript'', ''servername''}"

definition usable :: "conf_table \<Rightarrow> gvars \<Rightarrow> string \<times> gval \<Rightarrow> bool" where
  "usable tab g d =
     (case d of
        (f, GStr _) \<Rightarrow> f \<in> optional_strings \<or> (\<exists>s. str_val tab (g f) = Some s \<and> s \<noteq> [])
      | (f, GMode _) \<Rightarrow> True
      | (f, _) \<Rightarrow>
          if f \<in> {''httpd_enable'', ''bbserver_enable''} then int_val (g f) \<in> {0, 1}
          else if f = ''min_compress_ratio'' then 1 \<le> int_val (g f) \<and> int_val (g f) \<le> 100
          else if f = ''maxnetclients'' then -1 \<le> int_val (g f)
          else 0 \<le> int_val (g f))"

lemma switch_range: "(x = 0 \<or> x = 1) = (0 \<le> x \<and> x \<le> (1 :: int))"
  by auto

lemma validations_usable:
  "list_all (\<lambda>v. vfails tab g v = None) validations \<longleftrightarrow> list_all (usable tab g) (default_values cd ld)"
  unfolding validations_def default_values_def list.pred_inject vfails_None
  by (simp add: usable_def optional_strings_def switch_range)



text \<open>
  The period of the statistics is a \<open>time_t\<close> written through a pointer to \<open>int\<close>: a negative
  setting is a period of more than a hundred years, and the check that it is not negative passes.
\<close>

lemma negative_statsperiod:
  "vfails tab (g(''nbspstats_period'' \<mapsto> write_int (-1) (Some (GTime 60)))) (CheckLow ''nbspstats_period'' 0 ''statsperiod'') = None"
  "int_val (Some (write_int (-1) (Some (GTime 60)))) = 2 ^ 32 - 1"
proof -
  have "drop_bit 32 (60 :: 64 word) = 0" by code_simp
  moreover have "(ucast (- 1 :: 32 word) :: 64 word) = 4294967295" by code_simp
  ultimately have "write_int (-1) (Some (GTime 60)) = GTime 4294967295" by (simp add: write_int_def)
  moreover have "sint (4294967295 :: 64 word) = 4294967295" by code_simp
  ultimately show "vfails tab (g(''nbspstats_period'' \<mapsto> write_int (-1) (Some (GTime 60)))) (CheckLow ''nbspstats_period'' 0 ''statsperiod'') = None"
    "int_val (Some (write_int (-1) (Some (GTime 60)))) = 2 ^ 32 - 1"
    by (simp_all add: int_val_def)
qed

text \<open>Two labels of the listing are not names of options: copied into a configuration file they do nothing.\<close>

lemma listing_labels:
  "filter (\<lambda>l. l \<notin> set (map opt_name confoptions)) (map fst listing) = [''bbclientsid_secs'', ''serverthreads'']"
  by (simp add: listing_def confoptions_def)

end
