(* ===== verification/Messages.thy ===== *)
theory Messages
  imports Util
begin

text \<open>
  \<open>src/err.c\<close>: where the messages of the program go. The text of a message is what the library makes of
  its format; \<open>strerror\<close> and \<open>db_strerror\<close> give the text of an error. \<open>src/access.c\<close>: whether a
  client is let in, and the message about it. \<open>src/dbenv.c\<close>: opening and closing the
  environment of the data base. \<open>src/solaris.c\<close>: the replacements of functions that write messages.
\<close>

section \<open>Messages\<close>

record log_st =
  l_daemon :: int
  l_verbose :: int
  l_debug :: int

datatype priority = LOG_ERR | LOG_WARNING | LOG_INFO | LOG_DEBUG

datatype message = To_syslog priority "byte list" | To_stderr "byte list" | To_warn "byte list" "byte list"

text \<open>\<open>To_warn\<close> is a message of \<open>warn\<close>: the text, and the text of the error that the library adds.\<close>

definition set_log_daemon :: "log_st \<Rightarrow> log_st" where "set_log_daemon l = l\<lparr>l_daemon := 1\<rparr>"

definition set_log_debug :: "int \<Rightarrow> log_st \<Rightarrow> log_st" where "set_log_debug flag l = l\<lparr>l_debug := flag\<rparr>"

definition set_log_verbose :: "int \<Rightarrow> log_st \<Rightarrow> log_st" where "set_log_verbose flag l = l\<lparr>l_verbose := flag\<rparr>"

definition log_msg :: "log_st \<Rightarrow> priority \<Rightarrow> byte list \<Rightarrow> message list" where
  "log_msg l p text = (if l_daemon l = 1 then [To_syslog p text] else [To_stderr (text @ [10])])"

definition log_info :: "log_st \<Rightarrow> byte list \<Rightarrow> message list" where
  "log_info l text = (if l_daemon l = 1 then [To_syslog LOG_INFO text] else [To_stderr (text @ [10])])"

definition log_warnx :: "log_st \<Rightarrow> byte list \<Rightarrow> message list" where
  "log_warnx l text = (if l_daemon l = 1 then [To_syslog LOG_WARNING text] else [To_stderr (text @ [10])])"

definition log_errx :: "log_st \<Rightarrow> byte list \<Rightarrow> message list" where
  "log_errx l text = (if l_daemon l = 1 then [To_syslog LOG_ERR text] else [To_stderr (text @ [10])])"

definition log_err :: "log_st \<Rightarrow> byte list \<Rightarrow> byte list \<Rightarrow> message list" where
  "log_err l strerror s = (if l_daemon l = 1 then [To_syslog LOG_ERR (s @ [32] @ strerror)] else [To_warn s strerror])"

definition log_err2 :: "log_st \<Rightarrow> byte list \<Rightarrow> byte list \<Rightarrow> byte list \<Rightarrow> message list" where
  "log_err2 l strerror s1 s2 =
     (if l_daemon l = 1 then [To_syslog LOG_ERR (s1 @ [32] @ s2 @ [46, 32] @ strerror)] else [To_warn (s1 @ [32] @ s2 @ [46]) strerror])"

definition log_err2u :: "log_st \<Rightarrow> byte list \<Rightarrow> byte list \<Rightarrow> nat \<Rightarrow> message list" where
  "log_err2u l strerror s1 u =
     (if l_daemon l = 1 then [To_syslog LOG_ERR (s1 @ [32] @ dec u @ [46, 32] @ strerror)] else [To_warn (s1 @ [32] @ dec u @ [46]) strerror])"

definition log_verbose :: "log_st \<Rightarrow> int \<Rightarrow> byte list \<Rightarrow> message list" where
  "log_verbose l level text =
     (if level > l_verbose l then [] else if l_daemon l = 1 then [To_syslog LOG_INFO text] else [To_stderr (text @ [10])])"

definition log_debug :: "log_st \<Rightarrow> byte list \<Rightarrow> message list" where
  "log_debug l text =
     (if l_debug l = 0 then [] else if l_daemon l = 1 then [To_syslog LOG_DEBUG text] else [To_stderr (text @ [10])])"

definition log_err_open :: "log_st \<Rightarrow> byte list \<Rightarrow> byte list \<Rightarrow> message list" where
  "log_err_open l strerror name = log_err2 l strerror (cstr ''Could not open'') name"

definition log_err_write :: "log_st \<Rightarrow> byte list \<Rightarrow> byte list \<Rightarrow> message list" where
  "log_err_write l strerror name = log_err2 l strerror (cstr ''Could not write to'') name"

definition log_err_read :: "log_st \<Rightarrow> byte list \<Rightarrow> byte list \<Rightarrow> message list" where
  "log_err_read l strerror name = log_err2 l strerror (cstr ''Could not read from'') name"

definition log_err_db :: "log_st \<Rightarrow> byte list \<Rightarrow> (int \<Rightarrow> byte list) \<Rightarrow> byte list \<Rightarrow> int \<Rightarrow> message list" where
  "log_err_db l strerror db_strerror s dberror =
     (if dberror = 0 then log_err l strerror s else log_errx l (s @ [32] @ db_strerror dberror))"

definition log_err2_db ::
  "log_st \<Rightarrow> byte list \<Rightarrow> (int \<Rightarrow> byte list) \<Rightarrow> byte list \<Rightarrow> byte list \<Rightarrow> int \<Rightarrow> message list" where
  "log_err2_db l strerror db_strerror s1 s2 dberror =
     (if dberror = 0 then log_err2 l strerror s1 s2 else log_errx l (s1 @ [32] @ s2 @ [46, 32] @ db_strerror dberror))"

text \<open>The message of a failed assertion, and the exit status.\<close>

definition log_assert :: "log_st \<Rightarrow> byte list option \<Rightarrow> byte list \<Rightarrow> int \<Rightarrow> byte list \<Rightarrow> message list \<times> int" where
  "log_assert l func name line failedexpr =
     (log_info l (cstr ''Assertion failed: ('' @ failedexpr @ cstr ''), ''
        @ (case func of None \<Rightarrow> [] | Some f \<Rightarrow> cstr ''function '' @ f @ cstr '', '')
        @ cstr ''file '' @ name @ cstr '', line '' @ printf_d line @ [46, 10]), 1)"

text \<open>
  The report about the first child of the scheduler (\<open>wait_first_child\<close> of \<open>src/exec.c\<close>): nothing, unless it
  ended with an error or by a signal. The report about a client that hung up (\<open>handle_client_hup\<close> of
  \<open>src/serverm.c\<close>; the condition 0 does not occur).
\<close>

datatype child_end = Ended_with int | Killed_by int

definition wait_first_child :: "log_st \<Rightarrow> int \<Rightarrow> child_end \<Rightarrow> byte list \<Rightarrow> message list" where
  "wait_first_child l pid how name =
     (if pid \<le> 0 then []
      else case how of
          Killed_by signo \<Rightarrow>
            if signo \<noteq> 0 then log_errx l (name @ [91] @ printf_d pid @ cstr ''] exited abnormally with signal '' @ printf_d signo @ [46])
            else log_errx l (name @ [91] @ printf_d pid @ cstr ''] exited with error 1.'')
        | Ended_with code \<Rightarrow>
            if code \<noteq> 0 then log_errx l (name @ [91] @ printf_d pid @ cstr ''] exited with error '' @ printf_d code @ [46]) else [])"

definition handle_client_hup :: "log_st \<Rightarrow> byte list \<Rightarrow> byte list \<Rightarrow> int \<Rightarrow> message list" where
  "handle_client_hup l strerror ip condition =
     (if condition > 0 then log_info l (cstr ''Client '' @ ip @ cstr '' disconnected'') else log_err2 l strerror (cstr ''Client'') ip)"

text \<open>
  \<open>src/solaris.c\<close>: the replacements for \<open>err\<close>, \<open>errx\<close>, \<open>warn\<close> and \<open>warnx\<close> where the library has
  none: the text on the standard error and, for the first two, the status with which the
  process ends.
\<close>

definition sol_err :: "int \<Rightarrow> byte list \<Rightarrow> byte list \<Rightarrow> byte list \<times> int" where
  "sol_err eval strerror t = (t @ [32] @ strerror @ [10], eval)"

definition sol_errx :: "int \<Rightarrow> byte list \<Rightarrow> byte list \<times> int" where
  "sol_errx eval t = (t, eval)"

definition sol_warn :: "byte list \<Rightarrow> byte list \<Rightarrow> byte list" where
  "sol_warn strerror t = t @ [32] @ strerror @ [10]"

definition sol_warnx :: "byte list \<Rightarrow> byte list" where
  "sol_warnx t = t"

section \<open>Access\<close>

text \<open>
  With the wrapper library (\<open>wrapped\<close>) its answer \<open>hosts_access\<close> decides; without it every client is let in.
  The name of the client, if it is known, is preferred to the address.
\<close>

definition client_allow_nconn ::
  "log_st \<Rightarrow> bool \<Rightarrow> int \<Rightarrow> byte list option \<Rightarrow> byte list option \<Rightarrow> int \<times> message list" where
  "client_allow_nconn l wrapped hosts_access ip name =
     (let allow = (if wrapped then hosts_access else 1);
          nameorip = (case name of Some n \<Rightarrow> Some n | None \<Rightarrow> ip)
      in (allow, case nameorip of
            None \<Rightarrow> []
          | Some n \<Rightarrow>
              if allow = 0 then log_info l (cstr ''Connection from '' @ n @ (if wrapped then cstr '' denied in hosts.allow'' else cstr '' denied''))
              else log_info l (cstr ''Connection from '' @ n @ [46])))"

section \<open>The environment of the data base\<close>

text \<open>
  The answers of the library for creating the environment, setting the size of the cache and opening
  it. The handle in \<open>g.dbenv\<close>, and the handles made and closed.
\<close>

record dbenv_env =
  de_create :: "int \<times> int"
  de_cachesize :: int
  de_open :: int
  de_close :: int

definition dbenv_open :: "dbenv_env \<Rightarrow> int option \<Rightarrow> int \<times> int option \<times> int list \<times> int list" where
  "dbenv_open e g_dbenv =
     (case de_create e of (st, h) \<Rightarrow>
        if st \<noteq> 0 then (-1, g_dbenv, [], [])
        else if de_cachesize e \<noteq> 0 then (-1, g_dbenv, [h], [h])
        else if de_open e \<noteq> 0 then (-1, g_dbenv, [h], [h])
        else (0, Some h, [h], []))"

definition dbenv_close :: "int option \<Rightarrow> int option \<times> int list" where
  "dbenv_close g_dbenv = (case g_dbenv of None \<Rightarrow> (None, []) | Some h \<Rightarrow> (None, [h]))"

section \<open>Properties\<close>

text \<open>
  A message goes to one place: a daemon writes to the system log only, any other process never does.
\<close>

definition one_place :: "log_st \<Rightarrow> message list \<Rightarrow> bool" where
  "one_place l ms \<longleftrightarrow> length ms \<le> 1 \<and> (\<forall>m \<in> set ms. (\<exists>p t. m = To_syslog p t) \<longleftrightarrow> l_daemon l = 1)"

lemma messages_one_place:
  "one_place l (log_msg l p t)" "one_place l (log_info l t)" "one_place l (log_warnx l t)" "one_place l (log_errx l t)"
  "one_place l (log_err l e t)" "one_place l (log_err2 l e t u)" "one_place l (log_err2u l e t k)"
  "one_place l (log_verbose l v t)" "one_place l (log_debug l t)" "one_place l (log_err2_db l e d t u n)"
  "one_place l (snd (client_allow_nconn l w a ip nm))" "one_place l (handle_client_hup l e addr cd)"
  by (auto simp: one_place_def log_msg_def log_info_def log_warnx_def log_errx_def log_err_def log_err2_def log_err2u_def
      log_verbose_def log_debug_def log_err2_db_def handle_client_hup_def client_allow_nconn_def Let_def split: option.splits)

text \<open>The scheduler is silent exactly when its first child was not found or ended well.\<close>

lemma wait_first_child_silent: "wait_first_child l pid how name = [] \<longleftrightarrow> pid \<le> 0 \<or> how = Ended_with 0"
  by (auto simp: wait_first_child_def log_errx_def split: child_end.splits)

text \<open>
  The replacement of \<open>warnx\<close> does not end the line, as that of \<open>warn\<close> does: messages in a row
  make up one line with the next message of \<open>warn\<close>.
\<close>

lemma sol_warnx_lines:
  assumes "10 \<notin> set strerror" "\<forall>t \<in> set ts. 10 \<notin> set t" "10 \<notin> set u"
  shows "count_list (concat (map sol_warnx ts) @ sol_warn strerror u) 10 = 1"
    and "count_list (concat (map (sol_warn strerror) ts) @ sol_warn strerror u) 10 = length ts + 1"
proof -
  have c: "count_list xs 10 = 0" if "10 \<notin> set xs" for xs :: "byte list" using that by (simp add: count_list_0_iff)
  have "count_list (concat (map sol_warnx ts)) 10 = 0" using assms(2) by (auto simp: sol_warnx_def count_list_0_iff)
  then show "count_list (concat (map sol_warnx ts) @ sol_warn strerror u) 10 = 1"
    using assms c by (simp add: sol_warn_def)
  have "count_list (concat (map (sol_warn strerror) ts)) 10 = length ts"
    using assms(1,2) by (induction ts) (simp_all add: sol_warn_def c)
  then show "count_list (concat (map (sol_warn strerror) ts) @ sol_warn strerror u) 10 = length ts + 1"
    using assms c by (simp add: sol_warn_def)
qed

text \<open>A client is let in unless the wrapper library refuses it.\<close>

lemma client_allowed: "fst (client_allow_nconn l w a ip nm) = 0 \<longleftrightarrow> w \<and> a = 0"
  by (simp add: client_allow_nconn_def Let_def)

text \<open>An environment that is not kept is closed.\<close>

interpretation dbenv_handle: owned_handle dbenv_open dbenv_close
  by unfold_locales (auto simp: dbenv_open_def dbenv_close_def split: prod.splits if_splits option.splits)

lemma dbenv_balanced: "handle_sessions dbenv_open dbenv_close es None = (h, op, cl) \<Longrightarrow> h = None \<and> op = cl"
  by (rule dbenv_handle.sessions_balanced)

end
