(* ===== verification/Insert_Tool.thy ===== *)
theory Insert_Tool
  imports Insert Config Messages "HOL-Library.Multiset"
begin

text \<open>
  \<open>tools/npemwininsert\<close>, the program around \<open>process_file\<close>: the options and \<open>main\<close> (\<open>main.c\<close>), opening,
  locking and closing the fifo (\<open>fifo.c\<close>, \<open>io.c\<close>), the questions about files (\<open>file.c\<close>), and the messages
  (\<open>err.c\<close>).
\<close>

section \<open>Files and the fifo\<close>

definition tool_file_exists :: "(byte list \<Rightarrow> stat_res) \<Rightarrow> byte list \<Rightarrow> int" where
  "tool_file_exists stat name = (case stat name of Stat_ok \<Rightarrow> 0 | Stat_enoent \<Rightarrow> 1 | Stat_error \<Rightarrow> -1)"

text \<open>The size is set only when \<open>stat\<close> succeeds.\<close>

definition get_file_size :: "(byte list \<Rightarrow> nat option) \<Rightarrow> byte list \<Rightarrow> nat \<Rightarrow> int \<times> nat" where
  "get_file_size stat name fsize = (case stat name of None \<Rightarrow> (-1, fsize) | Some n \<Rightarrow> (0, n))"

text \<open>What the system answers for the fifo: its type (\<open>None\<close> if there is no such file), the descriptor, and the other calls.\<close>

record tool_env =
  to_isfifo :: "bool option"
  to_open :: int
  to_flock :: bool
  to_fcntl :: bool
  to_size :: "nat option"
  to_infd :: int
  to_file :: "byte list"
  to_date :: "byte list"
  to_writes :: "wr list"

definition check_fifo :: "tool_env \<Rightarrow> int" where
  "check_fifo e = (case to_isfifo e of None \<Rightarrow> -1 | Some b \<Rightarrow> if b then 0 else 1)"

text \<open>The descriptors opened and closed, those locked, and \<open>g.output_fifo_fd\<close>, \<open>gep.fd\<close> and \<open>g.ep\<close>.\<close>

record tool_st =
  t_opened :: "int list"
  t_closed :: "int list"
  t_locked :: "int set"
  t_output_fifo_fd :: int
  t_in_fd :: int
  t_ep :: bool
  t_out :: "byte list"

definition open_input :: "tool_env \<Rightarrow> tool_st \<Rightarrow> int \<times> tool_st" where
  "open_input e s = (if to_infd e = -1 then (-1, s) else (to_infd e, s\<lparr>t_opened := t_opened s @ [to_infd e]\<rparr>))"

definition close_fd :: "int \<Rightarrow> tool_st \<Rightarrow> tool_st" where
  "close_fd fd s = s\<lparr>t_closed := t_closed s @ [fd], t_locked := t_locked s - {fd}\<rparr>"

definition open_output_fifo :: "tool_env \<Rightarrow> tool_st \<Rightarrow> int \<times> tool_st" where
  "open_output_fifo e s =
     (let fd = to_open e in
      if fd = -1 then (-1, s)
      else
        let s = s\<lparr>t_opened := t_opened s @ [fd]\<rparr> in
        if \<not> to_flock e then (-1, close_fd fd s)
        else
          let s = s\<lparr>t_locked := insert fd (t_locked s)\<rparr> in
          if \<not> to_fcntl e then (-1, close_fd fd s) else (fd, s))"

definition close_output_fifo :: "int \<Rightarrow> tool_st \<Rightarrow> tool_st" where
  "close_output_fifo fd s = (if fd < 0 then s else close_fd fd (s\<lparr>t_locked := t_locked s - {fd}\<rparr>))"

definition write_output_fifo :: "byte list \<Rightarrow> wr list \<Rightarrow> int \<times> wr list \<times> byte list" where
  "write_output_fifo buf ws =
     (case writef buf ws of (n, ws, out) \<Rightarrow> ((if n = -1 then -1 else if n \<noteq> int (length buf) then 1 else 0), ws, out))"

section \<open>The main function\<close>

definition open_output :: "tool_env \<Rightarrow> tool_st \<Rightarrow> int \<times> tool_st" where
  "open_output e s =
     (let status = check_fifo e in
      if status \<noteq> 0 then (status, s)
      else case open_output_fifo e s of (fd, s) \<Rightarrow> if fd = -1 then (-1, s) else (0, s\<lparr>t_output_fifo_fd := fd\<rparr>))"

definition close_output :: "tool_st \<Rightarrow> tool_st" where
  "close_output s =
     (if t_output_fifo_fd s = -1 then s else (close_output_fifo (t_output_fifo_fd s) s)\<lparr>t_output_fifo_fd := -1\<rparr>)"

definition clean_emwin_packet_st :: "tool_st \<Rightarrow> tool_st" where
  "clean_emwin_packet_st s = (if t_in_fd s \<noteq> -1 then close_fd (t_in_fd s) s else s)\<lparr>t_in_fd := -1\<rparr>"

text \<open>
  \<open>process_file\<close> with the descriptor of the input: it is opened when the size and the date could be had, and
  closed when the file has been sent or an error ended that.
\<close>

definition process_file_fd :: "tool_env \<Rightarrow> byte list \<Rightarrow> tool_st \<Rightarrow> int \<times> tool_st" where
  "process_file_fd e emwinfname s =
     (let opens = to_size e \<noteq> None \<and> length (to_date e) = HEADER_DATESIZE;
          (fd, s) = (if opens then open_input e s else (-1, s));
          s = s\<lparr>t_in_fd := fd\<rparr>
      in case process_file (to_size e) (if fd = -1 then None else Some (to_file e)) (to_date e) emwinfname (to_writes e) of
          (status, out) \<Rightarrow>
            if fst (init_emwin_packet_st (to_size e) (if fd = -1 then None else Some (to_file e)) (to_date e) emwinfname) \<noteq> 0
            then (status, s)
            else (status, clean_emwin_packet_st (s\<lparr>t_ep := True, t_out := t_out s @ out\<rparr>)))"

definition tool_cleanup :: "tool_st \<Rightarrow> tool_st" where
  "tool_cleanup s = close_output (if t_ep s then (clean_emwin_packet_st s)\<lparr>t_ep := False\<rparr> else s)"

datatype tool_opt = Tool_b | Tool_C | Tool_f "byte list" | Tool_bad

record tool_args =
  ta_fifo_fpath :: "byte list"
  ta_C :: int
  ta_background :: int

fun parse_tool_opts :: "tool_opt list \<Rightarrow> tool_args \<Rightarrow> tool_args option" where
  "parse_tool_opts [] a = Some a"
| "parse_tool_opts (Tool_b # os) a = parse_tool_opts os (a\<lparr>ta_background := 1\<rparr>)"
| "parse_tool_opts (Tool_C # os) a = parse_tool_opts os (a\<lparr>ta_C := 1\<rparr>)"
| "parse_tool_opts (Tool_f f # os) a = parse_tool_opts os (a\<lparr>ta_fifo_fpath := f\<rparr>)"
| "parse_tool_opts (Tool_bad # os) a = None"

definition OUTPUT_FIFO_FPATH :: "byte list" where "OUTPUT_FIFO_FPATH = cstr ''/var/run/npemwin/infeed.fifo''"

text \<open>The listing of the option \<open>-C\<close>.\<close>

definition tool_check :: "tool_args \<Rightarrow> byte list \<Rightarrow> byte list \<Rightarrow> byte list" where
  "tool_check a emwinfname fpath =
     cstr ''opt_input_emwinfname: '' @ emwinfname @ [10] @ cstr ''opt_input_fpath: '' @ fpath @ [10]
     @ cstr ''opt_fifo_fpath: '' @ ta_fifo_fpath a @ [10]
     @ cstr ''opt_C: '' @ printf_d (ta_C a) @ [10] @ cstr ''opt_background: '' @ printf_d (ta_background a) @ [10]"

text \<open>
  The environment is that of the fifo named by the options. The exit status, the standard output, and
  the state after \<open>exit\<close> has called \<open>cleanup\<close>, which is registered only after the options.
\<close>

definition tool_main ::
  "(byte list \<Rightarrow> byte list \<Rightarrow> tool_env) \<Rightarrow> tool_opt list \<Rightarrow> byte list list \<Rightarrow> tool_st \<Rightarrow> int \<times> byte list \<times> tool_st" where
  "tool_main env opts args s =
     (case parse_tool_opts opts \<lparr>ta_fifo_fpath = OUTPUT_FIFO_FPATH, ta_C = 0, ta_background = 0\<rparr> of
        None \<Rightarrow> (1, [], s)
      | Some a \<Rightarrow>
          (case args of
             [emwinfname, fpath] \<Rightarrow>
               if ta_C a = 1 then (0, tool_check a emwinfname fpath, s)
               else
                 let e = env (ta_fifo_fpath a) fpath;
                     (status, s) = open_output e s;
                     (status, s) = (if status = 0 then process_file_fd e emwinfname s else (status, s))
                 in (if status \<noteq> 0 then 1 else 0, [], tool_cleanup (close_output s))
           | _ \<Rightarrow> (1, [], s)))"

definition tool_init :: tool_st where
  "tool_init = \<lparr>t_opened = [], t_closed = [], t_locked = {}, t_output_fifo_fd = -1, t_in_fd = -1, t_ep = False, t_out = []\<rparr>"

section \<open>Messages\<close>

text \<open>
  The destination and the name of the program; every message goes to the system log or, with the name, to the standard
  error. The functions with an exit status end the program unless it is 0: they give that status, if so.
\<close>

record tool_log =
  f_usesyslog :: int
  gprogname :: "byte list"

definition set_progname :: "byte list \<Rightarrow> tool_log \<Rightarrow> tool_log" where "set_progname ident l = l\<lparr>gprogname := ident\<rparr>"

definition set_usesyslog :: "tool_log \<Rightarrow> tool_log" where "set_usesyslog l = l\<lparr>f_usesyslog := 1\<rparr>"

definition tool_log_msg :: "tool_log \<Rightarrow> priority \<Rightarrow> byte list \<Rightarrow> message" where
  "tool_log_msg l p text =
     (if f_usesyslog l = 1 then To_syslog p text else To_stderr (gprogname l @ [58, 32] @ text @ [10]))"

definition tool_log_info :: "tool_log \<Rightarrow> byte list \<Rightarrow> message" where
  "tool_log_info l text =
     (if f_usesyslog l = 1 then To_syslog LOG_INFO text else To_stderr (gprogname l @ [58, 32] @ text @ [10]))"

definition tool_log_warnx :: "tool_log \<Rightarrow> byte list \<Rightarrow> message" where
  "tool_log_warnx l text =
     (if f_usesyslog l = 1 then To_syslog LOG_WARNING text else To_stderr (gprogname l @ [58, 32] @ text @ [10]))"

definition exits_with :: "int \<Rightarrow> int option" where "exits_with e = (if e \<noteq> 0 then Some e else None)"

definition tool_log_errx :: "tool_log \<Rightarrow> int \<Rightarrow> byte list \<Rightarrow> message \<times> int option" where
  "tool_log_errx l e text =
     (if f_usesyslog l = 1 then To_syslog LOG_ERR text else To_stderr (gprogname l @ [58, 32] @ text @ [10]), exits_with e)"

text \<open>
  \<open>log_err\<close> adds the text of the error. For the system log that needs a longer format; when there is no memory for it,
  the format of the caller is used, and freed. \<open>text\<close> is what the format makes without the addition.
\<close>

datatype freed = Freed_nothing | Freed_copy | Freed_argument

definition tool_log_err :: "bool \<Rightarrow> tool_log \<Rightarrow> byte list \<Rightarrow> int \<Rightarrow> byte list \<Rightarrow> message \<times> freed \<times> int option" where
  "tool_log_err mem_ok l strerror e text =
     (if f_usesyslog l = 1 then
        (if mem_ok then (To_syslog LOG_ERR (text @ [58, 32] @ strerror), Freed_copy, exits_with e)
         else (To_syslog LOG_ERR text, Freed_argument, exits_with e))
      else (To_stderr (gprogname l @ [58, 32] @ text @ [58, 32] @ strerror @ [10]), Freed_nothing, exits_with e))"

definition tool_log_err_open :: "bool \<Rightarrow> tool_log \<Rightarrow> byte list \<Rightarrow> byte list \<Rightarrow> message \<times> freed \<times> int option" where
  "tool_log_err_open m l strerror name = tool_log_err m l strerror 1 (cstr ''Could not open '' @ name)"

definition tool_log_err_write :: "bool \<Rightarrow> tool_log \<Rightarrow> byte list \<Rightarrow> byte list option \<Rightarrow> message \<times> freed \<times> int option" where
  "tool_log_err_write m l strerror name =
     tool_log_err m l strerror 1 (case name of Some n \<Rightarrow> cstr ''Could not write to '' @ n | None \<Rightarrow> cstr ''Could not write output.'')"

definition tool_log_err_read :: "bool \<Rightarrow> tool_log \<Rightarrow> byte list \<Rightarrow> byte list option \<Rightarrow> message \<times> freed \<times> int option" where
  "tool_log_err_read m l strerror name =
     tool_log_err m l strerror 1 (case name of Some n \<Rightarrow> cstr ''Could not read from '' @ n | None \<Rightarrow> cstr ''Could not read input.'')"

definition tool_log_errn_open :: "bool \<Rightarrow> tool_log \<Rightarrow> byte list \<Rightarrow> byte list \<Rightarrow> message \<times> freed \<times> int option" where
  "tool_log_errn_open m l strerror name = tool_log_err m l strerror 0 (cstr ''Could not open '' @ name)"

definition tool_log_errn_write :: "bool \<Rightarrow> tool_log \<Rightarrow> byte list \<Rightarrow> byte list option \<Rightarrow> message \<times> freed \<times> int option" where
  "tool_log_errn_write m l strerror name =
     tool_log_err m l strerror 0 (case name of Some n \<Rightarrow> cstr ''Could not write to '' @ n | None \<Rightarrow> cstr ''Could not write output.'')"

definition tool_log_errn_read :: "bool \<Rightarrow> tool_log \<Rightarrow> byte list \<Rightarrow> byte list option \<Rightarrow> message \<times> freed \<times> int option" where
  "tool_log_errn_read m l strerror name =
     tool_log_err m l strerror 0 (case name of Some n \<Rightarrow> cstr ''Could not read from '' @ n | None \<Rightarrow> cstr ''Could not read input.'')"

text \<open>The argument is freed only by a background tool that is out of memory.\<close>

lemma log_err_frees_argument: "fst (snd (tool_log_err m l e c t)) = Freed_argument \<longleftrightarrow> f_usesyslog l = 1 \<and> \<not> m"
  by (simp add: tool_log_err_def)

section \<open>What the tool does\<close>

lemma init_emwin_packet_status:
  "fst (init_emwin_packet_st fsize fl date name) = 0 \<longleftrightarrow> fsize \<noteq> None \<and> length date = HEADER_DATESIZE \<and> fl \<noteq> None"
  by (cases fsize; cases fl) (simp_all add: init_emwin_packet_st_def build_header_date_def Let_def)

text \<open>The two ways in which \<open>process_file_fd\<close> ends: without having opened the file, or with the file closed.\<close>

lemma process_file_fd_cases:
  assumes "process_file_fd e name s = (st, s')"
  shows "s' = s\<lparr>t_in_fd := -1\<rparr> \<and> st \<noteq> 0
    \<or> to_infd e \<noteq> -1 \<and> to_size e \<noteq> None \<and> (\<exists>out. process_file (to_size e) (Some (to_file e)) (to_date e) name (to_writes e) = (st, out)
        \<and> s' = s\<lparr>t_opened := t_opened s @ [to_infd e], t_ep := True, t_out := t_out s @ out,
             t_closed := t_closed s @ [to_infd e], t_locked := t_locked s - {to_infd e}, t_in_fd := -1\<rparr>)"
proof (cases "to_size e \<noteq> None \<and> length (to_date e) = HEADER_DATESIZE \<and> to_infd e \<noteq> -1")
  case True
  moreover obtain st1 out where "process_file (to_size e) (Some (to_file e)) (to_date e) name (to_writes e) = (st1, out)"
    by fastforce
  ultimately show ?thesis
    using assms by (simp add: process_file_fd_def open_input_def init_emwin_packet_status clean_emwin_packet_st_def close_fd_def)
next
  case False
  have "fst (init_emwin_packet_st (to_size e) None (to_date e) name) \<noteq> 0" by (simp add: init_emwin_packet_status)
  moreover have "process_file (to_size e) None (to_date e) name (to_writes e) = (fst (init_emwin_packet_st (to_size e) None (to_date e) name), [])"
    using calculation by (cases "init_emwin_packet_st (to_size e) None (to_date e) name") (simp add: process_file_def)
  moreover have "(if to_size e \<noteq> None \<and> length (to_date e) = HEADER_DATESIZE then open_input e s else (-1, s)) = (-1, s)"
    using False by (auto simp: open_input_def)
  ultimately have "st \<noteq> 0 \<and> s' = s\<lparr>t_in_fd := -1\<rparr>" using assms by (simp add: process_file_fd_def)
  then show ?thesis by blast
qed

lemma process_file_fd_frame:
  assumes "process_file_fd e name s = (st, s')"
  shows "t_in_fd s' = -1" "t_output_fifo_fd s' = t_output_fifo_fd s"
    "mset (t_opened s') + mset (t_closed s) = mset (t_opened s) + mset (t_closed s')"
    "t_locked s' \<subseteq> t_locked s"
  using process_file_fd_cases [OF assms] by auto

lemma open_output_frame:
  assumes "open_output e s = (st, s')" "to_open e \<ge> -1" "t_output_fifo_fd s = -1"
  shows "t_in_fd s' = t_in_fd s" "t_ep s' = t_ep s" "t_out s' = t_out s"
    "mset (t_opened s') + mset (t_closed s) = mset (t_opened s) + mset (t_closed s')
       + (if t_output_fifo_fd s' = -1 then {#} else {#t_output_fifo_fd s'#})"
    "t_locked s' \<subseteq> (if t_output_fifo_fd s' = -1 then t_locked s else insert (t_output_fifo_fd s') (t_locked s))" "st = 0 \<longleftrightarrow> t_output_fifo_fd s' \<noteq> -1"
    "t_output_fifo_fd s' \<ge> -1"
  using assms
  by (auto simp: open_output_def open_output_fifo_def close_fd_def check_fifo_def Let_def split: prod.splits if_splits option.splits)

lemma tool_cleanup_closed:
  assumes "t_in_fd s = -1" "t_output_fifo_fd s \<ge> -1"
    and "mset (t_opened s) = mset (t_closed s) + (if t_output_fifo_fd s = -1 then {#} else {#t_output_fifo_fd s#})"
    and "t_locked s \<subseteq> (if t_output_fifo_fd s = -1 then {} else {t_output_fifo_fd s})"
  shows "mset (t_opened (tool_cleanup (close_output s))) = mset (t_closed (tool_cleanup (close_output s)))"
    "t_locked (tool_cleanup (close_output s)) = {}" "t_out (tool_cleanup (close_output s)) = t_out s"
  using assms
  by (auto simp: tool_cleanup_def close_output_def clean_emwin_packet_st_def close_output_fifo_def close_fd_def split: if_splits)

text \<open>A success of \<open>process_file_fd\<close> is a success of \<open>process_file\<close>.\<close>

lemma process_file_fd_ok:
  assumes "process_file_fd e name s = (0, s')" "t_out s = []"
  shows "\<exists>n. to_size e = Some n \<and> (get_parts_total n < 2 ^ 31 \<longrightarrow> n \<le> length (to_file e)
    \<and> t_out s' = concat (map (packet_for (take n (to_file e)) (to_date e) (take 12 name)) [1..<Suc (get_parts_total n)]))"
proof -
  obtain n where n: "to_size e = Some n" "process_file (Some n) (Some (to_file e)) (to_date e) name (to_writes e) = (0, t_out s')"
    using process_file_fd_cases [OF assms(1)] assms(2) by auto
  then show ?thesis using process_file_success [OF n(2)] by blast
qed

lemma parse_tool_opts_fifo:
  "parse_tool_opts opts a = Some a' \<Longrightarrow> ta_fifo_fpath a' = last (ta_fifo_fpath a # [f. Tool_f f \<leftarrow> opts])"
  by (induction opts a rule: parse_tool_opts.induct) auto

lemma tool_main_result:
  assumes "\<forall>f p. to_open (env f p) \<ge> -1 \<and> to_infd (env f p) \<ge> -1" "tool_main env opts args tool_init = (code, out, s)"
  shows "mset (t_opened s) = mset (t_closed s) \<and> t_locked s = {}
    \<and> (code = 0 \<and> out = [] \<longrightarrow>
        (\<exists>name fpath e n. args = [name, fpath] \<and> e = env (last (OUTPUT_FIFO_FPATH # [f. Tool_f f \<leftarrow> opts])) fpath
         \<and> to_isfifo e = Some True \<and> to_size e = Some n
         \<and> (get_parts_total n < 2 ^ 31 \<longrightarrow>
             n \<le> length (to_file e)
             \<and> t_out s = concat (map (packet_for (take n (to_file e)) (to_date e) (take 12 name)) [1..<Suc (get_parts_total n)]))))"
proof (cases "\<exists>a name fpath. parse_tool_opts opts \<lparr>ta_fifo_fpath = OUTPUT_FIFO_FPATH, ta_C = 0, ta_background = 0\<rparr> = Some a
    \<and> args = [name, fpath] \<and> ta_C a \<noteq> 1")
  case False
  have "tool_check a n f \<noteq> []" for a n f by (simp add: tool_check_def)
  with False assms(2) show ?thesis
    by (auto simp: tool_main_def tool_init_def split: option.splits list.splits if_splits)
next
  case True
  then obtain a name fpath where a: "parse_tool_opts opts \<lparr>ta_fifo_fpath = OUTPUT_FIFO_FPATH, ta_C = 0, ta_background = 0\<rparr> = Some a"
    "args = [name, fpath]" "ta_C a \<noteq> 1" by blast
  define e where "e = env (ta_fifo_fpath a) fpath"
  have e: "to_open e \<ge> -1" "to_infd e \<ge> -1" using assms(1) by (simp_all add: e_def)
  obtain st1 s1 where o: "open_output e tool_init = (st1, s1)" by (cases "open_output e tool_init")
  note of = open_output_frame [OF o e(1)]
  obtain st2 s2 where p: "(if st1 = 0 then process_file_fd e name s1 else (st1, s1)) = (st2, s2)"
    by (cases "if st1 = 0 then process_file_fd e name s1 else (st1, s1)")
  have m: "code = (if st2 \<noteq> 0 then 1 else 0)" "out = []" "s = tool_cleanup (close_output s2)"
    using assms(2) a o p unfolding e_def by (simp_all add: tool_main_def)
  have i: "t_in_fd s1 = -1" "t_out s1 = []" "mset (t_opened s1) = mset (t_closed s1) + (if t_output_fifo_fd s1 = -1 then {#} else {#t_output_fifo_fd s1#})"
    "t_locked s1 \<subseteq> (if t_output_fifo_fd s1 = -1 then {} else {t_output_fifo_fd s1})" "t_output_fifo_fd s1 \<ge> -1" "st1 = 0 \<longleftrightarrow> t_output_fifo_fd s1 \<noteq> -1"
    using of by (auto simp: tool_init_def split: if_splits)
  have k: "t_in_fd s2 = -1" "t_output_fifo_fd s2 = t_output_fifo_fd s1"
    "mset (t_opened s2) + mset (t_closed s1) = mset (t_opened s1) + mset (t_closed s2)" "t_locked s2 \<subseteq> t_locked s1"
    using process_file_fd_frame [of e name s1 st2 s2] i(1) p by (auto split: if_splits)
  have l: "t_locked s2 \<subseteq> (if t_output_fifo_fd s2 = -1 then {} else {t_output_fifo_fd s2})"
    using k(2,4) i(4) by auto
  have "mset (t_opened s2) = mset (t_closed s2) + (if t_output_fifo_fd s2 = -1 then {#} else {#t_output_fifo_fd s2#})"
    using k(2,3) i(3) by auto
  note cl = tool_cleanup_closed [OF k(1) _ this l]
  have fin: "mset (t_opened s) = mset (t_closed s)" "t_locked s = {}" "t_out s = t_out s2"
    using cl i(5) k(2) m(3) by simp_all
  have ef: "e = env (last (OUTPUT_FIFO_FPATH # [f. Tool_f f \<leftarrow> opts])) fpath"
    using parse_tool_opts_fifo [OF a(1)] by (simp add: e_def)
  have "to_isfifo e = Some True \<and> (\<exists>n. to_size e = Some n \<and> (get_parts_total n < 2 ^ 31 \<longrightarrow> n \<le> length (to_file e)
      \<and> t_out s = concat (map (packet_for (take n (to_file e)) (to_date e) (take 12 name)) [1..<Suc (get_parts_total n)])))"
    if "code = 0"
  proof -
    have st: "st1 = 0" "process_file_fd e name s1 = (0, s2)" using that m(1) p by (auto split: if_splits)
    have "to_isfifo e = Some True"
      using o st(1) by (auto simp: open_output_def check_fifo_def split: option.splits if_splits prod.splits)
    with process_file_fd_ok [OF st(2) i(2)] fin(3) show ?thesis by simp
  qed
  with fin(1,2) a(2) ef show ?thesis by blast
qed

text \<open>
  C17. The exit status of the insert tool can be trusted, and it leaves nothing behind. Whatever the options, the fifo and the
  answers of the system are: every descriptor that was opened is closed exactly once and no lock is held at the end;
  and when the status is 0 (and the tool was not asked only for the listing) the path of the last option \<open>-f\<close>, or the default
  one, was that of a fifo, the size of the input file could be had, and, for a file of fewer than \<open>2 ^ 31\<close> parts, the file
  held as many bytes as that size and the packets of all of them have been written, whole and in order, under
  the first twelve characters of the name given, even if the fifo took the bytes in pieces.
\<close>

theorem insert_tool_exit:
  assumes "\<forall>f p. to_open (env f p) \<ge> -1 \<and> to_infd (env f p) \<ge> -1" "tool_main env opts args tool_init = (code, out, s)"
  shows "mset (t_opened s) = mset (t_closed s) \<and> t_locked s = {}
    \<and> (code = 0 \<and> out = [] \<longrightarrow>
        (\<exists>name fpath e n. args = [name, fpath] \<and> e = env (last (OUTPUT_FIFO_FPATH # [f. Tool_f f \<leftarrow> opts])) fpath
         \<and> to_isfifo e = Some True \<and> to_size e = Some n
         \<and> (get_parts_total n < 2 ^ 31 \<longrightarrow>
             n \<le> length (to_file e)
             \<and> t_out s = concat (map (packet_for (take n (to_file e)) (to_date e) (take 12 name)) [1..<Suc (get_parts_total n)]))))"
  by (rule tool_main_result [OF assms])

definition tool_env0 :: tool_env where
  "tool_env0 = \<lparr>to_isfifo = Some True, to_open = 5, to_flock = True, to_fcntl = True, to_size = Some 2, to_infd = 6,
     to_file = [72, 105], to_date = replicate 22 48, to_writes = [Wr_acc 100]\<rparr>"

lemma example_tool_run:
  "\<exists>s. tool_main (\<lambda>_ _. tool_env0) [Tool_b] [[65, 46, 84, 88, 84], [47, 97]] tool_init = (0, [], s)
     \<and> t_out s = packet_for [72, 105] (replicate 22 48) [65, 46, 84, 88, 84] 1"
proof -
  have sd: "sendable [72, 105] (replicate 22 48) [65, 46, 84, 88, 84]"
    by (simp add: sendable_def get_parts_total_def insert_consts)
  have one: "get_parts_total 2 = 1" by (simp add: get_parts_total_def insert_consts)
  have "process_file (Some 2) (Some [72, 105]) (replicate 22 48) [65, 46, 84, 88, 84] [Wr_acc 100]
      = (0, packet_for [72, 105] (replicate 22 48) [65, 46, 84, 88, 84] 1)"
    using process_file_packets [OF sd, of "[Wr_acc 100]"] one by (simp add: accepting_def numeral_2_eq_2)
  then obtain s where s: "tool_main (\<lambda>_ _. tool_env0) [Tool_b] [[65, 46, 84, 88, 84], [47, 97]] tool_init = (0, [], s)"
    by (simp add: tool_main_def tool_env0_def open_output_def check_fifo_def open_output_fifo_def process_file_fd_def
        open_input_def init_emwin_packet_status HEADER_DATESIZE_def)
  from tool_main_result [OF _ s] one s show ?thesis by (simp add: tool_env0_def)
qed

text \<open>A tool that is given a fifo and a name that is too long.\<close>

theorem insert_tool_exit_witness:
  "\<exists>s. tool_main (\<lambda>f _. if f = [47, 98] then tool_env0 else tool_env0\<lparr>to_isfifo := None\<rparr>) [Tool_b, Tool_f [47, 98]]
       [replicate 13 65, [47, 97]] tool_init = (0, [], s)
     \<and> mset (t_opened s) = mset (t_closed s) \<and> t_locked s = {}
     \<and> t_out s = packet_for [72, 105] (replicate 22 48) (replicate 12 65) 1"
proof -
  let ?env = "\<lambda>f _ :: byte list. if f = [47, 98] then tool_env0 else tool_env0\<lparr>to_isfifo := None\<rparr>"
  have sd: "sendable [72, 105] (replicate 22 48) (replicate 12 65)"
    by (simp add: sendable_def get_parts_total_def insert_consts)
  have one: "get_parts_total 2 = 1" by (simp add: get_parts_total_def insert_consts)
  have "process_file (Some 2) (Some [72, 105]) (replicate 22 48) (replicate 13 65) [Wr_acc 100]
      = process_file (Some 2) (Some [72, 105]) (replicate 22 48) (replicate 12 65) [Wr_acc 100]"
    by (simp add: process_file_def init_emwin_packet_st_def insert_consts)
  then have "fst (process_file (Some 2) (Some [72, 105]) (replicate 22 48) (replicate 13 65) [Wr_acc 100]) = 0"
    using process_file_packets [OF sd, of "[Wr_acc 100]"] by (simp add: accepting_def numeral_2_eq_2)
  then obtain s where s: "tool_main ?env [Tool_b, Tool_f [47, 98]] [replicate 13 65, [47, 97]] tool_init = (0, [], s)"
    by (cases "process_file (Some 2) (Some [72, 105]) (replicate 22 48) (replicate 13 65) [Wr_acc 100]")
      (simp add: tool_main_def tool_env0_def open_output_def check_fifo_def open_output_fifo_def process_file_fd_def
        open_input_def init_emwin_packet_status HEADER_DATESIZE_def)
  from insert_tool_exit [OF _ s] s one show ?thesis by (simp add: tool_env0_def)
qed

end
