(* ===== verification/Qdb.thy ===== *)
theory Qdb
  imports Npemwin_Prelude
begin

text \<open>
  \<open>src/libqdb/qdb.c\<close>: the client queues, kept in Berkeley DB databases of type \<open>DB_QUEUE\<close>.
  The library is the record \<open>dbops\<close> of the methods the code calls, on an abstract database
  \<open>'db\<close>; what the Berkeley DB manual says about them is the predicate \<open>db_fifo\<close>. Every
  function runs under the mutex of its queue, which is modelled by its being one step; what
  other threads do to the queue while the receiver waits on the condition variable is a list
  of events. A failed assertion is \<open>None\<close>.
\<close>

section \<open>Berkeley DB\<close>

text \<open>Each method gives its error code (0 is success) and the database afterwards.\<close>

record 'db dbops =
  db_put :: "byte list \<Rightarrow> 'db \<Rightarrow> int \<times> 'db"
  db_consume :: "'db \<Rightarrow> int \<times> byte list \<times> 'db"
  db_truncate :: "'db \<Rightarrow> int \<times> 'db"
  db_get_re_len :: "'db \<Rightarrow> int \<times> nat"
  db_stat :: "'db \<Rightarrow> int \<times> nat"

text \<open>
  The documented behaviour of a queue database with records of \<open>reclen\<close> bytes: \<open>DB_APPEND\<close>
  adds a record at the end, padded to the record length, \<open>DB_CONSUME\<close> takes the first one,
  \<open>truncate\<close> discards all, and a call that fails changes nothing. The memory of a database is
  bounded, so that a put fails before there are \<open>2 ^ 31\<close> records.
\<close>

definition padded :: "nat \<Rightarrow> byte \<Rightarrow> byte list \<Rightarrow> byte list" where
  "padded reclen pad bs = bs @ replicate (reclen - length bs) pad"

definition db_fifo :: "'db dbops \<Rightarrow> ('db \<Rightarrow> byte list list) \<Rightarrow> nat \<Rightarrow> byte \<Rightarrow> bool" where
  "db_fifo ops content reclen pad \<longleftrightarrow>
     (\<forall>d bs e d'. db_put ops bs d = (e, d') \<longrightarrow>
        (if e = 0 then length bs \<le> reclen \<and> length (content d) + 1 < 2 ^ 31
           \<and> content d' = content d @ [padded reclen pad bs]
         else content d' = content d))
     \<and> (\<forall>d e bs d'. db_consume ops d = (e, bs, d') \<longrightarrow>
          (if e = 0 then content d = bs # content d' else content d' = content d))
     \<and> (\<forall>d e d'. db_truncate ops d = (e, d') \<longrightarrow> (if e = 0 then content d' = [] else content d' = content d))"

section \<open>One queue\<close>

definition QDB_FSTATUS_OK :: u32 where "QDB_FSTATUS_OK = 0"
definition QDB_FSTATUS_MAX_SOFT :: u32 where "QDB_FSTATUS_MAX_SOFT = 1"
definition QDB_FSTATUS_MAX_HARD :: u32 where "QDB_FSTATUS_MAX_HARD = 2"
definition QDB_FSTATUS_DBERROR :: u32 where "QDB_FSTATUS_DBERROR = 4"

lemmas qdb_flags = QDB_FSTATUS_OK_def QDB_FSTATUS_MAX_SOFT_def QDB_FSTATUS_MAX_HARD_def QDB_FSTATUS_DBERROR_def

record 'db nbspq_st =
  dbp :: 'db
  q_count :: u32
  f_memory_based :: bool
  f_qdb_status :: u32

definition set_qdb_status_flag :: "u32 \<Rightarrow> bool \<Rightarrow> 'db nbspq_st \<Rightarrow> 'db nbspq_st" where
  "set_qdb_status_flag flag onoff q =
     q\<lparr>f_qdb_status := (if onoff then f_qdb_status q OR flag else f_qdb_status q AND NOT flag)\<rparr>"

definition clear_qdb_status_flag :: "'db nbspq_st \<Rightarrow> 'db nbspq_st" where
  "clear_qdb_status_flag q = q\<lparr>f_qdb_status := QDB_FSTATUS_OK\<rparr>"

definition test_qdb_status_flag :: "u32 \<Rightarrow> 'db nbspq_st \<Rightarrow> bool" where
  "test_qdb_status_flag flag q = (f_qdb_status q AND flag \<noteq> 0)"

definition qdb_stat :: "'db dbops \<Rightarrow> 'db nbspq_st \<Rightarrow> int \<times> 'db nbspq_st" where
  "qdb_stat ops q =
     (case db_stat ops (dbp q) of (e, n) \<Rightarrow> (e, if e = 0 then q\<lparr>q_count := of_nat n\<rparr> else q))"

text \<open>
  Opening: the error code of the calls that create, configure and open the database, and
  whether there is memory and the mutex and condition can be made. The status, the database
  error, and the queue.
\<close>

definition qdb_open ::
  "'db dbops \<Rightarrow> int \<Rightarrow> bool \<Rightarrow> bool \<Rightarrow> 'db \<Rightarrow> int \<times> int \<times> 'db nbspq_st option" where
  "qdb_open ops open_error res_ok mem d =
     (if open_error \<noteq> 0 then (-1, open_error, None)
      else case qdb_stat ops \<lparr>dbp = d, q_count = 0, f_memory_based = mem, f_qdb_status = QDB_FSTATUS_OK\<rparr> of
          (e, q) \<Rightarrow> if e \<noteq> 0 then (-1, e, None) else if \<not> res_ok then (-1, 12, None) else (0, 0, Some q))"

text \<open>The status, the database error (if set), and the queue.\<close>

definition qdb_snd :: "'db dbops \<Rightarrow> byte list \<Rightarrow> 'db nbspq_st \<Rightarrow> int \<times> int option \<times> 'db nbspq_st" where
  "qdb_snd ops p q =
     (case db_put ops p (dbp q) of
        (e, d) \<Rightarrow>
          if e = 0 then (0, None, q\<lparr>dbp := d, q_count := q_count q + 1\<rparr>) else (-1, Some e, q\<lparr>dbp := d\<rparr>))"

text \<open>
  \<open>room\<close> is the size of the caller's buffer, \<open>None\<close> when the function is to allocate it (and
  \<open>mem_ok\<close> whether it can). The status, the database error, what \<open>*p\<close> holds afterwards if a
  record was taken, and the queue.
\<close>

definition qdb_rcv ::
  "'db dbops \<Rightarrow> nat option \<Rightarrow> bool \<Rightarrow> 'db nbspq_st \<Rightarrow> int \<times> int option \<times> byte list option \<times> 'db nbspq_st" where
  "qdb_rcv ops room mem_ok q =
     (case db_get_re_len ops (dbp q) of
        (e, reclen) \<Rightarrow>
          if e \<noteq> 0 then (-1, Some e, None, q)
          else if (case room of Some r \<Rightarrow> r < reclen | None \<Rightarrow> False) then (-1, Some 22, None, q)
          else if room = None \<and> \<not> mem_ok then (-1, Some 12, None, q)
          else case db_consume ops (dbp q) of
              (e, bs, d) \<Rightarrow>
                if e \<noteq> 0 then (-1, Some e, None, q\<lparr>dbp := d\<rparr>)
                else
                  let q = q\<lparr>dbp := d, q_count := q_count q - 1\<rparr> in
                  if f_memory_based q \<and> q_count q = 0 then
                    (case db_truncate ops (dbp q) of (e, d) \<Rightarrow> (e, None, Some bs, q\<lparr>dbp := d\<rparr>))
                  else (0, None, Some bs, q))"

section \<open>The table of queues\<close>

record 'db nbsp_qtable_st =
  softlimit :: int
  hardlimit :: int
  nbspq :: "'db nbspq_st list"

definition queue_soft_limit :: "int \<Rightarrow> int \<Rightarrow> bool" where
  "queue_soft_limit n limit = (limit > 0 \<and> n \<ge> limit)"

definition queue_hard_limit :: "int \<Rightarrow> int \<Rightarrow> bool" where
  "queue_hard_limit n limit = (limit > 0 \<and> n \<ge> limit)"

text \<open>What \<open>nbspqt_snd\<close> does to the queue, and the whole function on the table.\<close>

definition queue_snd ::
  "'db dbops \<Rightarrow> int \<Rightarrow> int \<Rightarrow> byte list \<Rightarrow> 'db nbspq_st \<Rightarrow> int \<times> int option \<times> 'db nbspq_st" where
  "queue_snd ops soft hard data q =
     (let n = sint (q_count q) in
      case (if queue_hard_limit n hard then (2, None, q)
            else qdb_snd ops data (set_qdb_status_flag QDB_FSTATUS_MAX_HARD False q)) of
        (status, err, q) \<Rightarrow>
          let (status, q) = (if status = 0
                then (if queue_soft_limit (n + 1) soft then 1 else 0, set_qdb_status_flag QDB_FSTATUS_DBERROR False q)
                else (status, q));
              q = (if status = 0 then set_qdb_status_flag QDB_FSTATUS_MAX_SOFT False q
                   else if status = -1 then set_qdb_status_flag QDB_FSTATUS_DBERROR True q
                   else if status = 1 then set_qdb_status_flag QDB_FSTATUS_MAX_SOFT True q
                   else if status = 2 then set_qdb_status_flag QDB_FSTATUS_MAX_HARD True q else q)
          in (status, err, q))"

definition nbspqt_snd ::
  "'db dbops \<Rightarrow> nat \<Rightarrow> byte list \<Rightarrow> 'db nbsp_qtable_st \<Rightarrow> (int \<times> int option \<times> 'db nbsp_qtable_st) option" where
  "nbspqt_snd ops type data qt =
     (if type \<ge> length (nbspq qt) then None
      else case queue_snd ops (softlimit qt) (hardlimit qt) data (nbspq qt ! type) of
          (status, err, q) \<Rightarrow> Some (status, err, qt\<lparr>nbspq := (nbspq qt)[type := q]\<rparr>))"

text \<open>
  The absolute time to wait until, from the time of day: seconds and nanoseconds. A wait with
  nanoseconds outside \<open>0 .. 10^9 - 1\<close> is an error (\<open>EINVAL\<close>, 22).
\<close>

definition queue_set_timeout :: "nat \<Rightarrow> nat \<times> nat \<Rightarrow> nat \<times> nat" where
  "queue_set_timeout timeout_ms tv =
     (case tv of (tv_sec, tv_usec) \<Rightarrow>
        (tv_sec + timeout_ms div 1000, tv_usec * 1000 + (timeout_ms mod 1000) * 1000000))"

text \<open>
  Waiting until the queue is not empty: each event is what the other threads did to the queue
  before the wait returned, and its code. When there is no event left the wait times out
  (\<open>ETIMEDOUT\<close>, 110).
\<close>

type_synonym 'db wait_event = "int \<times> ('db nbspq_st \<Rightarrow> 'db nbspq_st)"

fun queue_wait :: "bool \<Rightarrow> 'db wait_event list \<Rightarrow> 'db nbspq_st \<Rightarrow> int \<times> 'db nbspq_st" where
  "queue_wait valid [] q = (if q_count q \<noteq> 0 then (0, q) else if valid then (110, q) else (22, q))"
| "queue_wait valid ((e, f) # evs) q =
     (if q_count q \<noteq> 0 then (0, q)
      else if \<not> valid then (22, q)
      else if e \<noteq> 0 then (e, f q) else queue_wait valid evs (f q))"

definition queue_rcv ::
  "'db dbops \<Rightarrow> int \<Rightarrow> nat \<times> nat \<Rightarrow> 'db wait_event list \<Rightarrow> nat option \<Rightarrow> bool \<Rightarrow> 'db nbspq_st
     \<Rightarrow> int \<times> int option \<times> byte list option \<times> 'db nbspq_st" where
  "queue_rcv ops timeout_ms tv evs room mem_ok q =
     (let valid = (timeout_ms < 0 \<or> snd (queue_set_timeout (nat timeout_ms) tv) < 10 ^ 9) in
      case queue_wait valid evs q of
        (status, q) \<Rightarrow>
          if q_count q = 0 then (if status = 110 then (1, None, None, q) else (-1, Some (-1), None, q))
          else qdb_rcv ops room mem_ok q)"

definition nbspqt_rcv ::
  "'db dbops \<Rightarrow> int \<Rightarrow> nat \<times> nat \<Rightarrow> 'db wait_event list \<Rightarrow> nat option \<Rightarrow> bool \<Rightarrow> nat \<Rightarrow> 'db nbsp_qtable_st
     \<Rightarrow> (int \<times> int option \<times> byte list option \<times> 'db nbsp_qtable_st) option" where
  "nbspqt_rcv ops timeout_ms tv evs room mem_ok type qt =
     (if type \<ge> length (nbspq qt) then None
      else case queue_rcv ops timeout_ms tv evs room mem_ok (nbspq qt ! type) of
          (status, err, data, q) \<Rightarrow> Some (status, err, data, qt\<lparr>nbspq := (nbspq qt)[type := q]\<rparr>))"

definition nbspqt_n :: "'db nbsp_qtable_st \<Rightarrow> nat \<Rightarrow> u32" where
  "nbspqt_n qt type = q_count (nbspq qt ! type)"

definition nbspqt_test_qdb_status_flag :: "'db nbsp_qtable_st \<Rightarrow> nat \<Rightarrow> u32 \<Rightarrow> bool" where
  "nbspqt_test_qdb_status_flag qt type flag = test_qdb_status_flag flag (nbspq qt ! type)"

text \<open>
  Opening a table: one \<open>qdb_open\<close> for each queue (its error code, resources, database), left
  at the first error, where those opened are closed again and there is no table.
\<close>

fun open_queues :: "'db dbops \<Rightarrow> bool \<Rightarrow> (int \<times> bool \<times> 'db) list \<Rightarrow> int \<times> 'db nbspq_st list" where
  "open_queues ops mem [] = (0, [])"
| "open_queues ops mem ((e, r, d) # rest) =
     (case qdb_open ops e r mem d of
        (_, err, None) \<Rightarrow> (err, [])
      | (_, _, Some q) \<Rightarrow> (case open_queues ops mem rest of (err, qs) \<Rightarrow> (err, q # qs)))"

definition nbspqt_open ::
  "'db dbops \<Rightarrow> bool \<Rightarrow> int \<Rightarrow> int \<Rightarrow> (int \<times> bool \<times> 'db) list \<Rightarrow> int \<times> 'db nbsp_qtable_st option" where
  "nbspqt_open ops mem soft hard dbs =
     (case open_queues ops mem dbs of
        (err, qs) \<Rightarrow> (err, if err = 0 then Some \<lparr>softlimit = soft, hardlimit = hard, nbspq = qs\<rparr> else None))"

text \<open>
  Closing a queue, with the code of \<open>DB->close\<close>, and a table: all its queues are closed, and the
  first error is the one reported. The status and the database error (if set).
\<close>

definition qdb_n :: "'db nbspq_st \<Rightarrow> u32" where
  "qdb_n q = q_count q"

definition qdb_close :: "int \<Rightarrow> 'db nbspq_st \<Rightarrow> int \<times> int option" where
  "qdb_close close_error q = (if close_error \<noteq> 0 then (-1, Some close_error) else (0, None))"

fun close_queues :: "('db \<Rightarrow> int) \<Rightarrow> int \<times> int \<Rightarrow> 'db nbspq_st list \<Rightarrow> int \<times> int" where
  "close_queues close_error (status, dberror) [] = (status, dberror)"
| "close_queues close_error (status, dberror) (q # qs) =
     (case qdb_close (close_error (dbp q)) q of
        (status1, dberror1) \<Rightarrow>
          close_queues close_error
            (if status = 0 then (status1, case dberror1 of None \<Rightarrow> 0 | Some e \<Rightarrow> e) else (status, dberror)) qs)"

definition nbspqt_close :: "('db \<Rightarrow> int) \<Rightarrow> 'db nbsp_qtable_st \<Rightarrow> int \<times> int" where
  "nbspqt_close close_error qt = close_queues close_error (0, 0) (nbspq qt)"

lemma close_queues_ok: "(\<And>d. close_error d = 0) \<Longrightarrow> close_queues close_error (0, 0) qs = (0, 0)"
  by (induction qs) (auto simp: qdb_close_def)

text \<open>
  A thread that was cancelled while it waited has the mutex: unlocking it may fail, and failing
  because it was not locked by this thread (\<open>EPERM\<close>, 1) is no error.
\<close>

definition nbspqt_rcv_cleanup :: "int \<Rightarrow> nat \<Rightarrow> 'db nbsp_qtable_st \<Rightarrow> (int \<times> int option) option" where
  "nbspqt_rcv_cleanup unlock_status type qt =
     (if type \<ge> length (nbspq qt) then None
      else Some (if unlock_status \<noteq> 0 \<and> unlock_status \<noteq> 1 then (-1, Some unlock_status) else (0, None)))"

section \<open>The interface: a first-in first-out queue\<close>

text \<open>
  What the server and its client threads rely on: a send that reports 0 or 1 has added the
  item at the end (in the form the queue stores it), any other has added nothing, and a
  receive takes the first item or leaves the queue alone.
\<close>

datatype qop = QSnd "byte list" | QRcv

text \<open>A sequence of operations: the items accepted, the items received, and the queue.\<close>

fun run_queue ::
  "(byte list \<Rightarrow> 'q \<Rightarrow> int \<times> 'q) \<Rightarrow> ('q \<Rightarrow> byte list option \<times> 'q) \<Rightarrow> qop list \<Rightarrow> 'q
     \<Rightarrow> byte list list \<times> byte list list \<times> 'q" where
  "run_queue snd_q rcv_q [] q = ([], [], q)"
| "run_queue snd_q rcv_q (QSnd x # ops) q =
     (case snd_q x q of
        (s, q) \<Rightarrow> case run_queue snd_q rcv_q ops q of
            (acc, rec, q) \<Rightarrow> ((if s = 0 \<or> s = 1 then x # acc else acc), rec, q))"
| "run_queue snd_q rcv_q (QRcv # ops) q =
     (case rcv_q q of
        (r, q) \<Rightarrow> case run_queue snd_q rcv_q ops q of
            (acc, rec, q) \<Rightarrow> (acc, (case r of None \<Rightarrow> rec | Some x \<Rightarrow> x # rec), q))"

locale fifo_queue =
  fixes snd_q :: "byte list \<Rightarrow> 'q \<Rightarrow> int \<times> 'q"
    and rcv_q :: "'q \<Rightarrow> byte list option \<times> 'q"
    and items :: "'q \<Rightarrow> byte list list"
    and ok :: "'q \<Rightarrow> bool"
    and image :: "byte list \<Rightarrow> byte list"
  assumes snd_law: "ok q \<Longrightarrow> snd_q x q = (s, q') \<Longrightarrow>
      ok q' \<and> items q' = (if s = 0 \<or> s = 1 then items q @ [image x] else items q)"
    and rcv_law: "ok q \<Longrightarrow> rcv_q q = (r, q') \<Longrightarrow>
      ok q' \<and> items q = (case r of None \<Rightarrow> items q' | Some x \<Rightarrow> x # items q')"
begin

lemma run_fifo:
  "ok q \<Longrightarrow> run_queue snd_q rcv_q ops q = (acc, rec, q') \<Longrightarrow> ok q' \<and> items q @ map image acc = rec @ items q'"
proof (induction ops arbitrary: q acc rec q')
  case Nil
  then show ?case by simp
next
  case (Cons op ops)
  show ?case
  proof (cases op)
    case (QSnd x)
    obtain s q1 where s: "snd_q x q = (s, q1)" by fastforce
    obtain acc1 rec1 q2 where r: "run_queue snd_q rcv_q ops q1 = (acc1, rec1, q2)" by (metis prod_cases3)
    note law = snd_law [OF Cons.prems(1) s]
    from Cons.IH [OF conjunct1 [OF law] r] law Cons.prems(2) s r QSnd show ?thesis by (auto split: if_splits)
  next
    case QRcv
    obtain x q1 where s: "rcv_q q = (x, q1)" by fastforce
    obtain acc1 rec1 q2 where r: "run_queue snd_q rcv_q ops q1 = (acc1, rec1, q2)" by (metis prod_cases3)
    note law = rcv_law [OF Cons.prems(1) s]
    from Cons.IH [OF conjunct1 [OF law] r] law Cons.prems(2) s r QRcv show ?thesis by (auto split: option.splits)
  qed
qed

lemma nothing_invented:
  assumes "ok q" "items q = []" "run_queue snd_q rcv_q ops q = (acc, rec, q')"
  shows "rec = take (length rec) (map image acc)"
proof -
  have "map image acc = rec @ items q'" using run_fifo [OF assms(1,3)] assms(2) by simp
  then show ?thesis by simp
qed

end

text \<open>
  The queues of this library are such queues: their invariant is that the database behaves as
  documented and the counter is the number of records.
\<close>

definition queue_ok :: "'db dbops \<Rightarrow> ('db \<Rightarrow> byte list list) \<Rightarrow> nat \<Rightarrow> byte \<Rightarrow> 'db nbspq_st \<Rightarrow> bool" where
  "queue_ok ops content reclen pad q \<longleftrightarrow> db_fifo ops content reclen pad
     \<and> length (content (dbp q)) < 2 ^ 31 \<and> q_count q = of_nat (length (content (dbp q)))"

definition snd_view :: "'db dbops \<Rightarrow> int \<Rightarrow> int \<Rightarrow> byte list \<Rightarrow> 'db nbspq_st \<Rightarrow> int \<times> 'db nbspq_st" where
  "snd_view ops soft hard data q = (case queue_snd ops soft hard data q of (status, _, q) \<Rightarrow> (status, q))"

definition rcv_view :: "'db dbops \<Rightarrow> int \<Rightarrow> nat \<times> nat \<Rightarrow> nat option \<Rightarrow> bool \<Rightarrow> 'db nbspq_st \<Rightarrow> byte list option \<times> 'db nbspq_st" where
  "rcv_view ops ms tv room mem_ok q = (case queue_rcv ops ms tv [] room mem_ok q of (_, _, data, q) \<Rightarrow> (data, q))"

lemma set_flag_simps [simp]:
  "dbp (set_qdb_status_flag f b q) = dbp q" "q_count (set_qdb_status_flag f b q) = q_count q"
  "f_memory_based (set_qdb_status_flag f b q) = f_memory_based q"
  by (simp_all add: set_qdb_status_flag_def)

lemma sint_count:
  assumes "queue_ok ops content reclen pad q"
  shows "sint (q_count q) = int (length (content (dbp q)))"
proof -
  have "int (length (content (dbp q))) < 2 ^ 31"
    using assms by (simp add: queue_ok_def)
  then show ?thesis
    using assms by (simp add: queue_ok_def signed_of_nat signed_take_bit_int_eq_self)
qed

lemma queue_snd_cases:
  assumes "queue_ok ops content reclen pad q" "queue_snd ops soft hard data q = (s, err, q')"
  defines "n \<equiv> int (length (content (dbp q)))"
  shows "(0 < hard \<and> n \<ge> hard \<longrightarrow> s = 2 \<and> dbp q' = dbp q \<and> q_count q' = q_count q)
    \<and> (\<not> (0 < hard \<and> n \<ge> hard) \<longrightarrow> (\<exists>e d. db_put ops data (dbp q) = (e, d) \<and> dbp q' = d
         \<and> (if e = 0 then q_count q' = q_count q + 1 \<and> s = (if 0 < soft \<and> soft \<le> n + 1 then 1 else 0)
            else q_count q' = q_count q \<and> s = -1 \<and> err = Some e)))"
proof (cases "0 < hard \<and> n \<ge> hard")
  case True
  with assms(2) sint_count [OF assms(1)] show ?thesis
    by (simp add: queue_snd_def queue_hard_limit_def Let_def n_def) auto
next
  case False
  obtain e d where e: "db_put ops data (dbp q) = (e, d)" by fastforce
  have h: "\<not> queue_hard_limit (sint (q_count q)) hard"
    using False sint_count [OF assms(1)] by (simp add: queue_hard_limit_def n_def)
  show ?thesis
  proof (cases "e = 0")
    case True
    with assms(2) e h False sint_count [OF assms(1)] show ?thesis
      by (cases "0 < soft \<and> soft \<le> n + 1") (auto simp: queue_snd_def qdb_snd_def queue_soft_limit_def Let_def n_def)
  next
    case e0: False
    with assms(2) e h False show ?thesis by (auto simp: queue_snd_def qdb_snd_def Let_def)
  qed
qed

lemma snd_view_law:
  assumes "queue_ok ops content reclen pad q" "snd_view ops soft hard x q = (s, q')"
  shows "queue_ok ops content reclen pad q'
    \<and> content (dbp q') = (if s = 0 \<or> s = 1 then content (dbp q) @ [padded reclen pad x] else content (dbp q))"
proof -
  obtain err where r: "queue_snd ops soft hard x q = (s, err, q')"
    using assms(2) by (auto simp: snd_view_def split: prod.splits)
  note c = queue_snd_cases [OF assms(1) r]
  have f: "db_fifo ops content reclen pad" "q_count q = of_nat (length (content (dbp q)))" "length (content (dbp q)) < 2 ^ 31"
    using assms(1) by (auto simp: queue_ok_def)
  show ?thesis
  proof (cases "0 < hard \<and> int (length (content (dbp q))) \<ge> hard")
    case True
    with c f show ?thesis by (auto simp: queue_ok_def)
  next
    case False
    with c obtain e d where e: "db_put ops x (dbp q) = (e, d)" "dbp q' = d"
      and r: "if e = 0 then q_count q' = q_count q + 1
            \<and> s = (if 0 < soft \<and> soft \<le> int (length (content (dbp q))) + 1 then 1 else 0)
          else q_count q' = q_count q \<and> s = -1 \<and> err = Some e"
      by blast
    then have r: "if e = 0 then q_count q' = q_count q + 1 \<and> s \<in> {0, 1} else q_count q' = q_count q \<and> s = -1"
      by (simp split: if_splits)
    from e have "if e = 0 then length (content (dbp q)) + 1 < 2 ^ 31 \<and> content d = content (dbp q) @ [padded reclen pad x]
        else content d = content (dbp q)"
      using f(1) unfolding db_fifo_def by (metis (full_types))
    with e r f show ?thesis by (auto simp: queue_ok_def split: if_splits)
  qed
qed

lemma rcv_view_law:
  assumes "queue_ok ops content reclen pad q" "rcv_view ops ms tv room mem_ok q = (r, q')"
  shows "queue_ok ops content reclen pad q'
    \<and> content (dbp q) = (case r of None \<Rightarrow> content (dbp q') | Some x \<Rightarrow> x # content (dbp q'))"
proof -
  have f: "db_fifo ops content reclen pad" "q_count q = of_nat (length (content (dbp q)))" "length (content (dbp q)) < 2 ^ 31"
    using assms(1) by (auto simp: queue_ok_def)
  obtain e bs d where c: "db_consume ops (dbp q) = (e, bs, d)" by (metis prod_cases3)
  then have cl: "if e = 0 then content (dbp q) = bs # content d else content d = content (dbp q)"
    using f(1) unfolding db_fifo_def by (metis (full_types))
  obtain e2 d2 where t: "db_truncate ops d = (e2, d2)" by fastforce
  then have tl: "if e2 = 0 then content d2 = [] else content d2 = content d"
    using f(1) unfolding db_fifo_def by (metis (full_types))
  have empty: "content d = []" if "e = 0" "q_count q - 1 = 0"
  proof -
    have "(of_nat (length (content d)) :: u32) = 0" using that cl f(2) by simp
    moreover have "length (content d) < 2 ^ 32" using cl f(3) that by simp
    ultimately show ?thesis
      using nat_dvd_not_less [of "length (content d)" "2 ^ 32"] by (auto simp: word_of_nat_eq_0_iff)
  qed
  have "r = None \<and> dbp q' = dbp q \<and> q_count q' = q_count q
    \<or> e \<noteq> 0 \<and> r = None \<and> dbp q' = d \<and> q_count q' = q_count q
    \<or> e = 0 \<and> r = Some bs \<and> q_count q' = q_count q - 1 \<and> (dbp q' = d \<or> q_count q - 1 = 0 \<and> dbp q' = d2)"
    using assms(2) c t
    by (auto simp: rcv_view_def queue_rcv_def qdb_rcv_def Let_def split: prod.splits if_splits)
  then show ?thesis
    using f cl tl empty by (auto simp: queue_ok_def split: if_splits)
qed

interpretation nq: fifo_queue "snd_view ops soft hard" "rcv_view ops ms tv room mem_ok" "\<lambda>q. content (dbp q)"
    "queue_ok ops content reclen pad" "padded reclen pad"
  for ops soft hard ms tv room mem_ok content reclen pad
  by unfold_locales (rule snd_view_law, assumption+, rule rcv_view_law, assumption+)

text \<open>A database to evaluate on: a list of records of eight bytes.\<close>

definition list_db :: "byte list list dbops" where
  "list_db = \<lparr>db_put = (\<lambda>bs d. if length bs \<le> 8 \<and> length d + 1 < 2 ^ 31 then (0, d @ [padded 8 32 bs]) else (22, d)),
     db_consume = (\<lambda>d. case d of [] \<Rightarrow> (1, [], []) | x # d \<Rightarrow> (0, x, d)),
     db_truncate = (\<lambda>d. (0, [])), db_get_re_len = (\<lambda>d. (0, 8)), db_stat = (\<lambda>d. (0, length d))\<rparr>"

lemma list_db_fifo: "db_fifo list_db id 8 32"
  by (auto simp: db_fifo_def list_db_def split: list.splits)

definition queue0 :: "byte list list nbspq_st" where
  "queue0 = \<lparr>dbp = [], q_count = 0, f_memory_based = True, f_qdb_status = 0\<rparr>"

lemma queue0_ok: "queue_ok list_db id 8 32 queue0"
  using list_db_fifo by (simp add: queue_ok_def queue0_def)

text \<open>
  C14. A client queue loses, repeats and reorders nothing: for any sequence of sends and
  receives, with any failures of the database and refusals at the limits, the records
  received followed by those still in the queue are the records that were there followed by
  the packets the sends accepted, each padded to the record length.
\<close>

theorem queue_is_fifo:
  assumes "queue_ok ops content reclen pad q"
    and "run_queue (snd_view ops soft hard) (rcv_view ops ms tv room mem_ok) acts q = (acc, rec, q')"
  shows "content (dbp q) @ map (padded reclen pad) acc = rec @ content (dbp q')
    \<and> queue_ok ops content reclen pad q'"
  using nq.run_fifo [OF assms] by simp

theorem queue_is_fifo_witness:
  "\<exists>acc rec q'. run_queue (snd_view list_db 0 2) (rcv_view list_db 0 (0, 0) None True)
       [QSnd [1], QSnd [2], QSnd [3], QRcv] queue0 = (acc, rec, q')
     \<and> map (padded 8 32) acc = rec @ id (dbp q')"
proof -
  obtain acc rec q' where r: "run_queue (snd_view list_db 0 2) (rcv_view list_db 0 (0, 0) None True)
      [QSnd [1], QSnd [2], QSnd [3], QRcv] queue0 = (acc, rec, q')"
    by (metis prod_cases3)
  show ?thesis using queue_is_fifo [OF queue0_ok r] r by (auto simp: queue0_def)
qed

text \<open>
  C35. The limits of a queue: at the hard limit, if there is one, a packet is refused and the
  queue left as it is; below it the packet is added unless the database fails, and the soft
  limit is reported exactly when the queue has reached it. A queue within the hard limit
  never grows beyond it.
\<close>

theorem queue_limits:
  assumes "queue_ok ops content reclen pad q" "queue_snd ops soft hard data q = (s, err, q')"
    and "n = int (length (content (dbp q)))"
  shows "(0 < hard \<and> n \<ge> hard \<longrightarrow> s = 2 \<and> content (dbp q') = content (dbp q))
    \<and> (hard \<le> 0 \<or> n < hard \<longrightarrow> s = -1 \<and> content (dbp q') = content (dbp q)
        \<or> s = (if 0 < soft \<and> soft \<le> n + 1 then 1 else 0) \<and> length (content (dbp q')) = length (content (dbp q)) + 1)
    \<and> (0 < hard \<and> n \<le> hard \<longrightarrow> int (length (content (dbp q'))) \<le> hard)"
proof -
  have v: "snd_view ops soft hard data q = (s, q')" using assms(2) by (simp add: snd_view_def)
  note law = snd_view_law [OF assms(1) v] and c = queue_snd_cases [OF assms(1,2)]
  then show ?thesis using assms(3) by (auto split: if_splits)
qed

theorem queue_limits_witness:
  "\<exists>s err q'. queue_snd list_db 1 2 [7] queue0 = (s, err, q') \<and> int (length (id (dbp q'))) \<le> 2"
proof -
  obtain s err q' where r: "queue_snd list_db 1 2 [7] queue0 = (s, err, q')" by (metis prod_cases3)
  show ?thesis using queue_limits [OF queue0_ok r refl] r by (auto simp: queue0_def)
qed

text \<open>
  The time to wait for a packet is not normalised: the microseconds of the clock and the
  milliseconds of the timeout are added up without a carry. When they make a second or more,
  waiting on an empty queue is reported as a database error at once, instead of as a queue
  that stayed empty for the timeout.
\<close>

theorem rcv_timeout_not_normalised:
  assumes "q_count q = 0" "0 \<le> ms" "usec < 1000000"
  shows "queue_rcv ops ms (sec, usec) [] room mem_ok q =
    (if usec + (nat ms mod 1000) * 1000 < 1000000 then (1, None, None, q) else (-1, Some (-1), None, q))"
  using assms by (simp add: queue_rcv_def queue_set_timeout_def Let_def)

theorem rcv_timeout_not_normalised_witness:
  "queue_rcv list_db 500 (0, 600000) [] None True queue0 = (-1, Some (-1), None, queue0)"
  using rcv_timeout_not_normalised [of queue0 500 600000 list_db 0 None True] by (simp add: queue0_def)

end
