(* ===== verification/Conn.thy ===== *)
theory Conn
  imports Qdb "HOL-Library.Multiset"
begin

text \<open>
  \<open>src/libconnth\<close>: the table of connections of the server. \<open>cs.c\<close> (statistics of a
  connection), \<open>cq.c\<close> (its queue), \<open>ce.c\<close> (one element), \<open>conn.c\<close> (the table) and \<open>poll.c\<close>
  (new connections, hangups, requests). The mutexes are not modelled: each function is one
  step. The two parallel arrays of the table are lists of the \<open>n\<close> elements in use; \<open>nmax\<close> is
  the size allocated. A pointer is null, valid, or dangling (its object was freed), and a use of
  a dangling pointer or a failed assertion is \<open>None\<close>. What \<open>accept\<close>, \<open>poll\<close> and the like
  answer, and the callbacks of the application, are arguments.
\<close>

section \<open>Statistics of a connection\<close>

record conn_stats_st =
  cs_ctime :: nat
  errors_ctime :: u32
  packets_ctime :: u32
  bytes_ctime :: nat
  cs_rtime :: nat
  errors_rtime :: u32
  packets_rtime :: u32
  bytes_rtime :: nat

definition conn_stats_init :: "nat \<Rightarrow> conn_stats_st" where
  "conn_stats_init now = \<lparr>cs_ctime = now, errors_ctime = 0, packets_ctime = 0, bytes_ctime = 0,
     cs_rtime = now, errors_rtime = 0, packets_rtime = 0, bytes_rtime = 0\<rparr>"

definition conn_stats_reset :: "nat \<Rightarrow> conn_stats_st \<Rightarrow> conn_stats_st" where
  "conn_stats_reset now cs = cs\<lparr>cs_rtime := now, errors_rtime := 0, packets_rtime := 0, bytes_rtime := 0\<rparr>"

definition conn_stats_update_packets :: "nat \<Rightarrow> conn_stats_st \<Rightarrow> conn_stats_st" where
  "conn_stats_update_packets packet_size cs =
     cs\<lparr>packets_rtime := packets_rtime cs + 1, bytes_rtime := bytes_rtime cs + packet_size,
        packets_ctime := packets_ctime cs + 1, bytes_ctime := bytes_ctime cs + packet_size\<rparr>"

definition conn_stats_update_errors :: "conn_stats_st \<Rightarrow> conn_stats_st" where
  "conn_stats_update_errors cs = cs\<lparr>errors_rtime := errors_rtime cs + 1, errors_ctime := errors_ctime cs + 1\<rparr>"

section \<open>The queue of a connection\<close>

record 'db connqueue_st =
  cq_qt :: "'db nbsp_qtable_st"
  data_size_max :: nat

record connqueue_param_st =
  cp_reclen :: nat
  cp_softlimit :: int
  cp_hardlimit :: int

text \<open>A table of one queue in memory; \<open>dbs\<close> is the outcome of opening it, \<open>mem_ok\<close> of \<open>malloc\<close>.\<close>

definition connqueue_open ::
  "'db dbops \<Rightarrow> bool \<Rightarrow> int \<times> bool \<times> 'db \<Rightarrow> connqueue_param_st \<Rightarrow> int \<times> 'db connqueue_st option" where
  "connqueue_open ops mem_ok d cp =
     (if \<not> mem_ok then (0, None)
      else case nbspqt_open ops True (cp_softlimit cp) (cp_hardlimit cp) [d] of
          (err, None) \<Rightarrow> (err, None)
        | (err, Some qt) \<Rightarrow> (err, Some \<lparr>cq_qt = qt, data_size_max = cp_reclen cp\<rparr>))"

definition connqueue_snd ::
  "'db dbops \<Rightarrow> byte list \<Rightarrow> 'db connqueue_st \<Rightarrow> (int \<times> int \<times> 'db connqueue_st) option" where
  "connqueue_snd ops data cq =
     map_option (\<lambda>(status, err, qt). (status, (case err of None \<Rightarrow> 0 | Some e \<Rightarrow> e), cq\<lparr>cq_qt := qt\<rparr>))
       (nbspqt_snd ops 0 data (cq_qt cq))"

text \<open>The data is handed to the caller only when the status is 0.\<close>

definition connqueue_rcv ::
  "'db dbops \<Rightarrow> int \<Rightarrow> nat \<times> nat \<Rightarrow> 'db wait_event list \<Rightarrow> 'db connqueue_st
     \<Rightarrow> (int \<times> int \<times> byte list option \<times> 'db connqueue_st) option" where
  "connqueue_rcv ops timeout_ms tv evs cq =
     map_option (\<lambda>(status, err, data, qt).
         (status, (case err of None \<Rightarrow> 0 | Some e \<Rightarrow> e), (if status = 0 then data else None),
          cq\<lparr>cq_qt := qt,
             data_size_max := (case data of Some d \<Rightarrow> if status = 0 then max (data_size_max cq) (length d) else data_size_max cq
                                          | None \<Rightarrow> data_size_max cq)\<rparr>))
       (nbspqt_rcv ops timeout_ms tv evs (Some (data_size_max cq)) True 0 (cq_qt cq))"

definition connqueue_close :: "bool \<Rightarrow> 'db connqueue_st \<Rightarrow> int \<times> int" where
  "connqueue_close close_ok cq = nbspqt_close (\<lambda>_. if close_ok then 0 else 1) (cq_qt cq)"

definition connqueue_rcv_cleanup :: "int \<Rightarrow> 'db connqueue_st \<Rightarrow> (int \<times> int option) option" where
  "connqueue_rcv_cleanup unlock_status cq = nbspqt_rcv_cleanup unlock_status 0 (cq_qt cq)"

lemma connqueue_close_ok: "connqueue_close True cq = (0, 0)"
  by (simp add: connqueue_close_def nbspqt_close_def close_queues_ok)

definition connqueue_n :: "'db connqueue_st \<Rightarrow> u32" where
  "connqueue_n cq = nbspqt_n (cq_qt cq) 0"

definition connqueue_test_maxhard_flag :: "'db connqueue_st \<Rightarrow> bool" where
  "connqueue_test_maxhard_flag cq = nbspqt_test_qdb_status_flag (cq_qt cq) 0 QDB_FSTATUS_MAX_HARD"
definition connqueue_test_maxsoft_flag :: "'db connqueue_st \<Rightarrow> bool" where
  "connqueue_test_maxsoft_flag cq = nbspqt_test_qdb_status_flag (cq_qt cq) 0 QDB_FSTATUS_MAX_SOFT"
definition connqueue_test_dberror_flag :: "'db connqueue_st \<Rightarrow> bool" where
  "connqueue_test_dberror_flag cq = nbspqt_test_qdb_status_flag (cq_qt cq) 0 QDB_FSTATUS_DBERROR"

section \<open>An element of the table\<close>

datatype 'a ptr = Null | Ptr 'a | Dangling

datatype conn_type = CONN_TYPE_NONE | CONN_TYPE_SERVER_LOCAL | CONN_TYPE_SERVER_NET
  | CONN_TYPE_CLIENT_LOCAL | CONN_TYPE_CLIENT_NET | CONN_TYPE_APPLICATION

record thread_info_st =
  f_thread_created :: bool
  f_thread_finished :: bool
  connection_status :: int
  client_fd :: int

record client_options_st =
  co_write_timeout_ms :: int
  co_write_timeout_retry :: int
  co_reconnect_wait_sleep_secs :: int
  co_reconnect_wait_sleep_retry :: int
  co_queue_read_timeout_ms :: int

text \<open>
  \<open>appdata\<close> is what the application stores there: the protocol of the client; \<open>filterdata\<close>
  is not used by this program.
\<close>

record 'db conn_element_st =
  ce_cs :: conn_stats_st
  ce_type :: conn_type
  ce_pid :: int
  ce_ip :: "byte list option"
  ce_name :: "byte list option"
  ce_fd :: int
  ce_opts :: client_options_st
  appdata :: "int option"
  filterdata :: "int option"
  ce_cq :: "'db connqueue_st ptr"
  threadinfo :: "thread_info_st option"
  f_exit :: bool

definition conn_element_init1 ::
  "nat \<Rightarrow> int \<Rightarrow> conn_type \<Rightarrow> int \<Rightarrow> byte list option \<Rightarrow> byte list option \<Rightarrow> client_options_st \<Rightarrow> 'db conn_element_st" where
  "conn_element_init1 now fd ty pid ip name opts =
     \<lparr>ce_cs = conn_stats_init now, ce_type = ty, ce_pid = pid, ce_ip = ip, ce_name = name, ce_fd = fd, ce_opts = opts,
      appdata = None, filterdata = None, ce_cq = Null, threadinfo = None, f_exit = False\<rparr>"

text \<open>
  The last step: thread information, queue, thread. \<open>res_ok\<close>: memory and mutex; \<open>thread_ok\<close>:
  the thread could be created. When it could not, the queue is closed but the pointer to it
  stays in the element.
\<close>

definition conn_element_init4 ::
  "'db dbops \<Rightarrow> bool \<Rightarrow> bool \<Rightarrow> int \<times> bool \<times> 'db \<Rightarrow> bool \<Rightarrow> connqueue_param_st \<Rightarrow> 'db conn_element_st
     \<Rightarrow> int \<times> int \<times> 'db conn_element_st" where
  "conn_element_init4 ops res_ok cq_mem_ok d thread_ok cp ce =
     (if \<not> res_ok then (-1, 0, ce\<lparr>threadinfo := None\<rparr>)
      else case connqueue_open ops cq_mem_ok d cp of
          (err, None) \<Rightarrow> (-1, err, ce\<lparr>ce_cq := Null, threadinfo := None\<rparr>)
        | (err, Some cq) \<Rightarrow>
            if \<not> thread_ok then (-1, err, ce\<lparr>ce_cq := Dangling, threadinfo := None\<rparr>)
            else (0, err, ce\<lparr>ce_cq := Ptr cq,
                   threadinfo := Some \<lparr>f_thread_created = True, f_thread_finished = False, connection_status = 0,
                                       client_fd = ce_fd ce\<rparr>\<rparr>))"

text \<open>
  The status (\<open>close_ok\<close>: the database could be closed); the element is gone afterwards. A thread
  is stopped first, by \<open>client_thread_kill\<close> of the application, which always gives 0.
\<close>

definition conn_element_release :: "bool \<Rightarrow> 'db conn_element_st \<Rightarrow> int option" where
  "conn_element_release close_ok ce =
     (case ce_cq ce of Dangling \<Rightarrow> None | Null \<Rightarrow> Some 0 | Ptr cq \<Rightarrow> Some (fst (connqueue_close close_ok cq)))"

definition conn_element_isclient :: "'db conn_element_st \<Rightarrow> bool" where
  "conn_element_isclient ce = (ce_type ce = CONN_TYPE_CLIENT_LOCAL \<or> ce_type ce = CONN_TYPE_CLIENT_NET)"
definition conn_element_isnetclient :: "'db conn_element_st \<Rightarrow> bool" where
  "conn_element_isnetclient ce = (ce_type ce = CONN_TYPE_CLIENT_NET)"
definition conn_element_isserver :: "'db conn_element_st \<Rightarrow> bool" where
  "conn_element_isserver ce = (ce_type ce = CONN_TYPE_SERVER_LOCAL \<or> ce_type ce = CONN_TYPE_SERVER_NET)"

definition conn_element_get_created_flag :: "'db conn_element_st \<Rightarrow> bool" where
  "conn_element_get_created_flag ce = (case threadinfo ce of None \<Rightarrow> False | Some t \<Rightarrow> f_thread_created t)"
definition conn_element_get_finished_flag :: "'db conn_element_st \<Rightarrow> bool" where
  "conn_element_get_finished_flag ce = (case threadinfo ce of None \<Rightarrow> False | Some t \<Rightarrow> f_thread_finished t)"
definition conn_element_set_finished_flag :: "'db conn_element_st \<Rightarrow> 'db conn_element_st option" where
  "conn_element_set_finished_flag ce =
     (case threadinfo ce of None \<Rightarrow> None | Some t \<Rightarrow> Some (ce\<lparr>threadinfo := Some (t\<lparr>f_thread_finished := True\<rparr>)\<rparr>))"

definition conn_element_isnetclient_running :: "'db conn_element_st \<Rightarrow> bool" where
  "conn_element_isnetclient_running ce =
     (conn_element_isnetclient ce \<and> conn_element_get_created_flag ce \<and> \<not> conn_element_get_finished_flag ce)"
definition conn_element_isnetclient_stoped :: "'db conn_element_st \<Rightarrow> bool" where
  "conn_element_isnetclient_stoped ce =
     (conn_element_isnetclient ce \<and> conn_element_get_created_flag ce \<and> conn_element_get_finished_flag ce)"

definition conn_element_get_nameorip :: "'db conn_element_st \<Rightarrow> byte list option" where
  "conn_element_get_nameorip ce = (case ce_name ce of Some n \<Rightarrow> Some n | None \<Rightarrow> ce_ip ce)"

definition conn_element_get_connection_status :: "'db conn_element_st \<Rightarrow> int" where
  "conn_element_get_connection_status ce = (case threadinfo ce of None \<Rightarrow> 0 | Some t \<Rightarrow> connection_status t)"
definition conn_element_set_connection_status :: "int \<Rightarrow> 'db conn_element_st \<Rightarrow> 'db conn_element_st option" where
  "conn_element_set_connection_status fd ce =
     (case threadinfo ce of
        None \<Rightarrow> None
      | Some t \<Rightarrow> Some (ce\<lparr>threadinfo := Some (t\<lparr>client_fd := fd, connection_status := (if fd = -1 then 1 else 0)\<rparr>)\<rparr>))"

text \<open>Without the mutex: an element without a thread is an error here, while above its connection is good.\<close>

definition conn_element_get_connection_status_un :: "'db conn_element_st \<Rightarrow> int" where
  "conn_element_get_connection_status_un ce = (case threadinfo ce of None \<Rightarrow> -1 | Some t \<Rightarrow> connection_status t)"

definition conn_element_init2 :: "int \<Rightarrow> 'db conn_element_st \<Rightarrow> 'db conn_element_st" where
  "conn_element_init2 data ce = ce\<lparr>appdata := Some data\<rparr>"
definition conn_element_init3 :: "int \<Rightarrow> 'db conn_element_st \<Rightarrow> 'db conn_element_st" where
  "conn_element_init3 data ce = ce\<lparr>filterdata := Some data\<rparr>"
definition conn_element_set_fd :: "int \<Rightarrow> 'db conn_element_st \<Rightarrow> 'db conn_element_st" where
  "conn_element_set_fd fd ce = ce\<lparr>ce_fd := fd\<rparr>"
definition conn_element_set_write_timeout_ms :: "int \<Rightarrow> 'db conn_element_st \<Rightarrow> 'db conn_element_st" where
  "conn_element_set_write_timeout_ms v ce = ce\<lparr>ce_opts := (ce_opts ce)\<lparr>co_write_timeout_ms := v\<rparr>\<rparr>"
definition conn_element_set_write_timeout_retry :: "int \<Rightarrow> 'db conn_element_st \<Rightarrow> 'db conn_element_st" where
  "conn_element_set_write_timeout_retry v ce = ce\<lparr>ce_opts := (ce_opts ce)\<lparr>co_write_timeout_retry := v\<rparr>\<rparr>"
definition conn_element_set_reconnect_wait_sleep_secs :: "int \<Rightarrow> 'db conn_element_st \<Rightarrow> 'db conn_element_st" where
  "conn_element_set_reconnect_wait_sleep_secs v ce = ce\<lparr>ce_opts := (ce_opts ce)\<lparr>co_reconnect_wait_sleep_secs := v\<rparr>\<rparr>"
definition conn_element_set_reconnect_wait_sleep_retry :: "int \<Rightarrow> 'db conn_element_st \<Rightarrow> 'db conn_element_st" where
  "conn_element_set_reconnect_wait_sleep_retry v ce = ce\<lparr>ce_opts := (ce_opts ce)\<lparr>co_reconnect_wait_sleep_retry := v\<rparr>\<rparr>"
definition conn_element_set_queue_read_timeout_ms :: "int \<Rightarrow> 'db conn_element_st \<Rightarrow> 'db conn_element_st" where
  "conn_element_set_queue_read_timeout_ms v ce = ce\<lparr>ce_opts := (ce_opts ce)\<lparr>co_queue_read_timeout_ms := v\<rparr>\<rparr>"

definition conn_element_set_exit_flag :: "'db conn_element_st \<Rightarrow> 'db conn_element_st" where
  "conn_element_set_exit_flag ce = ce\<lparr>f_exit := True\<rparr>"

text \<open>
  The report of a client thread: nothing unless enough packets went out (\<open>maxcount > 0\<close>) or the
  period is over; \<open>fopen_ok\<close>: the log file can be opened. The status, the element, and whether
  a line was written.
\<close>

definition conn_element_report_cstats ::
  "bool \<Rightarrow> nat \<Rightarrow> int \<Rightarrow> nat \<Rightarrow> 'db conn_element_st \<Rightarrow> int \<times> 'db conn_element_st \<times> bool" where
  "conn_element_report_cstats fopen_ok now maxcount period ce =
     (if (if maxcount > 0 then packets_rtime (ce_cs ce) < of_int maxcount else now < cs_rtime (ce_cs ce) + period)
      then (0, ce, False)
      else if \<not> fopen_ok then (-1, ce, False)
      else (0, ce\<lparr>ce_cs := conn_stats_reset now (ce_cs ce)\<rparr>, True))"

section \<open>The table\<close>

text \<open>An entry of the poll array: descriptor, \<open>POLLIN\<close>, and any of \<open>POLLHUP\<close>, \<open>POLLERR\<close>, \<open>POLLNVAL\<close>.\<close>

record pollfd =
  p_fd :: int
  p_in :: bool
  p_bad :: bool

record 'db conn_table_st =
  ct_pfd :: "pollfd list"
  ct_ce :: "'db conn_element_st list"
  nmax :: nat
  nclients :: int
  nclientsmax :: int
  ct_status :: int

definition conn_table_create :: "int \<Rightarrow> 'db conn_table_st" where
  "conn_table_create maxclients =
     \<lparr>ct_pfd = [], ct_ce = [], nmax = 1, nclients = 0, nclientsmax = maxclients, ct_status = 0\<rparr>"

definition conn_table_get_numentries :: "'db conn_table_st \<Rightarrow> nat" where
  "conn_table_get_numentries ct = length (ct_ce ct)"

definition conn_table_grow :: "bool \<Rightarrow> 'db conn_table_st \<Rightarrow> int \<times> 'db conn_table_st" where
  "conn_table_grow mem_ok ct = (if \<not> mem_ok then (-1, ct) else (0, ct\<lparr>nmax := nmax ct * 2\<rparr>))"

definition conn_table_add_element ::
  "bool \<Rightarrow> nat \<Rightarrow> int \<Rightarrow> conn_type \<Rightarrow> int \<Rightarrow> byte list option \<Rightarrow> byte list option \<Rightarrow> client_options_st
     \<Rightarrow> 'db conn_table_st \<Rightarrow> int \<times> 'db conn_table_st" where
  "conn_table_add_element mem_ok now fd ty pid ip name opts ct =
     (case (if conn_table_get_numentries ct = nmax ct then conn_table_grow mem_ok ct else (0, ct)) of
        (status, ct) \<Rightarrow>
          if status \<noteq> 0 then (-1, ct)
          else (0, ct\<lparr>ct_pfd := ct_pfd ct @ [\<lparr>p_fd = fd, p_in = False, p_bad = False\<rparr>],
                     ct_ce := ct_ce ct @ [conn_element_init1 now fd ty pid ip name opts],
                     nclients := (if ty = CONN_TYPE_CLIENT_NET then nclients ct + 1 else nclients ct), ct_status := 0\<rparr>))"

text \<open>\<open>memmove\<close> of what is above element \<open>i\<close>.\<close>

definition remove_nth :: "nat \<Rightarrow> 'a list \<Rightarrow> 'a list" where
  "remove_nth i xs = take i xs @ drop (Suc i) xs"

text \<open>
  Deleting an element. \<open>env\<close> tells, by descriptor, whether the queue and the descriptor can be
  closed without an error. The status, the descriptors closed, and the table.
\<close>

type_synonym close_env = "int \<Rightarrow> bool \<times> bool"

definition conn_table_del_element ::
  "close_env \<Rightarrow> nat \<Rightarrow> 'db conn_table_st \<Rightarrow> (int \<times> int list \<times> 'db conn_table_st) option" where
  "conn_table_del_element env i ct =
     (if i \<ge> conn_table_get_numentries ct then None
      else
        let ce = ct_ce ct ! i; fd = p_fd (ct_pfd ct ! i); (queue_ok, fd_ok) = env fd in
        case conn_element_release queue_ok ce of
          None \<Rightarrow> None
        | Some status \<Rightarrow>
            let closes = (fd \<noteq> -1 \<and> conn_element_isclient ce) in
            Some (if closes \<and> status = 0 then (if fd_ok then 0 else -1) else status,
              if closes then [fd] else [],
              ct\<lparr>ct_pfd := remove_nth i (ct_pfd ct), ct_ce := remove_nth i (ct_ce ct), ct_status := status,
                 nclients := (if conn_element_isnetclient ce then nclients ct - 1 else nclients ct)\<rparr>))"

text \<open>Destroying the table: the descriptors of the clients are closed and the elements released.\<close>

fun destroy_elements :: "(pollfd \<times> 'db conn_element_st) list \<Rightarrow> int list option" where
  "destroy_elements [] = Some []"
| "destroy_elements ((p, ce) # es) =
     (case conn_element_release True ce of
        None \<Rightarrow> None
      | Some _ \<Rightarrow>
          map_option (\<lambda>cl. if p_fd p \<noteq> -1 \<and> conn_element_isclient ce then p_fd p # cl else cl) (destroy_elements es))"

definition conn_table_destroy :: "'db conn_table_st \<Rightarrow> int list option" where
  "conn_table_destroy ct = destroy_elements (zip (ct_pfd ct) (ct_ce ct))"

fun find_byip :: "byte list \<Rightarrow> nat \<Rightarrow> 'db conn_element_st list \<Rightarrow> nat option" where
  "find_byip ip i [] = None"
| "find_byip ip i (ce # ces) = (if ce_ip ce = Some ip then Some i else find_byip ip (Suc i) ces)"

definition conn_table_find_element_byip :: "byte list \<Rightarrow> 'db conn_table_st \<Rightarrow> nat option" where
  "conn_table_find_element_byip ip ct = find_byip ip 0 (ct_ce ct)"

definition set_element :: "nat \<Rightarrow> 'db conn_element_st \<Rightarrow> 'db conn_table_st \<Rightarrow> 'db conn_table_st" where
  "set_element i ce ct = ct\<lparr>ct_ce := (ct_ce ct)[i := ce]\<rparr>"

definition conn_table_set_element_appdata :: "nat \<Rightarrow> int \<Rightarrow> 'db conn_table_st \<Rightarrow> 'db conn_table_st option" where
  "conn_table_set_element_appdata i data ct =
     (if i \<ge> conn_table_get_numentries ct then None
      else Some (set_element i ((ct_ce ct ! i)\<lparr>appdata := Some data\<rparr>) ct))"

definition conn_table_get_element_appdata :: "nat \<Rightarrow> 'db conn_table_st \<Rightarrow> int option option" where
  "conn_table_get_element_appdata i ct =
     (if i \<ge> conn_table_get_numentries ct then None else Some (appdata (ct_ce ct ! i)))"

section \<open>New connections\<close>

text \<open>
  The client exists: a valid connection is replaced (-1, the caller adds the new one; 1 when the
  old one could not be deleted), a broken one is restored (0).
\<close>

definition poll_restore_connection ::
  "close_env \<Rightarrow> byte list \<Rightarrow> int \<Rightarrow> 'db conn_table_st \<Rightarrow> (int \<times> int list \<times> 'db conn_table_st) option" where
  "poll_restore_connection env ip fd ct =
     (case conn_table_find_element_byip ip ct of
        None \<Rightarrow> Some (-1, [], ct)
      | Some i \<Rightarrow>
          let st = conn_element_get_connection_status (ct_ce ct ! i) in
          if st = -1 \<or> st = 0 then
            map_option (\<lambda>(status, closed, ct). (if status = 0 then -1 else 1, closed, ct))
              (conn_table_del_element env i ct)
          else
            map_option (\<lambda>ce. (0, [], (set_element i ce ct)\<lparr>ct_pfd := (ct_pfd ct)[i := (ct_pfd ct ! i)\<lparr>p_fd := fd\<rparr>]\<rparr>))
              (conn_element_set_connection_status fd (ct_ce ct ! i)))"

text \<open>
  What \<open>tcp_server_accept_conn\<close> answers: a negative code, or a descriptor with the address of
  the peer and its name (where they can be found) and whether \<open>accessproc\<close> lets it in. Then
  \<open>server_accept_conn\<close>: the descriptor and the process.
\<close>

datatype accept_net = Acc_fail int | Acc int "byte list option" "byte list option" bool

definition poll_add_connection_net ::
  "close_env \<Rightarrow> bool \<Rightarrow> nat \<Rightarrow> client_options_st \<Rightarrow> accept_net \<Rightarrow> 'db conn_table_st
     \<Rightarrow> (int \<times> int list \<times> 'db conn_table_st) option" where
  "poll_add_connection_net env mem_ok now opts acc ct =
     (case acc of
        Acc_fail code \<Rightarrow> Some (code, [], ct)
      | Acc fd None _ _ \<Rightarrow> Some (-1, [fd], ct)
      | Acc fd (Some ip) name allowed \<Rightarrow>
          (case poll_restore_connection env ip fd ct of
             None \<Rightarrow> None
           | Some (status, closed, ct) \<Rightarrow>
               if status = 0 then Some (0, closed, ct)
               else if status = 1 then Some (-3, closed @ [fd], ct)
               else if \<not> allowed then Some (-3, closed @ [fd], ct)
               else if nclientsmax ct \<ge> 0 \<and> nclients ct = nclientsmax ct then Some (-3, closed @ [fd], ct)
               else case conn_table_add_element mem_ok now fd CONN_TYPE_CLIENT_NET (-1) (Some ip) name opts ct of
                   (status, ct) \<Rightarrow> Some (status, if status \<noteq> 0 then closed @ [fd] else closed, ct)))"

definition poll_add_connection_local ::
  "bool \<Rightarrow> nat \<Rightarrow> client_options_st \<Rightarrow> int \<times> int \<Rightarrow> 'db conn_table_st \<Rightarrow> int \<times> int list \<times> 'db conn_table_st" where
  "poll_add_connection_local mem_ok now opts acc ct =
     (case acc of (fd, pid) \<Rightarrow>
        if fd \<ge> 0 then
          (case conn_table_add_element mem_ok now fd CONN_TYPE_CLIENT_LOCAL pid None None opts ct of
             (status, ct) \<Rightarrow> (status, if status \<noteq> 0 then [fd] else [], ct))
        else (0, [], ct))"

text \<open>
  The answers of the kernel during one round: the value and the events of \<open>poll\<close>, what
  accepting gives on a server descriptor, what \<open>recvfrom\<close> gives on a client's.
\<close>

record poll_env =
  pe_poll :: int
  pe_revents :: "int \<Rightarrow> bool \<times> bool"
  pe_close :: close_env
  pe_mem :: bool
  pe_now :: nat
  pe_opts :: client_options_st
  pe_net :: "int \<Rightarrow> accept_net"
  pe_local :: "int \<Rightarrow> int \<times> int"
  pe_peek :: "int \<Rightarrow> int"

definition poll_add_connection ::
  "poll_env \<Rightarrow> nat \<Rightarrow> 'db conn_table_st \<Rightarrow> (int \<times> int list \<times> 'db conn_table_st) option" where
  "poll_add_connection pe i ct =
     (let fd = p_fd (ct_pfd ct ! i) in
      if ce_type (ct_ce ct ! i) = CONN_TYPE_SERVER_LOCAL then
        (if fd = -1 then None else Some (poll_add_connection_local (pe_mem pe) (pe_now pe) (pe_opts pe) (pe_local pe fd) ct))
      else if ce_type (ct_ce ct ! i) = CONN_TYPE_SERVER_NET then
        (if fd = -1 then None else poll_add_connection_net (pe_close pe) (pe_mem pe) (pe_now pe) (pe_opts pe) (pe_net pe fd) ct)
      else Some (0, [], ct))"

text \<open>0: no hangup; \<open>recvfrom\<close> peeks at one byte.\<close>

definition poll_client_hangup :: "poll_env \<Rightarrow> pollfd \<Rightarrow> int" where
  "poll_client_hangup pe p =
     (if p_bad p then 1
      else if p_in p then (let n = pe_peek pe (p_fd p) in if n = 0 then 2 else if n < 0 then -1 else 0)
      else 0)"

definition poll_del_connection ::
  "close_env \<Rightarrow> nat \<Rightarrow> 'db conn_table_st \<Rightarrow> (int \<times> int list \<times> 'db conn_table_st) option" where
  "poll_del_connection env i ct = conn_table_del_element env i ct"

definition poll_kill_client_connection ::
  "close_env \<Rightarrow> nat \<Rightarrow> 'db conn_table_st \<Rightarrow> (int \<times> int list \<times> 'db conn_table_st) option" where
  "poll_kill_client_connection env i ct = poll_del_connection env i ct"

section \<open>One round\<close>

text \<open>
  How an accepted connection changes the poll array: an entry may go, and entries without
  events come at the end. So the loop over the servers meets fewer and fewer entries with input.
\<close>

definition pfd_step :: "pollfd list \<Rightarrow> pollfd list \<Rightarrow> bool" where
  "pfd_step ps ps' \<longleftrightarrow> (\<exists>rs qs. map p_in ps' = rs @ qs
     \<and> (rs = map p_in ps \<or> (\<exists>j. rs = remove_nth j (map p_in ps))) \<and> True \<notin> set qs)"

lemma pfd_step_refl: "map p_in ps' = map p_in ps \<Longrightarrow> pfd_step ps ps'"
  unfolding pfd_step_def by (intro exI [of _ "map p_in ps"] exI [of _ "[]"]) simp

lemma pfd_step_remove: "pfd_step ps (remove_nth j ps)"
  unfolding pfd_step_def
  by (intro exI [of _ "map p_in (remove_nth j ps)"] exI [of _ "[]"]) (auto simp: remove_nth_def take_map drop_map)

lemma pfd_step_add: "pfd_step ps qs \<Longrightarrow> \<not> p_in p \<Longrightarrow> pfd_step ps (qs @ [p])"
  unfolding pfd_step_def by force

definition in_count :: "nat \<Rightarrow> pollfd list \<Rightarrow> nat" where
  "in_count i ps = length (filter id (drop i (map p_in ps)))"

lemma filter_remove_nth: "length (filter P (drop k (remove_nth j xs))) \<le> length (filter P (drop k xs))"
proof (induction xs arbitrary: j k)
  case Nil
  then show ?case by (simp add: remove_nth_def)
next
  case (Cons x xs)
  show ?case
  proof (cases j)
    case 0
    have "drop k xs = drop (Suc k) (x # xs)" by simp
    moreover have "length (filter P (drop (Suc k) (x # xs))) \<le> length (filter P (drop k (x # xs)))"
      by (cases "k < length (x # xs)") (simp_all add: Cons_nth_drop_Suc [symmetric] del: drop_Suc_Cons)
    ultimately show ?thesis using 0 by (simp add: remove_nth_def)
  next
    case (Suc j')
    then have "remove_nth j (x # xs) = x # remove_nth j' xs" by (simp add: remove_nth_def)
    then show ?thesis using Cons.IH [of _ j'] by (cases k) (simp_all, metis drop0)
  qed
qed

lemma pfd_step_count:
  assumes "pfd_step ps ps'"
  shows "in_count k ps' \<le> in_count k ps"
proof -
  obtain rs qs where r: "map p_in ps' = rs @ qs" "rs = map p_in ps \<or> (\<exists>j. rs = remove_nth j (map p_in ps))" "True \<notin> set qs"
    using assms by (auto simp: pfd_step_def)
  have "filter id (drop k' qs) = []" for k'
    using r(3) by (auto simp: filter_empty_conv dest: in_set_dropD)
  then have "in_count k ps' = length (filter id (drop k rs))" using r(1) by (simp add: in_count_def)
  then show ?thesis
    using r(2) filter_remove_nth [of id k _ "map p_in ps"] by (auto simp: in_count_def)
qed

lemma in_count_Suc:
  assumes "i < length ps"
  shows "in_count i ps = (if p_in (ps ! i) then 1 else 0) + in_count (Suc i) ps"
  using assms by (simp add: in_count_def Cons_nth_drop_Suc [symmetric] drop_map [symmetric] del: drop_map)

lemma del_element_pfd: "conn_table_del_element env i ct = Some (st, cl, ct') \<Longrightarrow> pfd_step (ct_pfd ct) (ct_pfd ct')"
  by (auto simp: conn_table_del_element_def Let_def pfd_step_remove split: if_splits prod.splits option.splits)

lemma restore_pfd: "poll_restore_connection env ip fd ct = Some (st, cl, ct') \<Longrightarrow> pfd_step (ct_pfd ct) (ct_pfd ct')"
proof -
  assume r: "poll_restore_connection env ip fd ct = Some (st, cl, ct')"
  have "map p_in (ps[i := (ps ! i)\<lparr>p_fd := f\<rparr>]) = map p_in ps" for ps :: "pollfd list" and i f
    by (cases "i < length ps") (simp_all add: map_update list_update_same_conv list_update_beyond)
  note same = pfd_step_refl [OF this]
  show ?thesis
    using r by (auto simp: poll_restore_connection_def Let_def same pfd_step_refl set_element_def del_element_pfd
        split: option.splits if_splits)
qed

lemma add_element_pfd:
  "conn_table_add_element mem_ok now fd ty pid ip name opts ct = (st, ct') \<Longrightarrow>
     ct_pfd ct' = ct_pfd ct \<or> (\<exists>p. ct_pfd ct' = ct_pfd ct @ [p] \<and> \<not> p_in p)"
  by (auto simp: conn_table_add_element_def conn_table_grow_def split: if_splits)

lemma add_element_step:
  "conn_table_add_element mem_ok now fd ty pid ip name opts ct1 = (st, ct') \<Longrightarrow> pfd_step ps (ct_pfd ct1) \<Longrightarrow>
     pfd_step ps (ct_pfd ct')"
  using add_element_pfd pfd_step_add by metis

lemma poll_add_pfd: "poll_add_connection pe i ct = Some (st, cl, ct') \<Longrightarrow> pfd_step (ct_pfd ct) (ct_pfd ct')"
  by (auto simp: poll_add_connection_def poll_add_connection_local_def poll_add_connection_net_def Let_def
      intro: pfd_step_refl dest: restore_pfd add_element_step [OF _ pfd_step_refl [OF refl]] add_element_step
      split: if_splits prod.splits accept_net.splits option.splits)

text \<open>
  The loop over the servers: \<open>Inl\<close> when the function returns from it, \<open>Inr\<close> the status when
  it ends. Then the descriptors closed so far and the table.
\<close>

function poll_servers ::
  "poll_env \<Rightarrow> nat \<Rightarrow> int \<Rightarrow> int list \<Rightarrow> 'db conn_table_st \<Rightarrow> ((int + int) \<times> int list \<times> 'db conn_table_st) option" where
  "poll_servers pe i status closed ct =
     (if i \<ge> conn_table_get_numentries ct then Some (Inr status, closed, ct)
      else if i \<ge> length (ct_pfd ct) then None
      else if \<not> conn_element_isserver (ct_ce ct ! i) \<or> \<not> p_in (ct_pfd ct ! i) then poll_servers pe (Suc i) status closed ct
      else case poll_add_connection pe i ct of
          None \<Rightarrow> None
        | Some (status, cl, ct) \<Rightarrow>
            if status = -1 then Some (Inl (-2), closed @ cl, ct)
            else if status = -2 \<or> status = -3 then Some (Inl 0, closed @ cl, ct)
            else poll_servers pe (Suc i) status (closed @ cl) ct)"
  by pat_completeness auto
termination
proof (relation "measures [\<lambda>(pe, i, status, closed, ct). in_count i (ct_pfd ct), \<lambda>(pe, i, status, closed, ct). conn_table_get_numentries ct - i]")
  fix pe i status closed and ct :: "'db conn_table_st"
  assume "\<not> conn_table_get_numentries ct \<le> i" "\<not> length (ct_pfd ct) \<le> i"
  then show "((pe, Suc i, status, closed, ct), pe, i, status, closed, ct)
      \<in> measures [\<lambda>(pe, i, status, closed, ct). in_count i (ct_pfd ct), \<lambda>(pe, i, status, closed, ct). conn_table_get_numentries ct - i]"
    using in_count_Suc [of i "ct_pfd ct"] by (auto split: if_splits)
next
  fix pe i status closed and ct :: "'db conn_table_st" and x st y cl ct'
  assume a: "\<not> length (ct_pfd ct) \<le> i" "\<not> (\<not> conn_element_isserver (ct_ce ct ! i) \<or> \<not> p_in (ct_pfd ct ! i))"
    "poll_add_connection pe i ct = Some x" "(st, y) = x" "(cl, ct') = y"
  then have "in_count (Suc i) (ct_pfd ct') \<le> in_count (Suc i) (ct_pfd ct)"
    by (intro pfd_step_count poll_add_pfd) auto
  then show "((pe, Suc i, st, closed @ cl, ct'), pe, i, status, closed, ct)
      \<in> measures [\<lambda>(pe, i, status, closed, ct). in_count i (ct_pfd ct), \<lambda>(pe, i, status, closed, ct). conn_table_get_numentries ct - i]"
    using a in_count_Suc [of i "ct_pfd ct"] by auto
qed auto

declare poll_servers.simps [simp del]

text \<open>
  The loop over the others, which calls the application for the requests. It does not end when
  the application keeps adding elements: not returning is \<open>None\<close>, as a failed assertion.
\<close>

partial_function (option) poll_clients ::
  "poll_env \<Rightarrow> (nat \<Rightarrow> 'db conn_table_st \<Rightarrow> (int \<times> int list \<times> 'db conn_table_st) option) \<Rightarrow> nat \<Rightarrow> int \<Rightarrow> int list
     \<Rightarrow> 'db conn_table_st \<Rightarrow> (int \<times> int list \<times> 'db conn_table_st) option" where
  "poll_clients pe connproc i status closed ct =
     (if \<not> (i < conn_table_get_numentries ct \<and> status = 0) then Some (status, closed, ct)
      else if conn_element_isserver (ct_ce ct ! i) then poll_clients pe connproc (Suc i) status closed ct
      else if \<not> p_in (ct_pfd ct ! i) \<and> \<not> p_bad (ct_pfd ct ! i) then poll_clients pe connproc (Suc i) status closed ct
      else if poll_client_hangup pe (ct_pfd ct ! i) \<noteq> 0 then
        Option.bind (poll_del_connection (pe_close pe) i ct)
          (\<lambda>(status, cl, ct). if status \<noteq> 0 then None else poll_clients pe connproc (Suc i) status (closed @ cl) ct)
      else if p_in (ct_pfd ct ! i) then
        Option.bind (connproc i ct) (\<lambda>(status, cl, ct). poll_clients pe connproc (Suc i) status (closed @ cl) ct)
      else poll_clients pe connproc (Suc i) status closed ct)"

definition poll_loop_wait ::
  "poll_env \<Rightarrow> (nat \<Rightarrow> 'db conn_table_st \<Rightarrow> (int \<times> int list \<times> 'db conn_table_st) option)
     \<Rightarrow> 'db conn_table_st \<Rightarrow> (int \<times> int list \<times> 'db conn_table_st) option" where
  "poll_loop_wait pe connproc ct =
     (if pe_poll pe = -1 then Some (-1, [], ct)
      else if pe_poll pe = 0 then Some (0, [], ct)
      else
        let ct = ct\<lparr>ct_pfd := map (\<lambda>p. case pe_revents pe (p_fd p) of (i, b) \<Rightarrow> p\<lparr>p_in := i, p_bad := b\<rparr>) (ct_pfd ct)\<rparr> in
        case poll_servers pe 0 0 [] ct of
          None \<Rightarrow> None
        | Some (Inl code, closed, ct) \<Rightarrow> Some (code, closed, ct)
        | Some (Inr status, closed, ct) \<Rightarrow> poll_clients pe connproc 0 status closed ct)"

section \<open>The invariant of the table\<close>

text \<open>
  The arrays have the same length and room for what they hold, the counter is the number of
  network clients and within the limit, no two elements have the same address, every client has
  a descriptor, servers and clients are of the network kind, no queue pointer is dangling, and no client has
  lost its connection (only its thread could say so, and in this program it never does).
\<close>

fun ips :: "'db conn_element_st list \<Rightarrow> byte list list" where
  "ips [] = []"
| "ips (ce # ces) = (case ce_ip ce of None \<Rightarrow> ips ces | Some ip \<Rightarrow> ip # ips ces)"

definition netclients :: "'db conn_element_st list \<Rightarrow> int" where
  "netclients ces = int (length (filter conn_element_isnetclient ces))"

definition client_fds :: "'db conn_table_st \<Rightarrow> int list" where
  "client_fds ct = map (\<lambda>(p, ce). p_fd p) (filter (\<lambda>(p, ce). conn_element_isclient ce) (zip (ct_pfd ct) (ct_ce ct)))"

definition table_ok :: "'db conn_table_st \<Rightarrow> bool" where
  "table_ok ct \<longleftrightarrow> length (ct_pfd ct) = length (ct_ce ct) \<and> length (ct_ce ct) \<le> nmax ct \<and> 0 < nmax ct
     \<and> nclients ct = netclients (ct_ce ct) \<and> (0 \<le> nclientsmax ct \<longrightarrow> nclients ct \<le> nclientsmax ct)
     \<and> distinct (ips (ct_ce ct)) \<and> -1 \<notin> set (client_fds ct)
     \<and> (\<forall>(p, ce) \<in> set (zip (ct_pfd ct) (ct_ce ct)). conn_element_isserver ce \<longrightarrow> ce_type ce = CONN_TYPE_SERVER_NET \<and> p_fd p \<noteq> -1)
     \<and> (\<forall>ce \<in> set (ct_ce ct). ce_cq ce \<noteq> Dangling \<and> conn_element_get_connection_status ce = 0
          \<and> (conn_element_isserver ce \<or> conn_element_isnetclient ce \<and> ce_pid ce = -1))"

lemma remove_nth_split:
  assumes "i < length xs"
  obtains a x b where "xs = a @ x # b" "length a = i" "xs ! i = x" "remove_nth i xs = a @ b"
  using id_take_nth_drop [OF assms] assms by (auto simp: remove_nth_def)

lemma ips_append [simp]: "ips (xs @ ys) = ips xs @ ips ys"
  by (induction xs) (auto split: option.splits)

lemma netclients_simps [simp]:
  "netclients [] = 0" "netclients (xs @ ys) = netclients xs + netclients ys"
  "netclients (ce # xs) = (if conn_element_isnetclient ce then 1 else 0) + netclients xs"
  by (simp_all add: netclients_def)

lemma in_ips: "ip \<in> set (ips xs) \<longleftrightarrow> (\<exists>ce \<in> set xs. ce_ip ce = Some ip)"
  by (induction xs) (auto split: option.splits)

lemma find_byip_None: "find_byip ip i xs = None \<Longrightarrow> ip \<notin> set (ips xs)"
  by (induction xs arbitrary: i) (auto split: option.splits if_splits)

lemma find_byip_Some:
  "find_byip ip i xs = Some j \<Longrightarrow> i \<le> j \<and> j - i < length xs \<and> ce_ip (xs ! (j - i)) = Some ip"
proof (induction xs arbitrary: i)
  case (Cons ce xs)
  show ?case
  proof (cases "ce_ip ce = Some ip")
    case False
    with Cons.prems have f: "find_byip ip (Suc i) xs = Some j" by simp
    with Cons.IH [of "Suc i"] have "Suc i \<le> j" "j - Suc i < length xs" "ce_ip (xs ! (j - Suc i)) = Some ip" by auto
    then show ?thesis by (simp add: nth_Cons' Suc_diff_Suc flip: diff_Suc_eq_diff_pred)
  qed (use Cons.prems in auto)
qed simp

lemma isclient_if: "conn_element_isnetclient ce \<Longrightarrow> conn_element_isclient ce"
  by (simp add: conn_element_isclient_def conn_element_isnetclient_def)

text \<open>Deleting: never undefined in a good table, which stays good; the descriptor of a client is closed.\<close>

lemma del_element_ok:
  assumes t: "table_ok ct" and i: "i < conn_table_get_numentries ct"
  obtains st closed ct' where "conn_table_del_element env i ct = Some (st, closed, ct')"
    "table_ok ct'" "ct_ce ct' = remove_nth i (ct_ce ct)" "ct_pfd ct' = remove_nth i (ct_pfd ct)"
    "nclientsmax ct' = nclientsmax ct"
    "mset (client_fds ct') + mset closed = mset (client_fds ct)"
    "conn_element_isnetclient (ct_ce ct ! i) \<Longrightarrow> nclients ct' = nclients ct - 1"
    "fst (env (p_fd (ct_pfd ct ! i))) \<and> snd (env (p_fd (ct_pfd ct ! i))) \<Longrightarrow> st = 0"
proof -
  have len: "length (ct_pfd ct) = length (ct_ce ct)" "i < length (ct_ce ct)"
    using t i by (auto simp: table_ok_def conn_table_get_numentries_def)
  obtain a x b where ce: "ct_ce ct = a @ x # b" "length a = i" "ct_ce ct ! i = x" "remove_nth i (ct_ce ct) = a @ b"
    using remove_nth_split [OF len(2)] by metis
  obtain c y d where pf: "ct_pfd ct = c @ y # d" "length c = i" "ct_pfd ct ! i = y" "remove_nth i (ct_pfd ct) = c @ d"
    using remove_nth_split [of i "ct_pfd ct"] len by metis
  have fds: "client_fds ct = map (\<lambda>(p, ce). p_fd p) (filter (\<lambda>(p, ce). conn_element_isclient ce) (zip c a))
      @ (if conn_element_isclient x then [p_fd y] else [])
      @ map (\<lambda>(p, ce). p_fd p) (filter (\<lambda>(p, ce). conn_element_isclient ce) (zip d b))"
    using ce pf by (simp add: client_fds_def)
  have nd: "ce_cq x \<noteq> Dangling" and fd: "conn_element_isclient x \<Longrightarrow> p_fd y \<noteq> -1"
    using t ce(1) fds by (auto simp: table_ok_def)
  obtain q f where e: "env (p_fd y) = (q, f)" by fastforce
  obtain s where r: "conn_element_release q x = Some s" "q \<Longrightarrow> s = 0"
    using nd by (cases "ce_cq x") (auto simp: conn_element_release_def connqueue_close_ok)
  define ct' where "ct' = ct\<lparr>ct_pfd := c @ d, ct_ce := a @ b, ct_status := s,
      nclients := (if conn_element_isnetclient x then nclients ct - 1 else nclients ct)\<rparr>"
  define closed where "closed = (if conn_element_isclient x then [p_fd y] else [])"
  have d: "conn_table_del_element env i ct =
      Some (if conn_element_isclient x \<and> s = 0 then (if f then 0 else -1) else s, closed, ct')"
    using len e r fd ce pf
    by (auto simp: conn_table_del_element_def conn_table_get_numentries_def Let_def ct'_def closed_def)
  have fds': "client_fds ct' = map (\<lambda>(p, ce). p_fd p) (filter (\<lambda>(p, ce). conn_element_isclient ce) (zip c a))
      @ map (\<lambda>(p, ce). p_fd p) (filter (\<lambda>(p, ce). conn_element_isclient ce) (zip d b))"
    using ce pf by (simp add: client_fds_def ct'_def)
  have "table_ok ct'"
    using t ce(1) pf(1) len(1) fds fds' ce(2) pf(2) unfolding table_ok_def
    by (cases "ce_ip x"; cases "conn_element_isnetclient x"; cases "conn_element_isclient x") (simp_all add: ct'_def, linarith+)
  then show ?thesis
    using that [OF d] ce pf fds fds' e r by (simp add: ct'_def closed_def)
qed

text \<open>Adding a client with a new address.\<close>

lemma add_client_ok:
  assumes t: "table_ok ct" and fd: "fd \<noteq> -1" and ip: "ip \<notin> set (ips (ct_ce ct))"
    and room: "\<not> (nclientsmax ct \<ge> 0 \<and> nclients ct = nclientsmax ct)"
  obtains st ct' where "conn_table_add_element mem_ok now fd CONN_TYPE_CLIENT_NET (-1) (Some ip) name opts ct = (st, ct')"
    "table_ok ct'" "st = 0 \<or> st = -1 \<and> ct' = ct"
    "mset (client_fds ct') = mset (client_fds ct) + (if st = 0 then {#fd#} else {#})"
    "st = 0 \<Longrightarrow> ct_ce ct' = ct_ce ct @ [conn_element_init1 now fd CONN_TYPE_CLIENT_NET (-1) (Some ip) name opts]"
    "st = 0 \<Longrightarrow> ct_pfd ct' = ct_pfd ct @ [\<lparr>p_fd = fd, p_in = False, p_bad = False\<rparr>]"
    "mem_ok \<Longrightarrow> st = 0"
proof -
  define e :: "'a conn_element_st" where "e = conn_element_init1 now fd CONN_TYPE_CLIENT_NET (-1) (Some ip) name opts"
  have e: "conn_element_isnetclient e" "conn_element_isclient e" "ce_ip e = Some ip" "ce_cq e = Null"
    "\<not> conn_element_isserver e" "ce_pid e = -1" "conn_element_get_connection_status e = 0"
    by (simp_all add: e_def conn_element_init1_def conn_element_isnetclient_def conn_element_isclient_def
        conn_element_isserver_def conn_element_get_connection_status_def)
  define ct2 where "ct2 = (if length (ct_ce ct) = nmax ct then ct\<lparr>nmax := nmax ct * 2\<rparr> else ct)"
  define ct' where "ct' = ct2\<lparr>ct_pfd := ct_pfd ct2 @ [\<lparr>p_fd = fd, p_in = False, p_bad = False\<rparr>],
      ct_ce := ct_ce ct2 @ [e], nclients := nclients ct2 + 1, ct_status := 0\<rparr>"
  have add: "conn_table_add_element mem_ok now fd CONN_TYPE_CLIENT_NET (-1) (Some ip) name opts ct =
      (if length (ct_ce ct) = nmax ct \<and> \<not> mem_ok then (-1, ct) else (0, ct'))"
    by (simp add: conn_table_add_element_def conn_table_get_numentries_def conn_table_grow_def ct'_def ct2_def e_def)
  have same: "ct_pfd ct2 = ct_pfd ct" "ct_ce ct2 = ct_ce ct" "nclients ct2 = nclients ct" "nclientsmax ct2 = nclientsmax ct"
    by (simp_all add: ct2_def)
  have len: "length (ct_pfd ct) = length (ct_ce ct)" using t by (simp add: table_ok_def)
  have fds: "client_fds ct' = client_fds ct @ [fd]"
    using e len by (simp add: client_fds_def ct'_def same)
  have "table_ok ct'"
    unfolding table_ok_def fds using t e ip fd room by (simp add: table_ok_def ct'_def same) (auto simp: ct2_def)
  show ?thesis
  proof (cases "length (ct_ce ct) = nmax ct \<and> \<not> mem_ok")
    case True
    with that [of "-1" ct] add t show ?thesis by simp
  next
    case False
    with that [of 0 ct'] add \<open>table_ok ct'\<close> fds show ?thesis by (simp add: ct'_def same e_def)
  qed
qed

text \<open>One accepted network connection.\<close>

lemma restore_ok:
  assumes t: "table_ok ct"
  obtains st closed ct' where "poll_restore_connection env ip fd ct = Some (st, closed, ct')"
    "table_ok ct'" "st = -1 \<or> st = 1" "ip \<notin> set (ips (ct_ce ct'))" "nclientsmax ct' = nclientsmax ct"
    "mset (client_fds ct') + mset closed = mset (client_fds ct)"
proof (cases "find_byip ip 0 (ct_ce ct)")
  case None
  then show ?thesis
    using that [of "-1" "[]" ct] t find_byip_None [OF None]
    by (simp add: poll_restore_connection_def conn_table_find_element_byip_def)
next
  case (Some j)
  then have j: "j < length (ct_ce ct)" "ce_ip (ct_ce ct ! j) = Some ip" using find_byip_Some [OF Some] by auto
  then have jn: "j < conn_table_get_numentries ct" by (simp add: conn_table_get_numentries_def)
  obtain st closed ct' where d: "conn_table_del_element env j ct = Some (st, closed, ct')"
    "table_ok ct'" "ct_ce ct' = remove_nth j (ct_ce ct)" "ct_pfd ct' = remove_nth j (ct_pfd ct)"
    "nclientsmax ct' = nclientsmax ct" "mset (client_fds ct') + mset closed = mset (client_fds ct)"
    using del_element_ok [OF t jn, where env = env] by metis
  obtain a x b where ce: "ct_ce ct = a @ x # b" "ct_ce ct ! j = x" "remove_nth j (ct_ce ct) = a @ b"
    using remove_nth_split [OF j(1)] by metis
  have ip: "ip \<notin> set (ips (ct_ce ct'))"
    using t ce j(2) d(3) by (auto simp: table_ok_def)
  have "conn_element_get_connection_status (ct_ce ct ! j) = 0" using t j(1) by (simp add: table_ok_def)
  then have "poll_restore_connection env ip fd ct = Some (if st = 0 then -1 else 1, closed, ct')"
    using Some d(1) by (simp add: poll_restore_connection_def conn_table_find_element_byip_def)
  then show ?thesis
    using that [of "if st = 0 then -1 else 1" closed ct'] d ip by auto
qed

lemma add_net_ok:
  assumes t: "table_ok ct" and acc: "acc = Acc fd ip name allowed" and fd: "fd \<noteq> -1"
  obtains st closed ct' where "poll_add_connection_net env mem_ok now opts acc ct = Some (st, closed, ct')"
    "table_ok ct'"
    "mset (client_fds ct') + mset closed = mset (client_fds ct) + {#fd#}"
    "st = 0 \<Longrightarrow> \<exists>ip'. ip = Some ip' \<and> allowed \<and> fd \<in> set (client_fds ct') \<and> ip' \<in> set (ips (ct_ce ct'))"
    "st \<noteq> 0 \<Longrightarrow> fd \<in> set closed"
proof (cases ip)
  case None
  then show ?thesis
    using that [of "-1" "[fd]" ct] t acc by (auto simp: poll_add_connection_net_def)
next
  case (Some addr)
  obtain st closed ct1 where r: "poll_restore_connection env addr fd ct = Some (st, closed, ct1)"
    "table_ok ct1" "st = -1 \<or> st = 1" "addr \<notin> set (ips (ct_ce ct1))"
    "mset (client_fds ct1) + mset closed = mset (client_fds ct)"
    using restore_ok [OF t, where env = env and fd = fd and ip = addr] by metis
  show ?thesis
  proof (cases "st = 1 \<or> \<not> allowed \<or> nclientsmax ct1 \<ge> 0 \<and> nclients ct1 = nclientsmax ct1")
    case True
    then have "poll_add_connection_net env mem_ok now opts acc ct = Some (-3, closed @ [fd], ct1)"
      using Some acc r(1,3) by (auto simp: poll_add_connection_net_def)
    then show ?thesis
      using that [of "-3" "closed @ [fd]" ct1] r by (simp add: ac_simps)
  next
    case False
    then have room: "\<not> (nclientsmax ct1 \<ge> 0 \<and> nclients ct1 = nclientsmax ct1)" by blast
    obtain st2 ct2 where a: "conn_table_add_element mem_ok now fd CONN_TYPE_CLIENT_NET (-1) (Some addr) name opts ct1 = (st2, ct2)"
      "table_ok ct2" "st2 = 0 \<or> st2 = -1 \<and> ct2 = ct1"
      "mset (client_fds ct2) = mset (client_fds ct1) + (if st2 = 0 then {#fd#} else {#})"
      "st2 = 0 \<Longrightarrow> ct_ce ct2 = ct_ce ct1 @ [conn_element_init1 now fd CONN_TYPE_CLIENT_NET (-1) (Some addr) name opts]"
      "st2 = 0 \<Longrightarrow> ct_pfd ct2 = ct_pfd ct1 @ [\<lparr>p_fd = fd, p_in = False, p_bad = False\<rparr>]"
      using add_client_ok [OF r(2) fd r(4) room, where mem_ok = mem_ok and now = now and name = name and opts = opts]
      by metis
    have p: "poll_add_connection_net env mem_ok now opts acc ct =
        Some (st2, if st2 \<noteq> 0 then closed @ [fd] else closed, ct2)"
      using Some acc r(1,3) False a(1) by (auto simp: poll_add_connection_net_def)
    show ?thesis
    proof (cases "st2 = 0")
      case True
      note a0 = a(5) [OF True] a(6) [OF True]
      have "addr \<in> set (ips (ct_ce ct2))" using a0(1) by (simp add: conn_element_init1_def)
      moreover have m: "mset (client_fds ct2) = add_mset fd (mset (client_fds ct1))" using a(4) True by simp
      moreover have "fd \<in> set (client_fds ct2)" using m by (metis set_mset_mset union_single_eq_member)
      ultimately show ?thesis
        using that [of 0 closed ct2] p a(2) True r(5) Some a0(2) False by (simp add: ac_simps)
    next
      case f: False
      then have "ct2 = ct1" "st2 = -1" using a(3) by auto
      then show ?thesis
        using that [of "-1" "closed @ [fd]" ct1] p f r by (simp add: ac_simps)
    qed
  qed
qed

text \<open>A whole round.\<close>

definition accepts :: "poll_env \<Rightarrow> int set" where
  "accepts pe = {fd'. \<exists>fd ip name a. pe_net pe fd = Acc fd' ip name a}"

lemma poll_add_ok:
  assumes t: "table_ok ct" and k: "-1 \<notin> accepts pe" and i: "i < length (ct_ce ct)" "conn_element_isserver (ct_ce ct ! i)"
  shows "\<exists>st cl ct' new. poll_add_connection pe i ct = Some (st, cl, ct') \<and> table_ok ct'
    \<and> mset (client_fds ct') + mset cl = mset (client_fds ct) + mset new \<and> set new \<subseteq> accepts pe"
proof -
  have len: "length (ct_pfd ct) = length (ct_ce ct)" using t by (simp add: table_ok_def)
  then have "(ct_pfd ct ! i, ct_ce ct ! i) \<in> set (zip (ct_pfd ct) (ct_ce ct))"
    using i(1) by (metis in_set_conv_nth length_zip min.idem nth_zip)
  then have net: "ce_type (ct_ce ct ! i) = CONN_TYPE_SERVER_NET" "p_fd (ct_pfd ct ! i) \<noteq> -1"
    using t i(2) by (auto simp: table_ok_def)
  define acc where "acc = pe_net pe (p_fd (ct_pfd ct ! i))"
  have p: "poll_add_connection pe i ct = poll_add_connection_net (pe_close pe) (pe_mem pe) (pe_now pe) (pe_opts pe) acc ct"
    using net by (simp add: poll_add_connection_def acc_def)
  show ?thesis
  proof (cases acc)
    case (Acc_fail c)
    then show ?thesis using p t by (auto simp: poll_add_connection_net_def intro: exI [of _ "[]"])
  next
    case (Acc fd ip name a)
    then have "fd \<in> accepts pe" by (auto simp: accepts_def acc_def)
    with k have fd: "fd \<noteq> -1" by auto
    obtain st cl ct' where "poll_add_connection pe i ct = Some (st, cl, ct')" "table_ok ct'"
      "mset (client_fds ct') + mset cl = mset (client_fds ct) + mset [fd]"
      unfolding p using add_net_ok [OF t Acc fd] by (metis mset_single_iff_right)
    with \<open>fd \<in> accepts pe\<close> show ?thesis by (metis empty_set insert_subset list.simps(15) empty_subsetI)
  qed
qed

lemma poll_servers_ok:
  assumes "table_ok ct" and "-1 \<notin> accepts pe"
  shows "\<exists>r closed' ct' new. poll_servers pe i status closed ct = Some (r, closed', ct') \<and> table_ok ct'
    \<and> mset (client_fds ct') + mset closed' = mset (client_fds ct) + mset closed + mset new \<and> set new \<subseteq> accepts pe"
  using assms
proof (induction pe i status closed ct rule: poll_servers.induct)
  case (1 pe i status closed ct)
  have len: "length (ct_pfd ct) = length (ct_ce ct)" using "1.prems" by (simp add: table_ok_def)
  consider "i \<ge> conn_table_get_numentries ct"
    | "i < conn_table_get_numentries ct" "\<not> conn_element_isserver (ct_ce ct ! i) \<or> \<not> p_in (ct_pfd ct ! i)"
    | "i < conn_table_get_numentries ct" "conn_element_isserver (ct_ce ct ! i)" "p_in (ct_pfd ct ! i)"
    by fastforce
  then show ?case
  proof cases
    case 1
    then show ?thesis using "1.prems" by (auto simp: poll_servers.simps [of _ i] intro: exI [of _ "[]"])
  next
    case 2
    then show ?thesis
      using "1.IH"(1) "1.prems" len by (simp add: poll_servers.simps [of _ i] conn_table_get_numentries_def)
  next
    case 3
    then obtain st cl ct1 new where p: "poll_add_connection pe i ct = Some (st, cl, ct1)" "table_ok ct1"
      "mset (client_fds ct1) + mset cl = mset (client_fds ct) + mset new" "set new \<subseteq> accepts pe"
      using poll_add_ok "1.prems" by (metis conn_table_get_numentries_def)
    have step: "poll_servers pe i status closed ct =
        (if st = -1 then Some (Inl (-2), closed @ cl, ct1)
         else if st = -2 \<or> st = -3 then Some (Inl 0, closed @ cl, ct1)
         else poll_servers pe (Suc i) st (closed @ cl) ct1)"
      using 3 len p(1) by (simp add: poll_servers.simps [of _ i] conn_table_get_numentries_def)
    show ?thesis
    proof (cases "st = -1 \<or> st = -2 \<or> st = -3")
      case True
      then obtain code where c: "poll_servers pe i status closed ct = Some (Inl code, closed @ cl, ct1)"
        using step by (auto split: if_splits)
      have "mset (client_fds ct1) + mset (closed @ cl) = mset (client_fds ct) + mset closed + mset new"
        using p(3) by (simp add: ac_simps)
      with c p(2,4) show ?thesis by blast
    next
      case False
      then have "poll_servers pe i status closed ct = poll_servers pe (Suc i) st (closed @ cl) ct1" using step by simp
      moreover have "\<exists>r closed' ct' new'. poll_servers pe (Suc i) st (closed @ cl) ct1 = Some (r, closed', ct') \<and> table_ok ct'
          \<and> mset (client_fds ct') + mset closed' = mset (client_fds ct1) + mset (closed @ cl) + mset new' \<and> set new' \<subseteq> accepts pe"
        using "1.IH"(2) [OF _ _ _ p(1) refl refl _ _ p(2) "1.prems"(2)] 3 len False by (simp add: conn_table_get_numentries_def)
      ultimately obtain r closed' ct' new' where "poll_servers pe i status closed ct = Some (r, closed', ct')" "table_ok ct'"
        "mset (client_fds ct') + mset closed' = mset (client_fds ct1) + mset (closed @ cl) + mset new'" "set new' \<subseteq> accepts pe"
        by auto
      with p(3,4) show ?thesis
        by (intro exI [of _ r] exI [of _ closed'] exI [of _ ct'] exI [of _ "new @ new'"]) (simp add: ac_simps)
    qed
  qed
qed

text \<open>
  The interface with the application: its handler of requests keeps the table good, adds
  nothing to it, and closes the descriptors of the clients it drops.
\<close>

locale conn_handler =
  fixes connproc :: "nat \<Rightarrow> 'db conn_table_st \<Rightarrow> (int \<times> int list \<times> 'db conn_table_st) option"
  assumes handler_ok: "table_ok ct \<Longrightarrow> i < length (ct_ce ct) \<Longrightarrow> \<not> conn_element_isserver (ct_ce ct ! i) \<Longrightarrow>
    \<exists>st cl ct'. connproc i ct = Some (st, cl, ct') \<and> table_ok ct' \<and> length (ct_ce ct') \<le> length (ct_ce ct)
      \<and> mset (client_fds ct') + mset cl = mset (client_fds ct)"
begin

lemma poll_clients_ok:
  assumes "table_ok ct" and "\<And>fd. pe_close pe fd = (True, True)"
  shows "\<exists>st closed' ct'. poll_clients pe connproc i status closed ct = Some (st, closed', ct') \<and> table_ok ct'
    \<and> mset (client_fds ct') + mset closed' = mset (client_fds ct) + mset closed"
  using assms(1)
proof (induction "length (ct_ce ct) - i" arbitrary: i status closed ct rule: less_induct)
  case less
  have len: "length (ct_pfd ct) = length (ct_ce ct)" using less.prems by (simp add: table_ok_def)
  note simps = poll_clients.simps [of _ _ i] conn_table_get_numentries_def
  show ?case
  proof (cases "i < length (ct_ce ct) \<and> status = 0")
    case False
    with less.prems show ?thesis by (simp add: simps)
  next
    case i: True
    let ?skip = "conn_element_isserver (ct_ce ct ! i) \<or> \<not> p_in (ct_pfd ct ! i) \<and> \<not> p_bad (ct_pfd ct ! i)"
    let ?hup = "poll_client_hangup pe (ct_pfd ct ! i) \<noteq> 0"
    have again: "\<exists>st closed' ct'. poll_clients pe connproc (Suc i) st1 (closed @ cl) ct1 = Some (st, closed', ct') \<and> table_ok ct'
        \<and> mset (client_fds ct') + mset closed' = mset (client_fds ct) + mset closed"
      if "table_ok ct1" "length (ct_ce ct1) \<le> length (ct_ce ct)" "mset (client_fds ct1) + mset cl = mset (client_fds ct)" for st1 cl ct1
    proof -
      have "length (ct_ce ct1) - Suc i < length (ct_ce ct) - i" using that(2) i by linarith
      moreover have "mset (client_fds ct1) + mset (closed @ cl) = mset (client_fds ct) + mset closed"
        using that(3) by (simp add: ac_simps)
      ultimately show ?thesis using less.hyps [OF _ that(1), of "Suc i" st1 "closed @ cl"] by (simp only:)
    qed
    consider ?skip | "\<not> ?skip" ?hup | "\<not> ?skip" "\<not> ?hup" by blast
    then show ?thesis
    proof cases
      case 1
      with i again [of ct "[]" status] less.prems show ?thesis by (auto simp: simps)
    next
      case 2
      obtain st cl ct1 where d: "conn_table_del_element (pe_close pe) i ct = Some (st, cl, ct1)" "table_ok ct1"
        "ct_ce ct1 = remove_nth i (ct_ce ct)" "mset (client_fds ct1) + mset cl = mset (client_fds ct)" "st = 0"
        using del_element_ok [OF less.prems, of i "pe_close pe"] i assms(2)
        by (metis conn_table_get_numentries_def fst_conv snd_conv)
      have "length (ct_ce ct1) \<le> length (ct_ce ct)" using d(3) by (simp add: remove_nth_def)
      with 2 i again [OF d(2) _ d(4), of 0] d(1,5) show ?thesis by (auto simp: simps poll_del_connection_def)
    next
      case 3
      then have p: "p_in (ct_pfd ct ! i)" by (auto simp: poll_client_hangup_def split: if_splits)
      obtain st cl ct1 where h: "connproc i ct = Some (st, cl, ct1)" "table_ok ct1" "length (ct_ce ct1) \<le> length (ct_ce ct)"
        "mset (client_fds ct1) + mset cl = mset (client_fds ct)"
        using handler_ok [OF less.prems] i 3 by blast
      with 3 i p again [OF h(2-4), of st] show ?thesis by (auto simp: simps)
    qed
  qed
qed

lemma poll_loop_wait_ok:
  assumes "table_ok ct" and "\<And>fd. pe_close pe fd = (True, True)" and "-1 \<notin> accepts pe"
  shows "\<exists>st closed ct' new. poll_loop_wait pe connproc ct = Some (st, closed, ct') \<and> table_ok ct'
    \<and> mset (client_fds ct') + mset closed = mset (client_fds ct) + mset new \<and> set new \<subseteq> accepts pe"
proof -
  define f where "f = (\<lambda>p :: pollfd. case pe_revents pe (p_fd p) of (i, b) \<Rightarrow> p\<lparr>p_in := i, p_bad := b\<rparr>)"
  define ct1 where "ct1 = ct\<lparr>ct_pfd := map f (ct_pfd ct)\<rparr>"
  have f: "p_fd (f p) = p_fd p" for p by (simp add: f_def split: prod.splits)
  have fds: "client_fds ct1 = client_fds ct"
    by (simp add: client_fds_def ct1_def zip_map1 filter_map comp_def case_prod_unfold f)
  have t1: "table_ok ct1"
    using assms(1) by (auto simp: table_ok_def fds ct1_def [symmetric]) (auto simp: ct1_def zip_map1 f)
  obtain r closed ct2 new where s: "poll_servers pe 0 0 [] ct1 = Some (r, closed, ct2)" "table_ok ct2"
    "mset (client_fds ct2) + mset closed = mset (client_fds ct) + mset new" "set new \<subseteq> accepts pe"
    using poll_servers_ok [OF t1 assms(3), of 0 0 "[]"] fds by auto
  have w: "poll_loop_wait pe connproc ct =
      (if pe_poll pe = -1 then Some (-1, [], ct) else if pe_poll pe = 0 then Some (0, [], ct)
       else case r of Inl code \<Rightarrow> Some (code, closed, ct2) | Inr st \<Rightarrow> poll_clients pe connproc 0 st closed ct2)"
    using s(1) by (simp add: poll_loop_wait_def f_def ct1_def Let_def split: sum.splits)
  show ?thesis
  proof (cases "pe_poll pe = -1 \<or> pe_poll pe = 0")
    case True
    then show ?thesis using w assms(1) by (auto intro: exI [of _ "[]"])
  next
    case False
    show ?thesis
    proof (cases r)
      case (Inl code)
      with w False s show ?thesis by auto
    next
      case (Inr st)
      with w False poll_clients_ok [OF s(2) assms(2), of 0 st closed] s(3,4) show ?thesis by auto
    qed
  qed
qed

end

text \<open>Destroying a good table closes every descriptor of a client, once each.\<close>

lemma destroy_closes:
  assumes "table_ok ct"
  shows "conn_table_destroy ct = Some (client_fds ct)"
proof -
  have "destroy_elements es = Some (map (\<lambda>(p, ce). p_fd p) (filter (\<lambda>(p, ce). conn_element_isclient ce) es))"
    if "\<forall>(p, ce) \<in> set es. ce_cq ce \<noteq> Dangling" "\<forall>(p, ce) \<in> set es. conn_element_isclient ce \<longrightarrow> p_fd p \<noteq> -1" for es
    using that by (induction es) (auto simp: conn_element_release_def split: ptr.splits)
  moreover have "\<forall>(p, ce) \<in> set (zip (ct_pfd ct) (ct_ce ct)). ce_cq ce \<noteq> Dangling"
    using assms by (auto simp: table_ok_def dest: set_zip_rightD)
  moreover have "\<forall>(p, ce) \<in> set (zip (ct_pfd ct) (ct_ce ct)). conn_element_isclient ce \<longrightarrow> p_fd p \<noteq> -1"
    using assms by (force simp: table_ok_def client_fds_def)
  ultimately show ?thesis unfolding conn_table_destroy_def client_fds_def by blast
qed

section \<open>Properties\<close>

text \<open>A table with a listening socket and room for one client, to evaluate on.\<close>

definition opts0 :: client_options_st where
  "opts0 = \<lparr>co_write_timeout_ms = 0, co_write_timeout_retry = 0, co_reconnect_wait_sleep_secs = 0,
     co_reconnect_wait_sleep_retry = 0, co_queue_read_timeout_ms = 0\<rparr>"

definition table0 :: "byte list list conn_table_st" where
  "table0 = snd (conn_table_add_element True 0 3 CONN_TYPE_SERVER_NET 0 None None opts0 (conn_table_create 1))"

lemmas table_defs = conn_table_add_element_def conn_table_create_def conn_table_get_numentries_def conn_element_init1_def
  conn_element_isclient_def conn_element_isnetclient_def conn_element_isserver_def conn_element_get_connection_status_def

lemma table0_ok: "table_ok table0"
  by (simp add: table0_def table_ok_def client_fds_def table_defs)

text \<open>
  Every connection the server accepts is accounted for: it either is in the table, with
  status 0 and only if its address is known and access is granted, or it has been closed; a
  previous connection from the same address is closed and replaced. No descriptor is lost or
  closed twice, the addresses in the table stay distinct, the count of clients stays right and
  within the configured maximum, and nothing undefined happens.
\<close>

theorem connection_accounted:
  assumes "table_ok ct" and "fd \<noteq> -1"
  shows "\<exists>st closed ct'. poll_add_connection_net env mem_ok now opts (Acc fd ip name allowed) ct = Some (st, closed, ct')
    \<and> table_ok ct' \<and> mset (client_fds ct') + mset closed = mset (client_fds ct) + {#fd#}
    \<and> (if st = 0 then (\<exists>ip'. ip = Some ip' \<and> allowed \<and> fd \<in> set (client_fds ct') \<and> ip' \<in> set (ips (ct_ce ct')))
       else fd \<in> set closed)"
  using add_net_ok [OF assms(1) refl assms(2), where env = env and mem_ok = mem_ok and now = now and opts = opts
      and ip = ip and name = name and allowed = allowed]
  by metis

theorem connection_accounted_witness:
  "\<exists>st closed ct'. poll_add_connection_net (\<lambda>_. (True, True)) True 5 opts0 (Acc 7 (Some [49]) None True) table0 = Some (st, closed, ct')
     \<and> table_ok ct' \<and> mset (client_fds ct') + mset closed = mset (client_fds table0) + {#7#}"
  using connection_accounted [OF table0_ok, of 7 "\<lambda>_. (True, True)" True 5 opts0 "Some [49]" None True] by auto

text \<open>
  When the thread of a client cannot be created, the queue is closed but the element keeps the
  pointer to it; the caller then deletes the element, which closes the queue a second time.
\<close>

theorem failed_thread_dangling_queue:
  assumes "connqueue_open ops cq_mem_ok d cp = (err, Some cq)"
  shows "\<exists>ce'. conn_element_init4 ops True cq_mem_ok d False cp ce = (-1, err, ce') \<and> conn_element_release ok ce' = None"
  using assms by (simp add: conn_element_init4_def conn_element_release_def)

section \<open>The data of an element\<close>

text \<open>Storing the data of the application through the table is \<open>conn_element_init2\<close> on the element, and it can be read back.\<close>

lemma set_appdata_init2:
  "conn_table_set_element_appdata i d ct = Some ct' \<longleftrightarrow>
     i < conn_table_get_numentries ct \<and> ct' = set_element i (conn_element_init2 d (ct_ce ct ! i)) ct"
  by (auto simp: conn_table_set_element_appdata_def conn_element_init2_def)

lemma appdata_read_back:
  "conn_table_set_element_appdata i d ct = Some ct' \<Longrightarrow> conn_table_get_element_appdata j ct'
     = (if j = i then Some (Some d) else conn_table_get_element_appdata j ct)"
  by (auto simp: set_appdata_init2 conn_table_get_element_appdata_def conn_element_init2_def set_element_def
      conn_table_get_numentries_def)

text \<open>The two ways to read the status of a connection agree exactly on the elements that have a thread.\<close>

lemma connection_status_readers:
  "conn_element_get_connection_status_un ce = conn_element_get_connection_status ce
     \<longleftrightarrow> threadinfo ce \<noteq> None"
  by (auto simp: conn_element_get_connection_status_un_def conn_element_get_connection_status_def split: option.splits)

text \<open>
  A restored connection has the new descriptor in the poll array and for the thread, but the copy in the
  element, which \<open>conn_element_get_fd\<close> returns, is still the old one.
\<close>

lemma restored_fd_stale:
  assumes "poll_restore_connection env ip fd ct = Some (0, cl, ct')" "length (ct_pfd ct) = length (ct_ce ct)"
  shows "\<exists>i t. conn_table_find_element_byip ip ct = Some i \<and> p_fd (ct_pfd ct' ! i) = fd
    \<and> threadinfo (ct_ce ct' ! i) = Some t \<and> client_fd t = fd \<and> ce_fd (ct_ce ct' ! i) = ce_fd (ct_ce ct ! i)"
proof (cases "conn_table_find_element_byip ip ct")
  case None
  then show ?thesis using assms(1) by (simp add: poll_restore_connection_def)
next
  case (Some i)
  then have "i < length (ct_ce ct)" using find_byip_Some [of ip 0 "ct_ce ct" i] by (simp add: conn_table_find_element_byip_def)
  with Some assms show ?thesis
    by (auto simp: poll_restore_connection_def conn_element_set_connection_status_def set_element_def Let_def
        split: if_splits option.splits)
qed

end
