(* ===== verification/Nreadn.thy ===== *)
theory Nreadn
  imports Npemwin_Prelude
begin

text \<open>
  \<open>src/nreadn.c\<close>: reading and writing whole blocks on a descriptor with \<open>poll\<close>, a retry
  count and an interrupt function. What the kernel answers is the environment: a channel
  carries the answers of the successive \<open>poll\<close> and \<open>read\<close> calls (\<open>ch_rx\<close>), of the
  \<open>poll\<close> and \<open>write\<close> calls (\<open>ch_tx\<close>), the answers of the interrupt function
  (\<open>ch_intr\<close>) and the bytes written so far (\<open>ch_out\<close>). When no answer is left, \<open>poll\<close> times
  out. The length of a timeout is not part of the model: how long the kernel waits before it
  answers makes no difference to what the functions do with the answer.
\<close>

section \<open>The channel\<close>

text \<open>
  \<open>Rx_data bs\<close>: \<open>POLLIN\<close> is set and \<open>bs\<close> is there to be read; nothing to read is the end
  of file. \<open>Rx_nopollin\<close>: \<open>poll\<close> returned with other bits only. \<open>Tx_room k\<close>: \<open>POLLOUT\<close>
  is set and \<open>write\<close> takes at most \<open>k\<close> bytes.
\<close>

datatype rx = Rx_timeout | Rx_pollerr | Rx_nopollin | Rx_readerr | Rx_data "byte list"

datatype tx = Tx_timeout | Tx_pollerr | Tx_nopollout | Tx_writeerr | Tx_room nat

record chan =
  ch_rx :: "rx list"
  ch_tx :: "tx list"
  ch_intr :: "bool list"
  ch_out :: "byte list"

definition get_retry_interrupt :: "chan \<Rightarrow> bool \<times> chan" where
  "get_retry_interrupt c =
     (case ch_intr c of [] \<Rightarrow> (False, c) | q # qs \<Rightarrow> (q, c\<lparr>ch_intr := qs\<rparr>))"

section \<open>One read, one write\<close>

text \<open>
  The retry loop around \<open>poll\<close>: at most \<open>k\<close> rounds, left at the first answer that is not
  a timeout or when the interrupt function says so. \<open>Rx_timeout\<close> stands for status 0.
\<close>

fun poll_rx :: "nat \<Rightarrow> chan \<Rightarrow> rx \<times> chan" where
  "poll_rx 0 c = (Rx_timeout, c)"
| "poll_rx (Suc k) c =
     (let (q, c) = get_retry_interrupt c
      in if q then (Rx_timeout, c)
         else case ch_rx c of
             [] \<Rightarrow> poll_rx k c
           | e # es \<Rightarrow>
               if e = Rx_timeout then poll_rx k (c\<lparr>ch_rx := es\<rparr>)
               else (e, c\<lparr>ch_rx := es\<rparr>))"

fun poll_tx :: "nat \<Rightarrow> chan \<Rightarrow> tx \<times> chan" where
  "poll_tx 0 c = (Tx_timeout, c)"
| "poll_tx (Suc k) c =
     (let (q, c) = get_retry_interrupt c
      in if q then (Tx_timeout, c)
         else case ch_tx c of
             [] \<Rightarrow> poll_tx k c
           | e # es \<Rightarrow>
               if e = Tx_timeout then poll_tx k (c\<lparr>ch_tx := es\<rparr>)
               else (e, c\<lparr>ch_tx := es\<rparr>))"

text \<open>The number of rounds: a negative \<open>retry\<close> counts as 0 and the loop runs while \<open>i <= retry\<close>.\<close>

definition rounds :: "int \<Rightarrow> nat" where
  "rounds retry = Suc (nat retry)"

text \<open>The value returned, the bytes stored in the buffer, and the channel afterwards.\<close>

definition read1 :: "nat \<Rightarrow> int \<Rightarrow> chan \<Rightarrow> int \<times> byte list \<times> chan" where
  "read1 sz retry c =
     (case poll_rx (rounds retry) c of
        (Rx_timeout, c) \<Rightarrow> (-2, [], c)
      | (Rx_pollerr, c) \<Rightarrow> (-1, [], c)
      | (Rx_nopollin, c) \<Rightarrow> (0, [], c)
      | (Rx_readerr, c) \<Rightarrow> (-1, [], c)
      | (Rx_data bs, c) \<Rightarrow>
          (int (length (take sz bs)), take sz bs,
           if drop sz bs = [] then c else c\<lparr>ch_rx := Rx_data (drop sz bs) # ch_rx c\<rparr>))"

definition write1 :: "byte list \<Rightarrow> int \<Rightarrow> chan \<Rightarrow> int \<times> chan" where
  "write1 buf retry c =
     (case poll_tx (rounds retry) c of
        (Tx_timeout, c) \<Rightarrow> (0, c)
      | (Tx_pollerr, c) \<Rightarrow> (-1, c)
      | (Tx_nopollout, c) \<Rightarrow> (0, c)
      | (Tx_writeerr, c) \<Rightarrow> (-1, c)
      | (Tx_room k, c) \<Rightarrow>
          (int (length (take k buf)), c\<lparr>ch_out := ch_out c @ take k buf\<rparr>))"

lemma read1_length:
  "read1 sz retry c = (n, bs, c') \<Longrightarrow> n \<ge> 0 \<Longrightarrow> length bs = nat n \<and> length bs \<le> sz"
  by (auto simp: read1_def split: prod.splits rx.splits)

lemma read1_neg: "read1 sz retry c = (n, bs, c') \<Longrightarrow> n < 0 \<Longrightarrow> bs = [] \<and> (n = -1 \<or> n = -2)"
  by (auto simp: read1_def split: prod.splits rx.splits)

section \<open>Reading a block\<close>

text \<open>
  The loop of \<open>sreadm\<close>, with the bytes accumulated so far. The result is the value returned,
  the buffer, what \<open>*eof\<close> is set to (if it is set), and the channel.
\<close>

function sreadm_loop ::
  "nat \<Rightarrow> int \<Rightarrow> byte list \<Rightarrow> chan \<Rightarrow> int \<times> byte list \<times> bool option \<times> chan" where
  "sreadm_loop sz retry acc c =
     (if length acc < sz then
        (case read1 (sz - length acc) retry c of
           (n, bs, c') \<Rightarrow>
             if n < 0 then
               (if n = -2 \<and> acc \<noteq> [] then (int (length acc), acc, Some False, c')
                else (n, acc, None, c'))
             else if n = 0 then (int (length acc), acc, Some True, c')
             else sreadm_loop sz retry (acc @ bs) c')
      else (int (length acc), acc, None, c))"
  by pat_completeness auto
termination
  by (relation "measure (\<lambda>(sz, retry, acc, c). sz - length acc)")
     (auto dest!: read1_length [OF sym])

declare sreadm_loop.simps [simp del]

definition sreadm :: "nat \<Rightarrow> int \<Rightarrow> chan \<Rightarrow> int \<times> byte list \<times> bool option \<times> chan" where
  "sreadm sz retry c = sreadm_loop sz retry [] c"

definition readm :: "nat \<Rightarrow> int \<Rightarrow> chan \<Rightarrow> int \<times> byte list \<times> chan" where
  "readm sz retry c = (case sreadm sz retry c of (n, bs, _, c') \<Rightarrow> (n, bs, c'))"

definition sreadn :: "nat \<Rightarrow> int \<Rightarrow> chan \<Rightarrow> int \<times> byte list \<times> bool option \<times> chan" where
  "sreadn sz retry c = sreadm sz retry c"

definition readn :: "nat \<Rightarrow> int \<Rightarrow> chan \<Rightarrow> int \<times> byte list \<times> chan" where
  "readn sz retry c = (case sreadm sz retry c of (n, bs, _, c') \<Rightarrow> (n, bs, c'))"

section \<open>Writing a block\<close>

lemma write1_pos: "write1 buf retry c = (n, c') \<Longrightarrow> n \<ge> 0 \<Longrightarrow> nat n \<le> length buf"
  by (auto simp: write1_def split: prod.splits tx.splits)

lemma write1_step: "(n, c') = write1 buf retry c \<Longrightarrow> n \<noteq> -1 \<Longrightarrow> n \<noteq> 0 \<Longrightarrow> 0 < n"
  by (auto simp: write1_def split: prod.splits tx.splits)

function writem_loop :: "byte list \<Rightarrow> int \<Rightarrow> nat \<Rightarrow> chan \<Rightarrow> int \<times> chan" where
  "writem_loop buf retry i c =
     (if i < length buf then
        (case write1 (drop i buf) retry c of
           (n, c') \<Rightarrow>
             if n = -1 then (-1, c')
             else if n = 0 then (int i, c')
             else writem_loop buf retry (i + nat n) c')
      else (int i, c))"
  by pat_completeness auto
termination
  by (relation "measure (\<lambda>(buf, retry, i, c). length buf - i)") (auto dest!: write1_step)

declare writem_loop.simps [simp del]

definition writem :: "byte list \<Rightarrow> int \<Rightarrow> chan \<Rightarrow> int \<times> chan" where
  "writem buf retry c = writem_loop buf retry 0 c"

definition writen :: "byte list \<Rightarrow> int \<Rightarrow> chan \<Rightarrow> int \<times> chan" where
  "writen buf retry c = writem buf retry c"


section \<open>Fifos and lines\<close>

text \<open>
  On a fifo the end of file looks like a timeout, so the functions for fifos read once more without \<open>poll\<close>. The
  answer of that \<open>read\<close> is \<open>direct\<close> (\<open>None\<close> an error); its bytes go to the buffer.
\<close>

definition readn_fifo :: "byte list option \<Rightarrow> nat \<Rightarrow> chan \<Rightarrow> int \<times> byte list \<times> chan" where
  "readn_fifo direct sz c =
     (case readn sz 0 c of
        (n, bs, c) \<Rightarrow>
          if n = -2 then (if direct = Some [] then 0 else -2, case direct of None \<Rightarrow> [] | Some d \<Rightarrow> take sz d, c)
          else (n, bs, c))"

definition readm_fifo :: "byte list option \<Rightarrow> nat \<Rightarrow> chan \<Rightarrow> int \<times> byte list \<times> chan" where
  "readm_fifo direct sz c =
     (case readm sz 0 c of
        (n, bs, c) \<Rightarrow>
          if n = -2 then (if direct = Some [] then 0 else -2, case direct of None \<Rightarrow> [] | Some d \<Rightarrow> take sz d, c)
          else (n, bs, c))"

text \<open>
  Reading a line, byte by byte. An answer of \<open>read\<close>: an error, nothing (the end of the file, also when no
  answer is left), or a byte.
\<close>

fun dpgets :: "nat \<Rightarrow> byte list \<Rightarrow> byte option option list \<Rightarrow> int \<times> byte list" where
  "dpgets sz buf [] = (int (length buf), buf)"
| "dpgets sz buf (r # rs) =
     (if length buf + 1 < sz then
        (case r of
           None \<Rightarrow> (-1, buf)
         | Some None \<Rightarrow> (int (length buf), buf)
         | Some (Some c) \<Rightarrow> if c = 10 then (int (length buf + 1), buf @ [c]) else dpgets sz (buf @ [c]) rs)
      else (int (length buf), buf))"

text \<open>The line of a text, with its end; \<open>dpgets\<close> gives as much of it as fits with the NUL.\<close>

definition first_line :: "byte list \<Rightarrow> byte list" where
  "first_line bs = takeWhile (\<lambda>c. c \<noteq> 10) bs @ (if 10 \<in> set bs then [10] else [])"

lemma first_line_Cons: "first_line (c # bs) = (if c = 10 then [10] else c # first_line bs)"
  by (simp add: first_line_def)

lemma dpgets_line:
  "length buf + 1 \<le> sz \<Longrightarrow>
     dpgets sz buf (map (\<lambda>c. Some (Some c)) bs) =
       (int (length (buf @ take (sz - 1 - length buf) (first_line bs))), buf @ take (sz - 1 - length buf) (first_line bs))"
proof (induction bs arbitrary: buf)
  case Nil
  then show ?case by (simp add: first_line_def)
next
  case (Cons c bs)
  show ?case
  proof (cases "length buf + 1 < sz")
    case True
    then obtain m where m: "sz - 1 - length buf = Suc m" by (cases "sz - 1 - length buf") auto
    then have m': "sz - Suc (Suc (length buf)) = m" "sz - Suc (length buf) = Suc m" by simp_all
    show ?thesis
    proof (cases "c = 10")
      case False
      have "length (buf @ [c]) + 1 \<le> sz" using True by simp
      from Cons.IH [OF this] show ?thesis using True False m' by (simp add: first_line_Cons)
    qed (use True m' in \<open>simp add: first_line_Cons\<close>)
  next
    case False
    with Cons.prems have "sz - 1 - length buf = 0" by simp
    then show ?thesis using False by simp
  qed
qed

text \<open>What the second read of the functions for fifos gets is lost: the value says that there was nothing.\<close>

lemma readn_fifo_loses:
  assumes "readn sz 0 c = (-2, bs, c')" "d \<noteq> []"
  shows "readn_fifo (Some d) sz c = (-2, take sz d, c')"
  using assms by (simp add: readn_fifo_def)

section \<open>What is on its way\<close>

text \<open>The bytes the channel still has to deliver.\<close>

fun rx_bytes :: "rx list \<Rightarrow> byte list" where
  "rx_bytes [] = []"
| "rx_bytes (Rx_data bs # es) = bs @ rx_bytes es"
| "rx_bytes (_ # es) = rx_bytes es"

definition pending :: "chan \<Rightarrow> byte list" where
  "pending c = rx_bytes (ch_rx c)"

text \<open>
  A channel that flows: data comes in non-empty pieces, without errors, with at most \<open>k\<close>
  timeouts in a row (\<open>b\<close> is what is left of the current run), and nobody interrupts.
\<close>

fun flowing_rx :: "nat \<Rightarrow> nat \<Rightarrow> rx list \<Rightarrow> bool" where
  "flowing_rx k b [] = True"
| "flowing_rx k b (Rx_timeout # es) = (0 < b \<and> flowing_rx k (b - 1) es)"
| "flowing_rx k b (Rx_data bs # es) = (bs \<noteq> [] \<and> flowing_rx k k es)"
| "flowing_rx k b (_ # es) = False"

definition flowing :: "int \<Rightarrow> chan \<Rightarrow> bool" where
  "flowing retry c \<longleftrightarrow> flowing_rx (nat retry) (nat retry) (ch_rx c) \<and> True \<notin> set (ch_intr c)"

lemma get_retry_interrupt_frame:
  "get_retry_interrupt c = (q, c') \<Longrightarrow>
     ch_rx c' = ch_rx c \<and> ch_tx c' = ch_tx c \<and> ch_out c' = ch_out c \<and> set (ch_intr c') \<subseteq> set (ch_intr c)
     \<and> (q \<longrightarrow> True \<in> set (ch_intr c))"
  by (auto simp: get_retry_interrupt_def split: list.splits)

lemma poll_rx_bytes:
  "poll_rx k c = (e, c') \<Longrightarrow> pending c = rx_bytes [e] @ pending c' \<and> set (ch_intr c') \<subseteq> set (ch_intr c)"
proof (induction k arbitrary: c)
  case 0
  then show ?case by (auto simp: pending_def)
next
  case (Suc k)
  obtain q c1 where q: "get_retry_interrupt c = (q, c1)" by force
  note fr = get_retry_interrupt_frame [OF q]
  show ?case
  proof (cases "q \<or> ch_rx c = []")
    case True
    with Suc.prems q fr Suc.IH [of c1] show ?thesis
      by (auto simp: pending_def split: if_splits)
  next
    case False
    then obtain x xs where x: "ch_rx c = x # xs" by (cases "ch_rx c") auto
    with False Suc.prems q fr Suc.IH [of "c1\<lparr>ch_rx := xs\<rparr>"] show ?thesis
      by (cases x) (auto simp: pending_def)
  qed
qed

lemma read1_bytes:
  "read1 sz retry c = (n, bs, c') \<Longrightarrow> pending c = bs @ pending c'"
  by (auto simp: read1_def pending_def split: prod.splits rx.splits if_splits
      dest!: poll_rx_bytes)

lemma sreadm_loop_bytes:
  "sreadm_loop sz retry acc c = (n, bs, e, c') \<Longrightarrow>
     \<exists>got. bs = acc @ got \<and> pending c = got @ pending c'"
proof (induction sz retry acc c rule: sreadm_loop.induct)
  case (1 sz retry acc c)
  obtain m ys c1 where r: "read1 (sz - length acc) retry c = (m, ys, c1)"
    by (metis prod_cases3)
  note rb = read1_bytes [OF r]
  show ?case
  proof (cases "length acc < sz \<and> 0 < m")
    case True
    then have "sreadm_loop sz retry (acc @ ys) c1 = (n, bs, e, c')"
      using "1.prems" r by (simp add: sreadm_loop.simps [of sz retry acc c])
    then obtain got where "bs = (acc @ ys) @ got" "pending c1 = got @ pending c'"
      using "1.IH" r True by fastforce
    then show ?thesis using rb by auto
  next
    case False
    then show ?thesis
      using "1.prems" r rb read1_neg [OF r] read1_length [OF r]
      by (auto simp: sreadm_loop.simps [of sz retry acc c] split: if_splits)
  qed
qed

lemma sreadm_loop_range:
  "sreadm_loop sz retry acc c = (n, bs, e, c') \<Longrightarrow> length acc \<le> sz \<Longrightarrow>
     n = -1 \<or> n = -2 \<or> n = int (length bs) \<and> length bs \<le> sz"
proof (induction sz retry acc c rule: sreadm_loop.induct)
  case (1 sz retry acc c)
  obtain m ys c1 where r: "read1 (sz - length acc) retry c = (m, ys, c1)"
    by (metis prod_cases3)
  show ?case
  proof (cases "length acc < sz \<and> 0 < m")
    case True
    then have "sreadm_loop sz retry (acc @ ys) c1 = (n, bs, e, c')"
      using "1.prems" r by (simp add: sreadm_loop.simps [of sz retry acc c])
    moreover have "length (acc @ ys) \<le> sz"
      using True read1_length [OF r] by auto
    ultimately show ?thesis
      using "1.IH" r True by fastforce
  next
    case False
    then show ?thesis
      using "1.prems" r read1_neg [OF r]
      by (auto simp: sreadm_loop.simps [of sz retry acc c] split: if_splits)
  qed
qed

lemma poll_rx_flowing:
  assumes "flowing_rx k b (ch_rx c)" "True \<notin> set (ch_intr c)" "rx_bytes (ch_rx c) \<noteq> []" "b < m"
  shows "\<exists>bs c'. poll_rx m c = (Rx_data bs, c') \<and> bs \<noteq> [] \<and> flowing_rx k k (ch_rx c')
     \<and> True \<notin> set (ch_intr c')"
  using assms
proof (induction m arbitrary: c b)
  case 0
  then show ?case by simp
next
  case (Suc m)
  obtain q c1 where q: "get_retry_interrupt c = (q, c1)" by force
  note fr = get_retry_interrupt_frame [OF q]
  from Suc.prems(3) obtain x xs where x: "ch_rx c = x # xs" by (cases "ch_rx c") auto
  show ?case
  proof (cases "x = Rx_timeout")
    case True
    have "\<exists>bs c'. poll_rx m (c1\<lparr>ch_rx := xs\<rparr>) = (Rx_data bs, c') \<and> bs \<noteq> []
        \<and> flowing_rx k k (ch_rx c') \<and> True \<notin> set (ch_intr c')"
      using Suc.prems x True fr by (intro Suc.IH [of "b - 1"]) auto
    with True x q fr Suc.prems(2) show ?thesis by auto
  next
    case False
    with Suc.prems x q fr show ?thesis by (cases x) auto
  qed
qed

lemma read1_flowing:
  assumes "flowing retry c" "pending c \<noteq> []" "0 < sz"
  shows "\<exists>bs c'. read1 sz retry c = (int (length bs), bs, c') \<and> bs \<noteq> [] \<and> length bs \<le> sz
     \<and> flowing retry c'"
proof -
  obtain bs c1 where p: "poll_rx (rounds retry) c = (Rx_data bs, c1)" "bs \<noteq> []"
      "flowing_rx (nat retry) (nat retry) (ch_rx c1)" "True \<notin> set (ch_intr c1)"
    using poll_rx_flowing [of "nat retry" "nat retry" c "rounds retry"] assms
    by (auto simp: flowing_def pending_def rounds_def)
  then show ?thesis
    using assms(3) by (auto simp: read1_def flowing_def)
qed

lemma sreadm_loop_flowing:
  assumes "flowing retry c" "length acc \<le> sz" "sz - length acc \<le> length (pending c)"
  shows "\<exists>c'. sreadm_loop sz retry acc c =
       (int sz, acc @ take (sz - length acc) (pending c), None, c') \<and> flowing retry c'"
  using assms
proof (induction sz retry acc c rule: sreadm_loop.induct)
  case (1 sz retry acc c)
  show ?case
  proof (cases "length acc < sz")
    case False
    with "1.prems" show ?thesis by (simp add: sreadm_loop.simps [of sz retry acc c])
  next
    case True
    then have "pending c \<noteq> []" using "1.prems" by auto
    with True obtain bs c1 where r: "read1 (sz - length acc) retry c = (int (length bs), bs, c1)"
        "bs \<noteq> []" "length bs \<le> sz - length acc" "flowing retry c1"
      using read1_flowing [of retry c "sz - length acc"] "1.prems" by auto
    have p: "pending c = bs @ pending c1" using read1_bytes [OF r(1)] .
    have "\<exists>c'. sreadm_loop sz retry (acc @ bs) c1 =
        (int sz, (acc @ bs) @ take (sz - length (acc @ bs)) (pending c1), None, c') \<and> flowing retry c'"
      using True "1.prems" r p by (intro "1.IH" [OF True r(1) [symmetric] refl]) auto
    with True r p show ?thesis
      by (simp add: sreadm_loop.simps [of sz retry acc c])
  qed
qed

section \<open>The interface the packet readers rely on\<close>

text \<open>
  A byte source: a read loses no byte and invents none, returns a count or one of the two
  error codes, and delivers a whole block whenever the source flows and holds enough.
\<close>

locale byte_source =
  fixes rd :: "nat \<Rightarrow> 'c \<Rightarrow> int \<times> byte list \<times> 'c"
    and pend :: "'c \<Rightarrow> byte list"
    and flows :: "'c \<Rightarrow> bool"
  assumes conserve: "rd n c = (k, bs, c') \<Longrightarrow> pend c = bs @ pend c'"
    and outcome: "rd n c = (k, bs, c') \<Longrightarrow> k = -1 \<or> k = -2 \<or> k = int (length bs) \<and> length bs \<le> n"
    and deliver: "flows c \<Longrightarrow> n \<le> length (pend c) \<Longrightarrow>
        \<exists>c'. rd n c = (int n, take n (pend c), c') \<and> flows c'"
begin

lemma deliver_take:
  assumes "flows c" "n \<le> length (pend c)"
  shows "\<exists>c'. rd n c = (int n, take n (pend c), c') \<and> flows c' \<and> pend c' = drop n (pend c)"
proof -
  obtain c' where c': "rd n c = (int n, take n (pend c), c')" "flows c'"
    using deliver [OF assms] by auto
  then have "pend c = take n (pend c) @ pend c'" by (intro conserve)
  then have "drop n (pend c) = drop n (take n (pend c) @ pend c')" by simp
  then have "drop n (pend c) = pend c'" using assms(2) by (simp add: min_def)
  with c' show ?thesis by auto
qed

lemma deliver_block:
  assumes "flows c" "pend c = blk @ rest"
  obtains c' where "rd (length blk) c = (int (length blk), blk, c')" "flows c'" "pend c' = rest"
  using deliver_take [of c "length blk"] assms by auto

lemma read_twice:
  assumes "flows c" "m + n \<le> length (pend c)"
  shows "\<exists>b1 c1 b2 c2. rd m c = (int m, b1, c1) \<and> rd n c1 = (int n, b2, c2)
     \<and> b1 @ b2 = take (m + n) (pend c) \<and> pend c2 = drop (m + n) (pend c) \<and> flows c2"
proof -
  obtain c1 where c1: "rd m c = (int m, take m (pend c), c1)" "flows c1" "pend c1 = drop m (pend c)"
    using deliver_take [of c m] assms by auto
  obtain c2 where c2: "rd n c1 = (int n, take n (pend c1), c2)" "flows c2" "pend c2 = drop n (pend c1)"
    using deliver_take [of c1 n] assms c1 by (auto simp: le_diff_conv2)
  show ?thesis
    using c1 c2 by (auto simp: take_add add.commute)
qed

end

interpretation rdn: byte_source "\<lambda>sz c. readn sz retry c" pending "flowing retry" for retry
proof unfold_locales
  fix n c k bs c'
  assume r: "readn n retry c = (k, bs, c')"
  then obtain e where e: "sreadm_loop n retry [] c = (k, bs, e, c')"
    by (auto simp: readn_def sreadm_def split: prod.splits)
  show "pending c = bs @ pending c'"
    using sreadm_loop_bytes [OF e] by auto
  show "k = -1 \<or> k = -2 \<or> k = int (length bs) \<and> length bs \<le> n"
    using sreadm_loop_range [OF e] by simp
next
  fix c n
  assume "flowing retry c" "n \<le> length (pending c)"
  then show "\<exists>c'. readn n retry c = (int n, take n (pending c), c') \<and> flowing retry c'"
    using sreadm_loop_flowing [of retry c "[]" n] by (auto simp: readn_def sreadm_def)
qed

text \<open>
  C22. Whatever the pieces in which the kernel hands the bytes over, and with up to \<open>retry\<close>
  timeouts between two pieces, \<open>readn\<close> on a channel that holds at least \<open>sz\<close> bytes returns
  \<open>sz\<close> with exactly the next \<open>sz\<close> bytes, and leaves the rest for the next read.
\<close>

theorem readn_fragmentation:
  assumes "flowing retry c" and "sz \<le> length (pending c)"
  shows "\<exists>c'. readn sz retry c = (int sz, take sz (pending c), c')
     \<and> pending c' = drop sz (pending c) \<and> flowing retry c'"
  using rdn.deliver_take [OF assms] by auto

theorem readn_fragmentation_witness:
  "\<exists>c'. readn 3 1 \<lparr>ch_rx = [Rx_data [1, 2], Rx_timeout, Rx_data [3, 4]], ch_tx = [], ch_intr = [], ch_out = []\<rparr>
     = (3, [1, 2, 3], c') \<and> pending c' = [4]"
  using readn_fragmentation [where retry = 1 and sz = 3 and
     c = "\<lparr>ch_rx = [Rx_data [1, 2], Rx_timeout, Rx_data [3, 4]], ch_tx = [], ch_intr = [], ch_out = []\<rparr>"]
  by (auto simp: flowing_def pending_def)

text \<open>
  C23. On any channel, with any errors, timeouts and interrupts, \<open>readn\<close> loses and invents no
  byte: what it stored followed by what is still to come is what was to come before. Its
  value is -1, -2 or the number of bytes stored, never more than asked for.
\<close>

theorem readn_conservation:
  assumes "readn sz retry c = (n, bs, c')"
  shows "pending c = bs @ pending c' \<and> (n = -1 \<or> n = -2 \<or> n = int (length bs) \<and> length bs \<le> sz)"
  using rdn.conserve [OF assms] rdn.outcome [OF assms] by simp

theorem readn_conservation_witness:
  "\<exists>n bs c'. readn 4 0 \<lparr>ch_rx = [Rx_data [7], Rx_data []], ch_tx = [], ch_intr = [], ch_out = []\<rparr> = (n, bs, c')
     \<and> [7] = bs @ pending c'"
proof -
  let ?c = "\<lparr>ch_rx = [Rx_data [7], Rx_data []], ch_tx = [], ch_intr = [], ch_out = []\<rparr>"
  obtain n bs c' where r: "readn 4 0 ?c = (n, bs, c')" by (metis prod_cases3)
  show ?thesis using readn_conservation [OF r] r by (auto simp: pending_def)
qed

section \<open>Writing\<close>

lemma writem_loop_out:
  assumes "writem_loop buf retry i c = (n, c')" "i \<le> length buf"
  shows "\<exists>j. i \<le> j \<and> j \<le> length buf \<and> ch_out c' = ch_out c @ take (j - i) (drop i buf)
     \<and> (n = -1 \<or> n = int j)"
  using assms
proof (induction buf retry i c rule: writem_loop.induct)
  case (1 buf retry i c)
  have frame: "ch_out c2 = ch_out c1" if "poll_tx k c1 = (e, c2)" for k c1 e c2
    using that
    by (induction k arbitrary: c1)
       (auto split: prod.splits list.splits if_splits dest: get_retry_interrupt_frame)
  obtain m c1 where w: "write1 (drop i buf) retry c = (m, c1)" by force
  have w': "m \<ge> -1 \<and> (m = -1 \<longrightarrow> ch_out c1 = ch_out c)
      \<and> (m \<ge> 0 \<longrightarrow> ch_out c1 = ch_out c @ take (nat m) (drop i buf) \<and> nat m \<le> length buf - i)"
    using w frame by (auto simp: write1_def min_def split: prod.splits tx.splits)
  show ?case
  proof (cases "i < length buf \<and> 0 < m")
    case True
    then have "writem_loop buf retry (i + nat m) c1 = (n, c')"
      using "1.prems" w by (simp add: writem_loop.simps [of buf retry i c])
    then obtain j where j: "i + nat m \<le> j" "j \<le> length buf"
        "ch_out c' = ch_out c1 @ take (j - (i + nat m)) (drop (i + nat m) buf)" "n = -1 \<or> n = int j"
      using "1.IH" True w w' by fastforce
    then have "ch_out c' = ch_out c @ take (j - i) (drop i buf)"
      using w' True take_add [of "nat m" "j - (i + nat m)" "drop i buf"]
      by (simp add: add.commute)
    with j show ?thesis by (intro exI [of _ j]) auto
  next
    case False
    then show ?thesis
      using "1.prems" w w'
      by (intro exI [of _ i]) (auto simp: writem_loop.simps [of buf retry i c] split: if_splits)
  qed
qed

text \<open>
  \<open>writen\<close> never writes anything but a prefix of its buffer, whatever the kernel answers:
  if it returns the full length, exactly the buffer went out, and otherwise the returned
  count is the length of the prefix that went out (or -1 after an error).
\<close>

theorem writen_prefix:
  assumes "writen buf retry c = (n, c')"
  shows "\<exists>j \<le> length buf. ch_out c' = ch_out c @ take j buf \<and> (n = -1 \<or> n = int j)"
  using writem_loop_out [of buf retry 0 c n c'] assms by (auto simp: writen_def writem_def)

theorem writen_prefix_witness:
  "\<exists>n c'. writen [1, 2, 3] 0 \<lparr>ch_rx = [], ch_tx = [Tx_room 2, Tx_writeerr], ch_intr = [], ch_out = []\<rparr> = (n, c')
     \<and> (\<exists>j \<le> length [1, 2, 3 :: byte]. ch_out c' = take j [1, 2, 3])"
proof -
  let ?c = "\<lparr>ch_rx = [], ch_tx = [Tx_room 2, Tx_writeerr], ch_intr = [], ch_out = []\<rparr>"
  obtain n c' where r: "writen [1, 2, 3] 0 ?c = (n, c')" by force
  show ?thesis using writen_prefix [OF r] r by (simp del: length_Cons) blast
qed

section \<open>A channel that takes what is written\<close>

text \<open>
  A peer that reads on: \<open>write\<close> always takes something, there are no errors and at most \<open>k\<close>
  timeouts in a row, nobody interrupts, and at least \<open>n\<close> more writes will be answered.
\<close>

fun taking_tx :: "nat \<Rightarrow> nat \<Rightarrow> tx list \<Rightarrow> bool" where
  "taking_tx k b [] = True"
| "taking_tx k b (Tx_timeout # es) = (0 < b \<and> taking_tx k (b - 1) es)"
| "taking_tx k b (Tx_room r # es) = (0 < r \<and> taking_tx k k es)"
| "taking_tx k b (_ # es) = False"

fun tx_answers :: "tx list \<Rightarrow> nat" where
  "tx_answers [] = 0"
| "tx_answers (Tx_room r # es) = Suc (tx_answers es)"
| "tx_answers (_ # es) = tx_answers es"

definition taking :: "int \<Rightarrow> nat \<Rightarrow> chan \<Rightarrow> bool" where
  "taking retry n c \<longleftrightarrow> taking_tx (nat retry) (nat retry) (ch_tx c) \<and> True \<notin> set (ch_intr c) \<and> n \<le> tx_answers (ch_tx c)"

lemma poll_tx_taking:
  assumes "taking_tx k b (ch_tx c)" "True \<notin> set (ch_intr c)" "Suc n \<le> tx_answers (ch_tx c)" "b < m"
  shows "\<exists>r c'. poll_tx m c = (Tx_room r, c') \<and> 0 < r \<and> taking_tx k k (ch_tx c')
     \<and> True \<notin> set (ch_intr c') \<and> n \<le> tx_answers (ch_tx c') \<and> ch_out c' = ch_out c"
  using assms
proof (induction m arbitrary: c b)
  case 0
  then show ?case by simp
next
  case (Suc m)
  obtain q c1 where q: "get_retry_interrupt c = (q, c1)" by force
  note fr = get_retry_interrupt_frame [OF q]
  from Suc.prems(3) obtain x xs where x: "ch_tx c = x # xs" by (cases "ch_tx c") auto
  show ?case
  proof (cases "x = Tx_timeout")
    case True
    have "\<exists>r c'. poll_tx m (c1\<lparr>ch_tx := xs\<rparr>) = (Tx_room r, c') \<and> 0 < r \<and> taking_tx k k (ch_tx c')
        \<and> True \<notin> set (ch_intr c') \<and> n \<le> tx_answers (ch_tx c') \<and> ch_out c' = ch_out (c1\<lparr>ch_tx := xs\<rparr>)"
      using Suc.prems x True fr by (intro Suc.IH [of "b - 1"]) auto
    with True x q fr Suc.prems(2) show ?thesis by auto
  next
    case False
    with Suc.prems x q fr show ?thesis by (cases x) auto
  qed
qed

lemma write1_taking:
  assumes "taking retry (Suc n) c" "buf \<noteq> []"
  shows "\<exists>j c'. write1 buf retry c = (int j, c') \<and> 0 < j \<and> j \<le> length buf \<and> taking retry n c' \<and> ch_out c' = ch_out c @ take j buf"
proof -
  obtain r c1 where p: "poll_tx (rounds retry) c = (Tx_room r, c1)" "0 < r" "taking_tx (nat retry) (nat retry) (ch_tx c1)"
      "True \<notin> set (ch_intr c1)" "n \<le> tx_answers (ch_tx c1)" "ch_out c1 = ch_out c"
    using poll_tx_taking [of "nat retry" "nat retry" c n "rounds retry"] assms(1) by (auto simp: taking_def rounds_def)
  let ?j = "min r (length buf)"
  have "write1 buf retry c = (int ?j, c1\<lparr>ch_out := ch_out c1 @ take ?j buf\<rparr>)"
    using p(1) by (simp add: write1_def min.commute) (simp add: min_def)
  with p assms(2) show ?thesis by (intro exI [of _ ?j]) (auto simp: taking_def)
qed

lemma writem_loop_taking:
  assumes "taking retry (length buf - i + n) c" "i \<le> length buf"
  shows "\<exists>c'. writem_loop buf retry i c = (int (length buf), c') \<and> taking retry n c' \<and> ch_out c' = ch_out c @ drop i buf"
  using assms
proof (induction buf retry i c rule: writem_loop.induct)
  case (1 buf retry i c)
  show ?case
  proof (cases "i < length buf")
    case False
    then have "writem_loop buf retry i c = (int i, c)" by (simp add: writem_loop.simps [of buf retry i c])
    with False "1.prems" show ?thesis by simp
  next
    case True
    then have "taking retry (Suc (length buf - Suc i + n)) c" "drop i buf \<noteq> []" using "1.prems" by (simp_all add: Suc_diff_Suc)
    from write1_taking [OF this]
    obtain j c1 where w: "write1 (drop i buf) retry c = (int j, c1)" "0 < j" "j \<le> length buf - i"
      "taking retry (length buf - Suc i + n) c1" "ch_out c1 = ch_out c @ take j (drop i buf)"
      by auto
    then have "taking retry (length buf - (i + j) + n) c1" "i + j \<le> length buf" using True by (auto simp: taking_def)
    then obtain c' where "writem_loop buf retry (i + j) c1 = (int (length buf), c')" "taking retry n c'"
      "ch_out c' = ch_out c1 @ drop (i + j) buf"
      using "1.IH" [OF True w(1) [symmetric]] w(2) by auto
    moreover have "take j (drop i buf) @ drop (i + j) buf = drop i buf" by (metis append_take_drop_id drop_drop add.commute)
    ultimately show ?thesis using True w by (simp add: writem_loop.simps [of buf retry i c])
  qed
qed

lemma writen_taking:
  assumes "taking retry (length buf + n) c"
  shows "\<exists>c'. writen buf retry c = (int (length buf), c') \<and> taking retry n c' \<and> ch_out c' = ch_out c @ buf"
  using writem_loop_taking [of retry buf 0 n c] assms by (simp add: writen_def writem_def)

end
