(* ===== verification/Bb.thy ===== *)
theory Bb
  imports Nreadn
begin

text \<open>
  \<open>src/bb.c\<close>: the ByteBlaster encoding (every byte xored with \<open>0xff\<close>), the packet types
  recognised by their first byte, and the reads that turn \<open>readn\<close>'s value into the status
  codes of the packet readers (0; -1 system error; -2 timeout; -3 end of file; 1 short read;
  2 not a server list).
\<close>

definition bb_xor :: "byte list \<Rightarrow> byte list" where
  "bb_xor src = map (\<lambda>c. c XOR 0xff) src"

definition bb_is_emwin_data_packet :: "byte \<Rightarrow> bool" where
  "bb_is_emwin_data_packet bbchar \<longleftrightarrow> bbchar XOR 0xff = 0"

definition bb_is_srvlist_packet :: "byte \<Rightarrow> bool" where
  "bb_is_srvlist_packet bbchar \<longleftrightarrow> bbchar XOR 0xff = 47"

definition bb_status :: "int \<Rightarrow> nat \<Rightarrow> int" where
  "bb_status n sz =
     (if n = -1 then -1 else if n = -2 then -2 else if n = 0 then -3
      else if n \<noteq> int sz then 1 else 0)"

definition bb_readn :: "nat \<Rightarrow> int \<Rightarrow> chan \<Rightarrow> int \<times> byte list \<times> chan" where
  "bb_readn sz retry c = (case readn sz retry c of (n, bs, c') \<Rightarrow> (bb_status n sz, bs, c'))"

text \<open>
  The loop of \<open>bb_read_srvlist\<close>: at most \<open>left\<close> more bytes, \<open>k\<close> backslashes seen, the bytes
  so far. On success the bytes read are the result, and their number is the new \<open>*size\<close>.
\<close>

fun bb_read_srvlist_loop :: "nat \<Rightarrow> int \<Rightarrow> nat \<Rightarrow> byte list \<Rightarrow> chan \<Rightarrow> int \<times> byte list \<times> chan" where
  "bb_read_srvlist_loop 0 retry k acc c = ((if k = 4 then 0 else 2), acc, c)"
| "bb_read_srvlist_loop (Suc left) retry k acc c =
     (if k = 4 then (0, acc, c)
      else case bb_readn 1 retry c of
          (status, bs, c') \<Rightarrow>
            if status \<noteq> 0 then (status, acc, c')
            else bb_read_srvlist_loop left retry (if map (\<lambda>b. b XOR 0xff) bs = [92] then k + 1 else k)
                   (acc @ bs) c')"

definition bb_read_srvlist :: "nat \<Rightarrow> int \<Rightarrow> chan \<Rightarrow> int \<times> byte list \<times> chan" where
  "bb_read_srvlist sz retry c = bb_read_srvlist_loop sz retry 0 [] c"

lemma bb_xor_bb_xor [simp]: "bb_xor (bb_xor s) = s"
  by (simp add: bb_xor_def xor.assoc comp_def)

lemma length_bb_xor [simp]: "length (bb_xor s) = length s"
  by (simp add: bb_xor_def)

lemma bb_xor_append [simp]: "bb_xor (s @ t) = bb_xor s @ bb_xor t"
  by (simp add: bb_xor_def)

lemma bb_xor_Cons: "bb_xor (b # s) = (b XOR 0xff) # bb_xor s"
  by (simp add: bb_xor_def)

lemma take_bb_xor [simp]: "take n (bb_xor s) = bb_xor (take n s)"
  by (simp add: bb_xor_def take_map)

lemma drop_bb_xor [simp]: "drop n (bb_xor s) = bb_xor (drop n s)"
  by (simp add: bb_xor_def drop_map)

lemma bb_readn_deliver:
  assumes "flowing retry c" "pending c = blk @ rest" "blk \<noteq> []"
  obtains c' where "bb_readn (length blk) retry c = (0, blk, c')" "flowing retry c'" "pending c' = rest"
proof -
  obtain c' where "readn (length blk) retry c = (int (length blk), blk, c')" "flowing retry c'"
      "pending c' = rest"
    using rdn.deliver_block [OF assms(1,2)] by blast
  with assms(3) show thesis
    by (intro that [of c']) (auto simp: bb_readn_def bb_status_def)
qed

text \<open>
  The outcome of a block read is decided: status 0 only when the whole block was
  stored, -1 and -2 as \<open>readn\<close> says, -3 for an end of file before the first byte, and 1 for a
  block cut short; in every case no byte is lost.
\<close>

theorem bb_readn_outcome:
  assumes "bb_readn sz retry c = (status, bs, c')" and "0 < sz"
  shows "(status = 0 \<longrightarrow> length bs = sz)
    \<and> (status = 1 \<longrightarrow> 0 < length bs \<and> length bs < sz)
    \<and> (status = -3 \<longrightarrow> bs = [])
    \<and> status \<in> {0, -1, -2, -3, 1} \<and> pending c = bs @ pending c'"
proof -
  obtain n where n: "readn sz retry c = (n, bs, c')" "status = bb_status n sz"
    using assms(1) by (auto simp: bb_readn_def split: prod.splits)
  show ?thesis
    using rdn.conserve [OF n(1)] rdn.outcome [OF n(1)] n(2) assms(2)
    by (auto simp: bb_status_def)
qed

theorem bb_readn_outcome_witness:
  "\<exists>status bs c'. bb_readn 2 0 \<lparr>ch_rx = [Rx_data [9]], ch_tx = [], ch_intr = [], ch_out = []\<rparr> = (status, bs, c')
     \<and> status \<in> {0, -1, -2, -3, 1} \<and> [9] = bs @ pending c'"
proof -
  let ?c = "\<lparr>ch_rx = [Rx_data [9]], ch_tx = [], ch_intr = [], ch_out = []\<rparr>"
  obtain st bs c' where r: "bb_readn 2 0 ?c = (st, bs, c')" by (metis prod_cases3)
  show ?thesis using bb_readn_outcome [OF r] r by (auto simp: pending_def)
qed

section \<open>The server list packet\<close>

definition backslashes :: "byte list \<Rightarrow> nat" where
  "backslashes s = length (filter (\<lambda>b. b = 92) s)"

lemma bb_read_srvlist_loop_deliver:
  assumes "flowing retry c" "pending c = bb_xor s @ rest" "length s \<le> left"
    "k + backslashes s = 4" "s \<noteq> [] \<Longrightarrow> last s = 92"
  shows "\<exists>c'. bb_read_srvlist_loop left retry k acc c = (0, acc @ bb_xor s, c')
     \<and> pending c' = rest \<and> flowing retry c'"
  using assms
proof (induction left arbitrary: k acc c s)
  case 0
  then show ?case by (auto simp: bb_xor_def backslashes_def)
next
  case (Suc left)
  show ?case
  proof (cases s)
    case Nil
    with Suc.prems show ?thesis by (auto simp: bb_xor_def backslashes_def)
  next
    case (Cons b t)
    have k: "k \<noteq> 4"
    proof
      assume "k = 4"
      with Suc.prems(4) have "filter (\<lambda>b. b = 92) s = []" by (simp add: backslashes_def)
      moreover have "last s \<in> set s" using Cons by simp
      moreover have "last s = 92" using Suc.prems(5) Cons by blast
      ultimately show False unfolding filter_empty_conv by metis
    qed
    obtain c1 where c1: "bb_readn 1 retry c = (0, [b XOR 0xff], c1)" "flowing retry c1"
        "pending c1 = bb_xor t @ rest"
      using bb_readn_deliver [of retry c "[b XOR 0xff]" "bb_xor t @ rest"] Suc.prems Cons
      by (auto simp: bb_xor_Cons)
    have "\<exists>c'. bb_read_srvlist_loop left retry (if b = 92 then k + 1 else k) (acc @ [b XOR 0xff]) c1 =
        (0, (acc @ [b XOR 0xff]) @ bb_xor t, c') \<and> pending c' = rest \<and> flowing retry c'"
      using Suc.prems c1 Cons by (intro Suc.IH) (auto simp: backslashes_def)
    with k c1 Cons show ?thesis by (simp add: bb_xor_Cons xor.assoc)
  qed
qed

text \<open>
  A server list that ends with its fourth backslash and fits the buffer is read whole and
  nothing after it is touched, so that the next packet starts where the list ended.
\<close>

theorem bb_read_srvlist_frames:
  assumes "flowing retry c" and "pending c = bb_xor s @ rest"
    and "length s \<le> sz" and "backslashes s = 4" and "last s = 92"
  shows "\<exists>c'. bb_read_srvlist sz retry c = (0, bb_xor s, c') \<and> pending c' = rest \<and> flowing retry c'"
  using bb_read_srvlist_loop_deliver [OF assms(1-3), of 0 "[]"] assms(4,5)
  by (simp add: bb_read_srvlist_def)

theorem bb_read_srvlist_frames_witness:
  "\<exists>c'. bb_read_srvlist 1115 0
       \<lparr>ch_rx = [Rx_data (bb_xor ([83, 92, 92, 92, 92] @ [1, 2]))],
        ch_tx = [], ch_intr = [], ch_out = []\<rparr>
     = (0, bb_xor [83, 92, 92, 92, 92], c') \<and> pending c' = bb_xor [1, 2]"
proof -
  let ?c = "\<lparr>ch_rx = [Rx_data (bb_xor ([83, 92, 92, 92, 92] @ [1, 2]))],
        ch_tx = [], ch_intr = [], ch_out = []\<rparr>"
  have "flowing 0 ?c" by (simp add: flowing_def bb_xor_def)
  moreover have "pending ?c = bb_xor [83, 92, 92, 92, 92] @ bb_xor [1, 2]"
    by (simp add: pending_def bb_xor_def)
  ultimately show ?thesis
    using bb_read_srvlist_frames [of 0 ?c "[83, 92, 92, 92, 92]" "bb_xor [1, 2]" 1115]
    by (auto simp: backslashes_def)
qed

end
