(* ===== verification/Stats.thy ===== *)
theory Stats
  imports Npemwin_Prelude
begin

text \<open>
  \<open>src/stats.c\<close> and \<open>src/seqnum.c\<close>: the frame counters of the server, kept at the width of
  \<open>unsigned int\<close>, and the generator of the keys under which the blocks of a file are spooled.
\<close>

section \<open>Frame counters\<close>

record nbsp_stats =
  frames_processed :: u32
  frames_bad :: u32
  frames_received :: u32
  frames_data_size :: u32
  stats_time :: nat

definition init_counters :: "nbsp_stats \<Rightarrow> nbsp_stats" where
  "init_counters st =
     st\<lparr>frames_received := 0, frames_processed := 0, frames_bad := 0, frames_data_size := 0\<rparr>"

definition nbspstats_init :: "nat \<Rightarrow> nbsp_stats \<Rightarrow> nbsp_stats" where
  "nbspstats_init now st = (init_counters st)\<lparr>stats_time := now\<rparr>"

text \<open>The line \<open>%u %u %u %u %u\<close> appended to the status file.\<close>

definition nbspstats_report :: "nbsp_stats \<Rightarrow> byte list" where
  "nbspstats_report st =
     dec (unat (of_nat (stats_time st) :: u32)) @ [32] @ dec (unat (frames_received st)) @ [32]
     @ dec (unat (frames_processed st)) @ [32] @ dec (unat (frames_bad st)) @ [32]
     @ dec (unat (frames_data_size st)) @ [10]"

text \<open>The counters afterwards and the line reported.\<close>

definition nbspstats_update :: "nat \<Rightarrow> nbsp_stats \<Rightarrow> nbsp_stats \<times> byte list" where
  "nbspstats_update now st =
     (let st = st\<lparr>stats_time := now\<rparr> in (init_counters st, nbspstats_report st))"

definition update_stats_frames_received :: "u32 \<Rightarrow> nbsp_stats \<Rightarrow> nbsp_stats" where
  "update_stats_frames_received frame_data_size st =
     st\<lparr>frames_received := frames_received st + 1,
        frames_data_size := frames_data_size st + frame_data_size\<rparr>"

definition update_stats_goodframes :: "nbsp_stats \<Rightarrow> nbsp_stats" where
  "update_stats_goodframes st = st\<lparr>frames_processed := frames_processed st + 1\<rparr>"

definition update_stats_badframes :: "nbsp_stats \<Rightarrow> nbsp_stats" where
  "update_stats_badframes st = st\<lparr>frames_bad := frames_bad st + 1\<rparr>"

definition update_stats_frames :: "int \<Rightarrow> nbsp_stats \<Rightarrow> nbsp_stats" where
  "update_stats_frames status st =
     (if status = 0 then update_stats_goodframes st else update_stats_badframes st)"

text \<open>Every frame received is either processed or bad: the counters balance, modulo wrap-around.\<close>

definition stats_balanced :: "nbsp_stats \<Rightarrow> bool" where
  "stats_balanced st \<longleftrightarrow> frames_received st = frames_processed st + frames_bad st"

lemmas stats_defs = update_stats_frames_def update_stats_goodframes_def
  update_stats_badframes_def update_stats_frames_received_def stats_balanced_def

lemma stats_balanced_frame:
  "stats_balanced st \<Longrightarrow> stats_balanced (update_stats_frames status (update_stats_frames_received n st))"
  by (simp add: stats_defs)

lemma stats_balanced_init [simp]: "stats_balanced (init_counters st)"
  by (simp add: stats_balanced_def init_counters_def)

section \<open>Sequence number keys\<close>

definition SEQNUM_SIZE :: nat where "SEQNUM_SIZE = 16"
definition SEQNUMKEY_FIRST :: nat where "SEQNUMKEY_FIRST = 123456"
definition SEQNUMKEY_LAST :: nat where "SEQNUMKEY_LAST = 923456"

text \<open>The static counter \<open>g_seqnum_key\<close> before and after, the status and the key text.\<close>

definition get_seqnum_key :: "nat \<Rightarrow> int \<times> byte list \<times> nat" where
  "get_seqnum_key k =
     (let k = (if k = SEQNUMKEY_LAST then SEQNUMKEY_FIRST else k + 1);
          key = dec k
      in (if length key > SEQNUM_SIZE then 1 else 0, take SEQNUM_SIZE key, k))"

definition seqnum_next :: "nat \<Rightarrow> nat" where
  "seqnum_next k = snd (snd (get_seqnum_key k))"

definition seqnum_ok :: "nat \<Rightarrow> bool" where
  "seqnum_ok k \<longleftrightarrow> SEQNUMKEY_FIRST \<le> k \<and> k \<le> SEQNUMKEY_LAST"

text \<open>The key handed out by the \<open>n\<close>-th call after the counter stood at \<open>k\<close>.\<close>

definition nth_key :: "nat \<Rightarrow> nat \<Rightarrow> byte list" where
  "nth_key k n = fst (snd (get_seqnum_key ((seqnum_next ^^ n) k)))"

lemmas seqnum_consts = SEQNUM_SIZE_def SEQNUMKEY_FIRST_def SEQNUMKEY_LAST_def

lemma seqnum_next_eq: "seqnum_next k = (if k = 923456 then 123456 else k + 1)"
  by (simp add: seqnum_next_def get_seqnum_key_def seqnum_consts Let_def)

lemma seqnum_next_ok [simp]: "seqnum_ok k \<Longrightarrow> seqnum_ok (seqnum_next k)"
  by (auto simp: seqnum_ok_def seqnum_next_eq seqnum_consts)

lemma get_seqnum_key_ok:
  assumes "seqnum_ok k"
  shows "get_seqnum_key k = (0, dec (seqnum_next k), seqnum_next k)"
proof -
  have "seqnum_next k < 10 ^ 6"
    using assms by (auto simp: seqnum_ok_def seqnum_next_eq seqnum_consts)
  then have "length (dec (seqnum_next k)) \<le> 16"
    using length_dec_le [of "seqnum_next k" 6] by simp
  then show ?thesis
    by (auto simp: get_seqnum_key_def seqnum_next_def seqnum_consts Let_def)
qed

lemma seqnum_iter:
  assumes "seqnum_ok k"
  shows "(seqnum_next ^^ n) k = 123456 + (k - 123456 + n) mod 800001 \<and> seqnum_ok ((seqnum_next ^^ n) k)"
proof (induction n)
  case 0
  with assms show ?case by (auto simp: seqnum_ok_def seqnum_consts)
next
  case (Suc n)
  let ?m = "(k - 123456 + n) mod 800001"
  have "(k - 123456 + Suc n) mod 800001 = (if Suc ?m = 800001 then 0 else Suc ?m)"
    by (metis add_Suc_right mod_Suc)
  with Suc show ?case by (auto simp: seqnum_next_eq seqnum_ok_def seqnum_consts)
qed

lemma dec_inject: "dec m = dec n \<Longrightarrow> m = n"
  by (metis digits_val_dec)

text \<open>
  Starting anywhere in its range, the generator always succeeds, its keys have at most 16
  digits, and any 800001 consecutive keys are pairwise different, so that two files being
  received at the same time are never spooled under the same key unless 800001 files were
  started in between.
\<close>

theorem seqnum_keys_distinct:
  assumes "seqnum_ok k" and "i < j" and "j - i < 800001"
  shows "nth_key k i \<noteq> nth_key k j \<and> fst (get_seqnum_key ((seqnum_next ^^ j) k)) = 0
     \<and> length (nth_key k j) \<le> SEQNUM_SIZE"
proof -
  have key: "get_seqnum_key ((seqnum_next ^^ n) k) =
      (0, dec ((seqnum_next ^^ Suc n) k), (seqnum_next ^^ Suc n) k)" for n
    using get_seqnum_key_ok [OF conjunct2 [OF seqnum_iter [OF assms(1), of n]]] by simp
  have "(k - 123456 + Suc i) mod 800001 \<noteq> (k - 123456 + Suc j) mod 800001"
  proof
    assume "(k - 123456 + Suc i) mod 800001 = (k - 123456 + Suc j) mod 800001"
    then have "800001 dvd (k - 123456 + Suc j) - (k - 123456 + Suc i)"
      using assms(2) by (intro mod_eq_dvd_iff_nat [THEN iffD1, rotated]) auto
    then have "800001 dvd j - i" using assms(2) by simp
    with assms(2,3) show False by (auto dest: dvd_imp_le)
  qed
  then have "(seqnum_next ^^ Suc i) k \<noteq> (seqnum_next ^^ Suc j) k"
    using seqnum_iter [OF assms(1)] by (metis add_left_cancel)
  moreover have "length (dec ((seqnum_next ^^ Suc j) k)) \<le> 6"
    using seqnum_iter [OF assms(1), of "Suc j"]
    by (intro length_dec_le) (auto simp: seqnum_ok_def seqnum_consts)
  ultimately show ?thesis
    by (auto simp: nth_key_def key seqnum_consts dest: dec_inject)
qed

theorem seqnum_keys_distinct_witness:
  "seqnum_ok 123456 \<and> nth_key 123456 0 \<noteq> nth_key 123456 800000"
  using seqnum_keys_distinct [of 123456 0 800000] by (simp add: seqnum_ok_def seqnum_consts)

end
