(* ===== verification/Emwin_Packet.thy ===== *)
theory Emwin_Packet
  imports Scanf Util Bb Stats
begin

text \<open>
  \<open>src/emwin.h\<close>, the packet decoding half of \<open>src/emwin.c\<close>, and \<open>src/v2.c\<close>: the packet
  structure, the header format, the checksum and file name checks, the two queue forms of a
  packet (plain and compressed), and the functions that fill the structure from the bytes of
  a packet. A buffer with its size variable is a list of that length; \<open>ep->data\<close>, a pointer
  to the data block inside \<open>rawdata\<close>, is the function \<open>ep_data\<close>.

  Outside the repository: zlib (\<open>compressBound\<close>, \<open>compress\<close>) and the allocator are the record
  \<open>zlib\<close>; the bytes that lie before \<open>header.filename\<close> in memory, which \<open>checkfilename\<close>
  reads for a name of fewer than four characters, are the function \<open>fe_below\<close>.
\<close>

section \<open>Data\<close>

definition EMWIN_PACKET_SIZE :: nat where "EMWIN_PACKET_SIZE = 1116"
definition EMWIN_HEADER_SIZE :: nat where "EMWIN_HEADER_SIZE = 80"
definition EMWIN_NULLPAD_SIZE :: nat where "EMWIN_NULLPAD_SIZE = 6"
definition EMWIN_QUEUE_ENVELOPE_SIZE :: nat where "EMWIN_QUEUE_ENVELOPE_SIZE = 4"
definition QUEUE_PACKET_SIZE :: nat where
  "QUEUE_PACKET_SIZE = EMWIN_PACKET_SIZE + EMWIN_QUEUE_ENVELOPE_SIZE"
definition V2_DL_TAG_START :: nat where "V2_DL_TAG_START = 69"
definition PROTOCOL_EMWIN1 :: int where "PROTOCOL_EMWIN1 = 1"

lemmas emwin_consts = EMWIN_PACKET_SIZE_def EMWIN_HEADER_SIZE_def EMWIN_NULLPAD_SIZE_def
  EMWIN_QUEUE_ENVELOPE_SIZE_def QUEUE_PACKET_SIZE_def V2_DL_TAG_START_def PROTOCOL_EMWIN1_def

record emwin_packet_header =
  filename :: "byte list"
  blockno :: int
  numblocks :: int
  hdr_checksum :: int
  dtstamp :: "byte list"

datatype bb_packet_type = BB_PACKET_TYPE_UNKNOWN | BB_PACKET_TYPE_DATA | BB_PACKET_TYPE_SRVLIST

record emwin_packet =
  header :: emwin_packet_header
  data_size :: nat
  rawdata :: "byte list"
  bbdata :: "byte list"
  bbtype :: bb_packet_type
  queue_data_v1 :: "byte list"
  queue_data_v2 :: "byte list"
  compress_ratio :: int

definition ep_data :: "emwin_packet \<Rightarrow> byte list" where
  "ep_data ep = take (data_size ep) (drop EMWIN_HEADER_SIZE (rawdata ep))"

record zlib =
  z_bound :: "nat \<Rightarrow> nat"
  z_compress :: "byte list \<Rightarrow> nat \<Rightarrow> byte list option"
  z_malloc :: "nat \<Rightarrow> bool"

record fill_env =
  fe_serverprotocol :: int
  fe_min_compress_ratio :: int
  fe_zlib :: zlib
  fe_below :: "nat \<Rightarrow> byte"

text \<open>What the functions below change outside the packet: the counters and the zlib buffer.\<close>

record emwin_globals =
  nbspstats :: nbsp_stats
  gzlib_buffer_size :: nat

section \<open>The version 2 packet\<close>

text \<open>The status, the version 2 raw data, and the size of the zlib buffer afterwards.\<close>

definition raw1_to_raw2 ::
  "zlib \<Rightarrow> nat \<Rightarrow> byte list \<Rightarrow> nat \<Rightarrow> int \<times> byte list \<times> nat" where
  "raw1_to_raw2 z gz rawdata1 rawdata2_size =
     (let compress_bound = z_bound z (length rawdata1) in
      if compress_bound > gz \<and> \<not> z_malloc z compress_bound then (-1, [], 0)
      else
        let gz = (if compress_bound > gz then compress_bound else gz);
            block1 = drop EMWIN_HEADER_SIZE rawdata1;
            block2_size = rawdata2_size - EMWIN_HEADER_SIZE
        in case z_compress z block1 gz of
            None \<Rightarrow> (1, [], gz)
          | Some cz \<Rightarrow>
              if length cz > block2_size then (1, [], gz)
              else
                let p = cstr ''/DL'' @ dec (length cz);
                    p_size = EMWIN_HEADER_SIZE - V2_DL_TAG_START
                in if length p \<ge> p_size then (2, [], gz)
                   else (0, memcpy_at (take EMWIN_HEADER_SIZE rawdata1) V2_DL_TAG_START (p @ [32]) @ cz, gz))"

text \<open>A packet as it is queued: its size in four bytes, then the packet.\<close>

definition envelope :: "byte list \<Rightarrow> byte list" where
  "envelope bb = pack_uint32 (replicate EMWIN_QUEUE_ENVELOPE_SIZE 0 @ bb) (of_nat (length bb)) 0"

definition build_queue_data_v2 ::
  "zlib \<Rightarrow> nat \<Rightarrow> emwin_packet \<Rightarrow> int \<times> emwin_packet \<times> nat" where
  "build_queue_data_v2 z gz ep =
     (let rawdata2_start = EMWIN_QUEUE_ENVELOPE_SIZE + EMWIN_NULLPAD_SIZE in
      case raw1_to_raw2 z gz (rawdata ep) (QUEUE_PACKET_SIZE - rawdata2_start) of
        (status, rawdata2, gz) \<Rightarrow>
          if status \<noteq> 0 then (status, ep, gz)
          else
            let bbdata2 = replicate EMWIN_NULLPAD_SIZE 0 @ rawdata2
            in (0, ep\<lparr>queue_data_v2 := envelope (bb_xor bbdata2),
                      compress_ratio := int ((100 * length rawdata2) div length (rawdata ep))\<rparr>, gz))"

section \<open>Header, checksum, file name\<close>

text \<open>The format \<open>/PF%12s /PN %d /PT %d /CS %d /FD%22c\<close>.\<close>

definition header_fmt :: "scan_dir list" where
  "header_fmt =
     scan_lit (cstr ''/PF'') @ SStr 12 # SWs # scan_lit (cstr ''/PN'') @ SWs # SInt
     # SWs # scan_lit (cstr ''/PT'') @ SWs # SInt # SWs # scan_lit (cstr ''/CS'') @ SWs # SInt
     # SWs # scan_lit (cstr ''/FD'') @ [SChars 22]"

fun set_header_field :: "nat \<Rightarrow> scan_val \<Rightarrow> emwin_packet_header \<Rightarrow> emwin_packet_header" where
  "set_header_field i (VStr s) h =
     (if i = 0 then h\<lparr>filename := s\<rparr> else if i = 4 then h\<lparr>dtstamp := s\<rparr> else h)"
| "set_header_field i (VInt v) h =
     (if i = 1 then h\<lparr>blockno := v\<rparr> else if i = 2 then h\<lparr>numblocks := v\<rparr>
      else if i = 3 then h\<lparr>hdr_checksum := v\<rparr> else h)"

fun assign_header :: "nat \<Rightarrow> scan_val list \<Rightarrow> emwin_packet_header \<Rightarrow> emwin_packet_header" where
  "assign_header i [] h = h"
| "assign_header i (v # vs) h = assign_header (Suc i) vs (set_header_field i v h)"

definition byte_sum :: "byte list \<Rightarrow> int" where
  "byte_sum bs = (\<Sum>b \<leftarrow> bs. int (unat b))"

text \<open>0 when the sum of the data bytes is the header's, 1 otherwise.\<close>

definition checksum :: "emwin_packet \<Rightarrow> int" where
  "checksum ep = (if hdr_checksum (header ep) \<noteq> byte_sum (ep_data ep) then 1 else 0)"

text \<open>The character \<open>filename[i]\<close>, where \<open>i\<close> may be negative.\<close>

definition fname_at :: "(nat \<Rightarrow> byte) \<Rightarrow> byte list \<Rightarrow> int \<Rightarrow> byte" where
  "fname_at below name i =
     (if i < 0 then below (nat (- i)) else if nat i < length name then name ! nat i else 0)"

text \<open>The status and the file name afterwards, in lower case when it was accepted.\<close>

definition checkfilename :: "(nat \<Rightarrow> byte) \<Rightarrow> byte list \<Rightarrow> int \<times> byte list" where
  "checkfilename below name =
     (let namelen = int (length name);
          rootnamelen = namelen - 4;
          at = fname_at below name
      in if (\<forall>i \<in> set [0..rootnamelen - 1]. isalnum (at i)) \<and> at rootnamelen = 46
           \<and> (\<forall>i \<in> set [rootnamelen + 1..namelen - 1]. isalnum (at i))
         then (0, map tolower name) else (1, name))"

definition is_text_file :: "(nat \<Rightarrow> byte) \<Rightarrow> byte list \<Rightarrow> bool" where
  "is_text_file below name =
     (let namelen = int (length name);
          extension = map (fname_at below name) [namelen - 3..namelen - 1]
      in extension = cstr ''txt'' \<or> extension = cstr ''TXT'')"

section \<open>Filling the packet structure\<close>

text \<open>
  \<open>fill_packet_struct_bb\<close> in its three parts: the queue packets, the header, and the counters.
  \<open>fill_packet_struct_serial\<close> is a second copy of the same code in the source, and is
  translated on its own below.
\<close>

definition build_queues ::
  "fill_env \<Rightarrow> emwin_packet \<Rightarrow> emwin_globals \<Rightarrow> emwin_packet \<times> emwin_globals" where
  "build_queues env ep g =
     (let ep = ep\<lparr>queue_data_v1 := envelope (bbdata ep)\<rparr> in
      if fe_serverprotocol env = PROTOCOL_EMWIN1
      then (ep\<lparr>queue_data_v2 := envelope (bbdata ep)\<rparr>, g)
      else case build_queue_data_v2 (fe_zlib env) (gzlib_buffer_size g) ep of
          (status, ep, gz) \<Rightarrow>
            (if status \<noteq> 0 \<or> compress_ratio ep \<ge> fe_min_compress_ratio env
             then ep\<lparr>queue_data_v2 := envelope (bbdata ep)\<rparr> else ep,
             g\<lparr>gzlib_buffer_size := gz\<rparr>))"

definition decode_header ::
  "fill_env \<Rightarrow> emwin_packet \<Rightarrow> int \<times> emwin_packet" where
  "decode_header env ep =
     (let vals = sscanf header_fmt (cstring (rawdata ep));
          ep = ep\<lparr>header := assign_header 0 vals (header ep)\<rparr>
      in if length vals < 5 then (2, ep)
         else if checksum ep \<noteq> 0 then (3, ep)
         else case checkfilename (fe_below env) (filename (header ep)) of
             (status, name) \<Rightarrow>
               let ep = ep\<lparr>header := (header ep)\<lparr>filename := name\<rparr>\<rparr>
               in if status \<noteq> 0 then (4, ep)
                  else if is_text_file (fe_below env) name
                  then (0, ep\<lparr>data_size := length (takeWhile (\<lambda>b. b \<noteq> 0) (ep_data ep))\<rparr>)
                  else (0, ep))"

definition fill_packet_rest ::
  "fill_env \<Rightarrow> emwin_packet \<Rightarrow> emwin_globals \<Rightarrow> int \<times> emwin_packet \<times> emwin_globals" where
  "fill_packet_rest env ep g =
     (case build_queues env ep g of
        (ep, g) \<Rightarrow>
          let st = update_stats_frames_received (of_nat (length (bbdata ep))) (nbspstats g)
          in case decode_header env ep of
              (status, ep) \<Rightarrow> (status, ep, g\<lparr>nbspstats := update_stats_frames status st\<rparr>))"

definition fill_packet_struct_bb ::
  "fill_env \<Rightarrow> emwin_packet \<Rightarrow> byte list \<Rightarrow> emwin_globals \<Rightarrow> int \<times> emwin_packet \<times> emwin_globals" where
  "fill_packet_struct_bb env ep bb g =
     (let n = length bb - EMWIN_NULLPAD_SIZE * 2
      in fill_packet_rest env
           (ep\<lparr>bbdata := bb,
               rawdata := map (\<lambda>b. b XOR 0xff) (take n (drop EMWIN_NULLPAD_SIZE bb)),
               data_size := n - EMWIN_HEADER_SIZE\<rparr>) g)"

text \<open>The format that \<open>fill_packet_struct_serial\<close> declares for itself.\<close>

definition serial_fmt :: "scan_dir list" where
  "serial_fmt =
     scan_lit (cstr ''/PF'') @ [SStr 12, SWs] @ scan_lit (cstr ''/PN'') @ [SWs, SInt, SWs]
     @ scan_lit (cstr ''/PT'') @ [SWs, SInt, SWs] @ scan_lit (cstr ''/CS'') @ [SWs, SInt, SWs]
     @ scan_lit (cstr ''/FD'') @ [SChars 22]"

definition fill_packet_struct_serial ::
  "fill_env \<Rightarrow> emwin_packet \<Rightarrow> byte list \<Rightarrow> emwin_globals \<Rightarrow> int \<times> emwin_packet \<times> emwin_globals" where
  "fill_packet_struct_serial env ep serialdata g =
     (let ep = ep\<lparr>bbdata := map (\<lambda>b. b XOR 0xff) serialdata\<rparr>;
          datasize = length serialdata - EMWIN_NULLPAD_SIZE * 2;
          ep = ep\<lparr>rawdata := map (\<lambda>i. serialdata ! (i + EMWIN_NULLPAD_SIZE)) [0..<datasize],
                  data_size := datasize - EMWIN_HEADER_SIZE\<rparr>;
          ep = ep\<lparr>queue_data_v1 := envelope (bbdata ep)\<rparr>;
          (as_v1, ep, g) =
            (if fe_serverprotocol env = PROTOCOL_EMWIN1 then (True, ep, g)
             else case build_queue_data_v2 (fe_zlib env) (gzlib_buffer_size g) ep of
                 (status, ep, gz) \<Rightarrow>
                   (status \<noteq> 0 \<or> compress_ratio ep \<ge> fe_min_compress_ratio env, ep,
                    g\<lparr>gzlib_buffer_size := gz\<rparr>));
          ep = (if as_v1 then ep\<lparr>queue_data_v2 := envelope (bbdata ep)\<rparr> else ep);
          g = g\<lparr>nbspstats := update_stats_frames_received (of_nat (length (bbdata ep))) (nbspstats g)\<rparr>;
          vals = sscanf serial_fmt (cstring (rawdata ep));
          ep = ep\<lparr>header := assign_header 0 vals (header ep)\<rparr>;
          bad = g\<lparr>nbspstats := update_stats_frames 1 (nbspstats g)\<rparr>
      in if length vals < 5 then (2, ep, bad)
         else if checksum ep \<noteq> 0 then (3, ep, bad)
         else
           let (status, name) = checkfilename (fe_below env) (filename (header ep));
               ep = ep\<lparr>header := (header ep)\<lparr>filename := name\<rparr>\<rparr>
           in if status \<noteq> 0 then (4, ep, bad)
              else
                let ep = (if is_text_file (fe_below env) (filename (header ep))
                          then ep\<lparr>data_size := length (takeWhile (\<lambda>b. b \<noteq> 0) (ep_data ep))\<rparr> else ep)
                in (0, ep, g\<lparr>nbspstats := update_stats_frames 0 (nbspstats g)\<rparr>))"

definition WX14_ERROR_EMWIN_FILL_PACKET :: int where "WX14_ERROR_EMWIN_FILL_PACKET = 8"

definition fill_packet_struct_wx14 ::
  "fill_env \<Rightarrow> emwin_packet \<Rightarrow> byte list \<Rightarrow> emwin_globals \<Rightarrow> int \<times> emwin_packet \<times> emwin_globals" where
  "fill_packet_struct_wx14 env ep data g =
     (case fill_packet_struct_serial env ep data g of
        (status, ep, g) \<Rightarrow> (if status \<noteq> 0 then WX14_ERROR_EMWIN_FILL_PACKET else status, ep, g))"

text \<open>
  A server list packet: 0, or 2 when it does not start with \<open>/ServerList/\<close>. The rest of the
  buffers is filled up to \<open>EMWIN_PACKET_SIZE\<close>, but the sizes, and so the lists, are those of
  the packet.
\<close>

definition try_serverlist :: "emwin_packet \<Rightarrow> byte list \<Rightarrow> int \<times> emwin_packet" where
  "try_serverlist ep bb =
     (let ep = ep\<lparr>bbdata := bb, rawdata := bb_xor bb\<rparr>
      in if take 12 (rawdata ep) \<noteq> cstr ''/ServerList/'' then (2, ep)
         else (0, ep\<lparr>queue_data_v1 := envelope bb, queue_data_v2 := envelope bb\<rparr>))"

section \<open>The queue envelope\<close>

lemma length_envelope [simp]: "length (envelope bb) = 4 + length bb"
  by (simp add: envelope_def emwin_consts)

lemma drop_envelope [simp]: "drop 4 (envelope bb) = bb"
  by (simp add: envelope_def emwin_consts)

lemma unpack_envelope [simp]: "unpack_uint32 (envelope bb) 0 = of_nat (length bb)"
  by (simp add: envelope_def emwin_consts)

lemma unat_unpack_envelope:
  "length bb < 2 ^ 32 \<Longrightarrow> unat (unpack_uint32 (envelope bb) 0) = length bb"
  by (simp add: unat_of_nat)

section \<open>What filling keeps\<close>

lemma build_queue_data_v2_frame:
  "build_queue_data_v2 z gz ep = (status, ep', gz') \<Longrightarrow>
     header ep' = header ep \<and> data_size ep' = data_size ep \<and> rawdata ep' = rawdata ep
     \<and> bbdata ep' = bbdata ep \<and> bbtype ep' = bbtype ep \<and> queue_data_v1 ep' = queue_data_v1 ep"
  by (auto simp: build_queue_data_v2_def Let_def split: prod.splits if_splits)

lemma build_queues_frame:
  "build_queues env ep g = (ep', g') \<Longrightarrow>
     header ep' = header ep \<and> data_size ep' = data_size ep \<and> rawdata ep' = rawdata ep
     \<and> bbdata ep' = bbdata ep \<and> bbtype ep' = bbtype ep \<and> queue_data_v1 ep' = envelope (bbdata ep)
     \<and> nbspstats g' = nbspstats g"
  by (auto simp: build_queues_def Let_def split: prod.splits if_splits
      dest!: build_queue_data_v2_frame)

lemma decode_header_frame:
  "decode_header env ep = (status, ep') \<Longrightarrow>
     rawdata ep' = rawdata ep \<and> bbdata ep' = bbdata ep \<and> bbtype ep' = bbtype ep
     \<and> queue_data_v1 ep' = queue_data_v1 ep \<and> queue_data_v2 ep' = queue_data_v2 ep
     \<and> status \<in> {0, 2, 3, 4}"
  by (auto simp: decode_header_def Let_def split: prod.splits if_splits)

lemma fill_packet_restE:
  assumes "fill_packet_rest env ep g = (status, ep', g')"
  obtains epq gq where "build_queues env ep g = (epq, gq)" "decode_header env epq = (status, ep')"
    "g' = gq\<lparr>nbspstats := update_stats_frames status
       (update_stats_frames_received (of_nat (length (bbdata ep))) (nbspstats g))\<rparr>"
  using assms
  by (auto simp: fill_packet_rest_def Let_def split: prod.splits dest: build_queues_frame)

text \<open>The two copies of the code that fills the structure, compared part by part.\<close>

lemma serial_fmt_eq: "serial_fmt = header_fmt"
  by (simp add: serial_fmt_def header_fmt_def)

lemma serial_rawdata:
  "map (\<lambda>i. s ! (i + k)) [0..<length s - k * 2] = take (length s - k * 2) (drop k s)"
  by (rule nth_equalityI) (auto simp: add.commute)

lemma update_stats_frames_bad:
  "update_stats_frames 2 st = update_stats_frames 1 st"
  "update_stats_frames 3 st = update_stats_frames 1 st"
  "update_stats_frames 4 st = update_stats_frames 1 st"
  by (simp_all add: update_stats_frames_def)

lemma fill_serial_rest:
  "fill_packet_struct_serial env ep s g =
     fill_packet_rest env
       (ep\<lparr>bbdata := map (\<lambda>b. b XOR 0xff) s, rawdata := take (length s - 12) (drop 6 s),
           data_size := length s - 12 - 80\<rparr>) g"
proof -
  have raw: "map (\<lambda>i. s ! (i + 6)) [0..<length s - 12] = take (length s - 12) (drop 6 s)"
    using serial_rawdata [of s 6] by simp
  show ?thesis
    by (auto simp: fill_packet_struct_serial_def fill_packet_rest_def build_queues_def
        decode_header_def Let_def emwin_consts raw serial_fmt_eq update_stats_frames_bad
        split: prod.splits)
qed

lemma fill_serial_bb_xor:
  "fill_packet_struct_serial env ep s g = fill_packet_struct_bb env ep (bb_xor s) g"
  by (simp add: fill_serial_rest fill_packet_struct_bb_def Let_def bb_xor_def emwin_consts
      drop_map take_map comp_def xor.assoc)

text \<open>
  C32. The two functions that fill the packet structure, which the source has as separate
  copies, agree: a packet read from a serial line or an infeed is treated as the same packet
  read xored from a ByteBlaster server, with the same status, structure, queue packets and
  counters. A packet read from a WX14 device gets the same structure, queue packets and
  counters, and its status is 0 exactly if that of the other two is, and 8 otherwise.
\<close>

theorem fill_serial_eq_bb:
  "fill_packet_struct_serial env ep s g = fill_packet_struct_bb env ep (bb_xor s) g
   \<and> fill_packet_struct_wx14 env ep s g =
       (case fill_packet_struct_bb env ep (bb_xor s) g of
          (status, ep', g') \<Rightarrow> (if status = 0 then 0 else 8, ep', g'))"
  by (simp add: fill_packet_struct_wx14_def WX14_ERROR_EMWIN_FILL_PACKET_def fill_serial_bb_xor
      split: prod.split)

text \<open>
  Whatever the packet holds and whatever status it gets, the version 1 queue packet is its
  size in four bytes followed by the packet as it came in, so that clients of version 1 get
  the feed byte for byte.
\<close>

theorem fill_bb_retransmits:
  assumes "fill_packet_struct_bb env ep bb g = (status, ep', g')" and "length bb < 2 ^ 32"
  shows "bbdata ep' = bb \<and> drop EMWIN_QUEUE_ENVELOPE_SIZE (queue_data_v1 ep') = bb
    \<and> unat (unpack_uint32 (queue_data_v1 ep') 0) = length bb"
proof -
  from assms(1) have r: "fill_packet_rest env (ep\<lparr>bbdata := bb,
      rawdata := map (\<lambda>b. b XOR 0xff) (take (length bb - 12) (drop 6 bb)),
      data_size := length bb - 12 - 80\<rparr>) g = (status, ep', g')"
    by (simp add: fill_packet_struct_bb_def Let_def emwin_consts)
  then show ?thesis
    using assms(2) unat_unpack_envelope [of bb]
    by (auto elim!: fill_packet_restE dest!: build_queues_frame decode_header_frame
        simp: EMWIN_QUEUE_ENVELOPE_SIZE_def)
qed

section \<open>The version 2 packet\<close>

lemma length_DL_tag: "n \<le> 1030 \<Longrightarrow> length (cstr ''/DL'' @ dec n) \<le> 7"
  using length_dec_le [of n 4] by (simp add: cstr_def)

text \<open>What a successful conversion gives, for a header of full length.\<close>

lemma raw1_to_raw2_ok:
  assumes "raw1_to_raw2 z gz raw1 1110 = (0, raw2, gz')" and "80 \<le> length raw1"
  obtains cz tag where "z_compress z (drop 80 raw1) gz' = Some cz"
    "tag = cstr ''/DL'' @ dec (length cz) @ [32]" "length tag \<le> 8" "length cz \<le> 1030"
    "raw2 = take 69 raw1 @ tag @ drop (69 + length tag) (take 80 raw1) @ cz"
  using assms length_DL_tag
  by (auto simp: raw1_to_raw2_def Let_def emwin_consts memcpy_at_def min_def
      split: if_splits option.splits)

lemma raw1_to_raw2_length:
  "raw1_to_raw2 z gz raw1 1110 = (0, raw2, gz') \<Longrightarrow> 80 \<le> length raw1 \<Longrightarrow>
     80 \<le> length raw2 \<and> length raw2 \<le> 1110"
  by (erule raw1_to_raw2_ok) (auto simp: min_def)

text \<open>
  C18. A packet that was compressed for version 2 clients can be decoded: undoing the xor, the
  header is the original one with \<open>/DL\<close> and the length of the block in it from column 69
  on, and decompressing the block that follows gives the original data block. The only thing
  asked of zlib is that \<open>uncompress\<close> undoes \<open>compress\<close>.
\<close>

theorem v2_packet_decodes:
  assumes inverse: "\<And>b n cz. z_compress z b n = Some cz \<Longrightarrow> uncompress cz = b"
    and ok: "build_queue_data_v2 z gz ep = (0, ep', gz')"
    and len: "80 \<le> length (rawdata ep)"
  shows "\<exists>raw2. drop EMWIN_QUEUE_ENVELOPE_SIZE (queue_data_v2 ep') = bb_xor (replicate 6 0 @ raw2)
    \<and> take 69 raw2 = take 69 (rawdata ep)
    \<and> sscanf (scan_lit (cstr ''/DL'') @ [SInt]) (drop 69 raw2) = [VInt (int (length (drop 80 raw2)))]
    \<and> uncompress (drop 80 raw2) = drop 80 (rawdata ep)"
proof -
  obtain raw2 where r: "raw1_to_raw2 z gz (rawdata ep) 1110 = (0, raw2, gz')"
      "queue_data_v2 ep' = envelope (bb_xor (replicate 6 0 @ raw2))"
    using ok by (auto simp: build_queue_data_v2_def Let_def emwin_consts split: prod.splits if_splits)
  obtain cz tag where c: "z_compress z (drop 80 (rawdata ep)) gz' = Some cz"
      "tag = cstr ''/DL'' @ dec (length cz) @ [32]" "length tag \<le> 8" "length cz \<le> 1030"
      "raw2 = take 69 (rawdata ep) @ tag @ drop (69 + length tag) (take 80 (rawdata ep)) @ cz"
    using raw1_to_raw2_ok [OF r(1) len] by blast
  have cz: "drop 80 raw2 = cz"
    using c(3,5) len by (simp add: min_def)
  have "sscanf (scan_lit (cstr ''/DL'') @ [SInt]) (cstr ''/DL'' @ (dec (length cz) @ 32 # t))
      = [VInt (int (length cz))]" for t
    unfolding sscanf_lit using scan_int_dec [of "32 # t" "length cz"] c(4)
    by (simp add: c_int_of_id)
  then have "sscanf (scan_lit (cstr ''/DL'') @ [SInt]) (drop 69 raw2) = [VInt (int (length cz))]"
    using c(2,5) len by simp
  with r(2) c(5) cz inverse [OF c(1)] len show ?thesis
    by (intro exI [of _ raw2]) (auto simp: EMWIN_QUEUE_ENVELOPE_SIZE_def)
qed

lemma build_queue_data_v2_ok:
  assumes "build_queue_data_v2 z gz ep = (0, ep', gz')" and "80 \<le> length (rawdata ep)"
  shows "\<exists>b. length b \<le> 1116 \<and> queue_data_v2 ep' = envelope b"
proof -
  obtain raw2 where "raw1_to_raw2 z gz (rawdata ep) 1110 = (0, raw2, gz')"
      "queue_data_v2 ep' = envelope (bb_xor (replicate 6 0 @ raw2))"
    using assms(1) by (auto simp: build_queue_data_v2_def Let_def emwin_consts split: prod.splits if_splits)
  with raw1_to_raw2_length assms(2) show ?thesis
    by (intro exI [of _ "bb_xor (replicate 6 0 @ raw2)"]) auto
qed

lemma build_queues_v2:
  assumes "build_queues env ep g = (ep', g')" "length (bbdata ep) = 1116" "80 \<le> length (rawdata ep)"
  shows "\<exists>b. length b \<le> 1116 \<and> queue_data_v2 ep' = envelope b"
proof -
  have full: "\<exists>b. length b \<le> 1116 \<and> envelope (bbdata ep) = envelope b"
    using assms(2) by (intro exI [of _ "bbdata ep"]) simp
  let ?ep1 = "ep\<lparr>queue_data_v1 := envelope (bbdata ep)\<rparr>"
  obtain st e2 gz2 where b: "build_queue_data_v2 (fe_zlib env) (gzlib_buffer_size g) ?ep1 = (st, e2, gz2)"
    by (metis prod_cases3)
  note fr = build_queue_data_v2_frame [OF b]
  have comp: "\<exists>b. length b \<le> 1116 \<and> queue_data_v2 e2 = envelope b" if "st = 0"
    using build_queue_data_v2_ok [of _ _ ?ep1] b that assms(3) by simp
  show ?thesis
    using assms(1) full comp b fr
    by (auto simp: build_queues_def Let_def split: if_splits)
qed

text \<open>
  For a full packet neither queue packet can be longer than the record length with which
  the client queues are created, and each carries its own length in its envelope.
\<close>

theorem queue_packets_fit:
  assumes "fill_packet_struct_bb env ep bb g = (status, ep', g')"
    and "length bb = EMWIN_PACKET_SIZE"
  shows "length (queue_data_v1 ep') = QUEUE_PACKET_SIZE
    \<and> length (queue_data_v2 ep') \<le> QUEUE_PACKET_SIZE
    \<and> unat (unpack_uint32 (queue_data_v2 ep') 0) = length (queue_data_v2 ep') - EMWIN_QUEUE_ENVELOPE_SIZE"
proof -
  let ?ep = "ep\<lparr>bbdata := bb, rawdata := map (\<lambda>b. b XOR 0xff) (take (length bb - 12) (drop 6 bb)),
      data_size := length bb - 12 - 80\<rparr>"
  from assms(1) have "fill_packet_rest env ?ep g = (status, ep', g')"
    by (simp add: fill_packet_struct_bb_def Let_def emwin_consts)
  then obtain epq gq where q: "build_queues env ?ep g = (epq, gq)" "decode_header env epq = (status, ep')"
    by (rule fill_packet_restE)
  then obtain b where b: "length b \<le> 1116" "queue_data_v2 epq = envelope b"
    using build_queues_v2 [OF q(1)] assms(2) by (auto simp: emwin_consts)
  with build_queues_frame [OF q(1)] decode_header_frame [OF q(2)] assms(2) show ?thesis
    by (auto simp: emwin_consts unat_of_nat)
qed

section \<open>Accepted packets\<close>

lemma takeWhile_no_nul: "0 \<notin> set (takeWhile (\<lambda>b. b \<noteq> (0 :: byte)) bs)"
  by (auto dest: set_takeWhileD)

lemma take_length_takeWhile: "take (length (takeWhile P xs)) xs = takeWhile P xs"
  by (metis takeWhile_eq_take)

lemma checkfilename_ok:
  assumes "checkfilename below name = (0, name')"
  shows "name' = map tolower name
    \<and> (4 \<le> length name \<longrightarrow> (\<exists>root ext. name' = root @ [46] @ ext \<and> length ext = 3
         \<and> (\<forall>c \<in> set (root @ ext). isalnum c)))"
proof -
  have c: "\<forall>i \<in> set [0..int (length name) - 4 - 1]. isalnum (fname_at below name i)"
      "fname_at below name (int (length name) - 4) = 46"
      "\<forall>i \<in> set [int (length name) - 4 + 1..int (length name) - 1]. isalnum (fname_at below name i)"
      "name' = map tolower name"
    using assms by (auto simp: checkfilename_def Let_def split: if_splits)
  have "\<exists>root ext. name' = root @ [46] @ ext \<and> length ext = 3 \<and> (\<forall>c \<in> set (root @ ext). isalnum c)"
    if len: "4 \<le> length name"
  proof -
    let ?r = "length name - 4"
    have at: "fname_at below name (int i) = name ! i" if "i < length name" for i
      using that by (simp add: fname_at_def)
    have root: "isalnum (name ! i)" if "i < ?r" for i
      using c(1) at [of i] that by (auto simp: Ball_def dest: spec [of _ "int i"])
    have dot: "name ! ?r = 46"
      using c(2) at [of ?r] len by (simp add: of_nat_diff)
    have ext: "isalnum (name ! i)" if "?r < i" "i < length name" for i
      using c(3) at [of i] that len by (auto simp: Ball_def dest: spec [of _ "int i"])
    have split: "name = take ?r name @ [name ! ?r] @ drop (Suc ?r) name"
      using len by (simp add: id_take_nth_drop [symmetric])
    have "\<forall>c \<in> set (take ?r name). isalnum c"
      using root by (auto simp: in_set_conv_nth)
    moreover have "\<forall>c \<in> set (drop (Suc ?r) name). isalnum c"
      using ext by (auto simp: in_set_conv_nth)
    ultimately have alnum: "\<forall>c \<in> set (take ?r name @ drop (Suc ?r) name). isalnum c"
      by auto
    have "map tolower name = map tolower (take ?r name) @ [46] @ map tolower (drop (Suc ?r) name)"
      using arg_cong [OF split, of "map tolower"] dot by simp
    with alnum len c(4) show ?thesis
      by (intro exI [of _ "map tolower (take ?r name)"] exI [of _ "map tolower (drop (Suc ?r) name)"]) auto
  qed
  with c(4) show ?thesis by blast
qed

text \<open>
  A header as the documentation of the packets describes it: \<open>/PF\<close> and a name of at most
  twelve characters, \<open>/PN\<close>, \<open>/PT\<close> and \<open>/CS\<close> each with a number, and \<open>/FD\<close> with a date of at
  most twenty-two, with any blanks between them and anything behind.
\<close>

definition names_fields :: "byte list \<Rightarrow> byte list \<Rightarrow> int \<Rightarrow> int \<Rightarrow> int \<Rightarrow> byte list \<Rightarrow> bool" where
  "names_fields s name part parts cs date \<longleftrightarrow>
     (\<exists>w0 w1 w2 w3 w4 w5 w6 w7 t1 t2 t3 rest.
        s = cstr ''/PF'' @ w0 @ name @ w1 @ cstr ''/PN'' @ w2 @ t1 @ w3 @ cstr ''/PT'' @ w4 @ t2
            @ w5 @ cstr ''/CS'' @ w6 @ t3 @ w7 @ cstr ''/FD'' @ date @ rest
        \<and> (\<forall>w \<in> {w0, w1, w2, w3, w4, w5, w6, w7}. blank w)
        \<and> name \<noteq> [] \<and> length name \<le> 12 \<and> (\<forall>c \<in> set name. \<not> isspace c)
        \<and> reads_as t1 part \<and> reads_as t2 parts \<and> reads_as t3 cs
        \<and> date \<noteq> [] \<and> length date \<le> 22)"

lemma header_names_fields:
  assumes "5 \<le> length (sscanf header_fmt s)"
  shows "\<exists>name part parts cs date. names_fields s name part parts cs date
    \<and> sscanf header_fmt s =
        [VStr name, VInt (c_int_of part), VInt (c_int_of parts), VInt (c_int_of cs), VStr date]"
proof -
  obtain v0 v1 v2 v3 v4 vs where v: "sscanf header_fmt s = v0 # v1 # v2 # v3 # v4 # vs"
    using assms by (auto simp: Suc_le_length_iff numeral_eq_Suc)
  let ?fd = "SWs # scan_lit (cstr ''/FD'') @ [SChars 22]"
  let ?cs = "SWs # scan_lit (cstr ''/CS'') @ SWs # SInt # ?fd"
  let ?pt = "SWs # scan_lit (cstr ''/PT'') @ SWs # SInt # ?cs"
  let ?pn = "SWs # scan_lit (cstr ''/PN'') @ SWs # SInt # ?pt"
  have "sscanf (scan_lit (cstr ''/PF'') @ SStr 12 # ?pn) s = v0 # v1 # v2 # v3 # v4 # vs"
    using v by (simp add: header_fmt_def)
  then obtain s0 where 0: "s = cstr ''/PF'' @ s0" "sscanf (SStr 12 # ?pn) s0 = v0 # v1 # v2 # v3 # v4 # vs"
    using sscanf_lit_inv [of "cstr ''/PF''" "SStr 12 # ?pn" s] by force
  obtain w0 name s1 where 1: "blank w0" "name \<noteq> []" "length name \<le> 12" "\<forall>c \<in> set name. \<not> isspace c"
      "s0 = w0 @ name @ s1" "v0 = VStr name" "sscanf ?pn s1 = v1 # v2 # v3 # v4 # vs"
    using sscanf_str_inv [OF 0(2)] by blast
  obtain w1 w2 t1 part s2 where 2: "blank w1" "blank w2" "reads_as t1 part"
      "s1 = w1 @ cstr ''/PN'' @ w2 @ t1 @ s2" "v1 = VInt (c_int_of part)" "sscanf ?pt s2 = v2 # v3 # v4 # vs"
    using sscanf_number_inv [OF 1(7)] by blast
  obtain w3 w4 t2 parts s3 where 3: "blank w3" "blank w4" "reads_as t2 parts"
      "s2 = w3 @ cstr ''/PT'' @ w4 @ t2 @ s3" "v2 = VInt (c_int_of parts)" "sscanf ?cs s3 = v3 # v4 # vs"
    using sscanf_number_inv [OF 2(6)] by blast
  obtain w5 w6 t3 cs s4 where 4: "blank w5" "blank w6" "reads_as t3 cs"
      "s3 = w5 @ cstr ''/CS'' @ w6 @ t3 @ s4" "v3 = VInt (c_int_of cs)" "sscanf ?fd s4 = v4 # vs"
    using sscanf_number_inv [OF 3(6)] by blast
  obtain w7 s5 where 5: "blank w7" "s4 = w7 @ s5" "sscanf (scan_lit (cstr ''/FD'') @ [SChars 22]) s5 = v4 # vs"
    using 4(6) sscanf_ws_inv by metis
  obtain s6 where 6: "s5 = cstr ''/FD'' @ s6" "sscanf [SChars 22] s6 = v4 # vs"
    using 5(3) sscanf_lit_inv [of "cstr ''/FD''" "[SChars 22]" s5] by force
  obtain date rest where 7: "date \<noteq> []" "length date \<le> 22" "s6 = date @ rest" "v4 = VStr date" "vs = []"
    using sscanf_chars_inv [OF 6(2)] by auto
  have "s = cstr ''/PF'' @ w0 @ name @ w1 @ cstr ''/PN'' @ w2 @ t1 @ w3 @ cstr ''/PT'' @ w4 @ t2
      @ w5 @ cstr ''/CS'' @ w6 @ t3 @ w7 @ cstr ''/FD'' @ date @ rest"
    unfolding 0(1) 1(5) 2(4) 3(4) 4(4) 5(2) 6(1) 7(3) by simp
  moreover have "\<forall>w \<in> {w0, w1, w2, w3, w4, w5, w6, w7}. blank w"
    using 1(1) 2(1,2) 3(1,2) 4(1,2) 5(1) by simp
  ultimately have "names_fields s name part parts cs date"
    unfolding names_fields_def using 1(2-4) 2(3) 3(3) 4(3) 7(1,2) by blast
  with v 1(6) 2(5) 3(5) 4(5) 7(4,5) show ?thesis by blast
qed

text \<open>
  C10. A packet gets status 0 only if its header is \<open>/PF\<close> with a file name of at most twelve
  characters, \<open>/PN\<close>, \<open>/PT\<close> and \<open>/CS\<close> with a number each and \<open>/FD\<close> with a date, the sum of the
  bytes of its data block is the one in the header, and its file name passed the check. The
  structure then holds these five values, the numbers cut to the width of an int and the name
  in lower case; a name of at least four characters is letters and digits, a dot and a
  three-character extension; and the saved data is the data block, for a text file the part
  of it before the first NUL.
\<close>

theorem accepted_packet:
  assumes "fill_packet_struct_bb env ep bb g = (0, ep', g')"
  shows "(\<exists>name part parts cs date. names_fields (cstring (rawdata ep')) name part parts cs date
       \<and> header ep' = \<lparr>filename = map tolower name, blockno = c_int_of part, numblocks = c_int_of parts,
           hdr_checksum = c_int_of cs, dtstamp = date\<rparr>)
    \<and> hdr_checksum (header ep') = byte_sum (drop EMWIN_HEADER_SIZE (rawdata ep'))
    \<and> map tolower (filename (header ep')) = filename (header ep')
    \<and> (4 \<le> length (filename (header ep')) \<longrightarrow>
         (\<exists>root ext. filename (header ep') = root @ [46] @ ext \<and> length ext = 3
            \<and> (\<forall>c \<in> set (root @ ext). isalnum c)))
    \<and> ep_data ep' = (if is_text_file (fe_below env) (filename (header ep'))
         then takeWhile (\<lambda>b. b \<noteq> 0) (drop EMWIN_HEADER_SIZE (rawdata ep'))
         else drop EMWIN_HEADER_SIZE (rawdata ep'))"
proof -
  let ?ep = "ep\<lparr>bbdata := bb, rawdata := map (\<lambda>b. b XOR 0xff) (take (length bb - 12) (drop 6 bb)),
      data_size := length bb - 12 - 80\<rparr>"
  from assms have "fill_packet_rest env ?ep g = (0, ep', g')"
    by (simp add: fill_packet_struct_bb_def Let_def emwin_consts)
  then obtain epq gq where q: "build_queues env ?ep g = (epq, gq)" "decode_header env epq = (0, ep')"
    by (rule fill_packet_restE)
  note fr = build_queues_frame [OF q(1)]
  let ?h = "assign_header 0 (sscanf header_fmt (cstring (rawdata epq))) (header epq)"
  let ?e1 = "epq\<lparr>header := ?h\<rparr>"
  have whole: "ep_data epq = drop 80 (rawdata epq)"
    using fr by (simp add: ep_data_def emwin_consts)
  have e1: "ep_data ?e1 = ep_data epq" "ep_data (?e1\<lparr>header := h2\<rparr>) = ep_data epq" for h2
    by (simp_all add: ep_data_def)
  obtain name where n: "checksum ?e1 = 0" "5 \<le> length (sscanf header_fmt (cstring (rawdata epq)))" "checkfilename (fe_below env) (filename ?h) = (0, name)"
      "ep' = (let e2 = ?e1\<lparr>header := ?h\<lparr>filename := name\<rparr>\<rparr> in
          if is_text_file (fe_below env) name
          then e2\<lparr>data_size := length (takeWhile (\<lambda>b. b \<noteq> 0) (ep_data e2))\<rparr> else e2)"
    using q(2) by (auto simp: decode_header_def Let_def not_less split: if_splits prod.splits)
  have nm: "filename (header ep') = name" "header ep' = ?h\<lparr>filename := name\<rparr>" "rawdata ep' = rawdata epq" "hdr_checksum (header ep') = hdr_checksum ?h"
    using n(4) by (auto simp: Let_def)
  have sum: "hdr_checksum ?h = byte_sum (drop 80 (rawdata epq))"
    using n(1) e1 whole by (auto simp: checksum_def split: if_splits)
  have data: "ep_data ep' = (if is_text_file (fe_below env) name
      then takeWhile (\<lambda>b. b \<noteq> 0) (drop 80 (rawdata epq)) else drop 80 (rawdata epq))"
    using n(4) whole e1
    by (auto simp: Let_def) (auto simp: ep_data_def emwin_consts take_length_takeWhile)
  obtain fname part parts cs date where f: "names_fields (cstring (rawdata epq)) fname part parts cs date"
      "sscanf header_fmt (cstring (rawdata epq)) =
         [VStr fname, VInt (c_int_of part), VInt (c_int_of parts), VInt (c_int_of cs), VStr date]"
    using header_names_fields [OF n(2)] by blast
  have h: "?h = \<lparr>filename = fname, blockno = c_int_of part, numblocks = c_int_of parts,
      hdr_checksum = c_int_of cs, dtstamp = date\<rparr>"
    unfolding f(2) by (simp add: emwin_packet_header.defs)
  have name: "name = map tolower fname"
    using checkfilename_ok [OF n(3)] h by simp
  have five: "\<exists>name part parts cs date. names_fields (cstring (rawdata ep')) name part parts cs date
       \<and> header ep' = \<lparr>filename = map tolower name, blockno = c_int_of part, numblocks = c_int_of parts,
           hdr_checksum = c_int_of cs, dtstamp = date\<rparr>"
    using f(1) h name nm(2,3) by (intro exI conjI) auto
  show ?thesis
    using five
    unfolding EMWIN_HEADER_SIZE_def nm(1) nm(3) nm(4) data sum
    using checkfilename_ok [OF n(3)] by auto
qed

text \<open>
  Every packet that reaches the decoder is counted as received and as either processed or
  bad, whatever its status, so the three counters stay in balance.
\<close>

theorem fill_counts_every_frame:
  assumes "fill_packet_struct_bb env ep bb g = (status, ep', g')"
  shows "frames_received (nbspstats g') = frames_received (nbspstats g) + 1
    \<and> frames_data_size (nbspstats g') = frames_data_size (nbspstats g) + of_nat (length bb)
    \<and> (stats_balanced (nbspstats g) \<longrightarrow> stats_balanced (nbspstats g'))"
  using assms
  by (auto simp: fill_packet_struct_bb_def Let_def stats_defs elim!: fill_packet_restE)

text \<open>
  For a file name of one to three letters or digits the check reads memory before the
  name: with suitable bytes there the same name is accepted or rejected.
\<close>

theorem checkfilename_short_name:
  assumes "name \<noteq> []" and "length name < 4" and "\<forall>c \<in> set name. isalnum c"
  shows "fst (checkfilename (\<lambda>_. 0) name) = 1
    \<and> fst (checkfilename (\<lambda>k. if k = 4 - length name then 46 else 65) name) = 0"
proof -
  have k: "nat (4 - int (length name)) = 4 - length name" by (simp add: nat_diff_distrib)
  have "isalnum (65 :: byte)" by (simp add: ctype_defs)
  moreover have "isalnum (name ! nat i)" if "0 \<le> i" "i < int (length name)" for i
    using assms(3) that by (metis nat_less_iff nth_mem)
  ultimately have "\<forall>i \<in> set [int (length name) - 4 + 1..int (length name) - 1].
      isalnum (fname_at (\<lambda>k. if k = 4 - length name then 46 else 65) name i)"
    by (auto simp: fname_at_def)
  then show ?thesis
    using assms(1,2) k by (auto simp: checkfilename_def Let_def fname_at_def)
qed

section \<open>Witnesses\<close>

text \<open>A zlib that stores, and an environment, a packet and globals to evaluate on.\<close>

definition stored_zlib :: zlib where
  "stored_zlib = \<lparr>z_bound = (\<lambda>n. n + 20), z_compress = (\<lambda>b n. if length b \<le> n then Some b else None),
     z_malloc = (\<lambda>_. True)\<rparr>"

definition env0 :: fill_env where
  "env0 = \<lparr>fe_serverprotocol = 3, fe_min_compress_ratio = 90, fe_zlib = stored_zlib, fe_below = (\<lambda>_. 0)\<rparr>"

definition ep0 :: emwin_packet where
  "ep0 = \<lparr>header = \<lparr>filename = [], blockno = 0, numblocks = 0, hdr_checksum = 0, dtstamp = []\<rparr>,
     data_size = 0, rawdata = [], bbdata = [], bbtype = BB_PACKET_TYPE_UNKNOWN,
     queue_data_v1 = [], queue_data_v2 = [], compress_ratio = 0\<rparr>"

definition g0 :: emwin_globals where
  "g0 = \<lparr>nbspstats = \<lparr>frames_processed = 0, frames_bad = 0, frames_received = 0, frames_data_size = 0,
     stats_time = 0\<rparr>, gzlib_buffer_size = 0\<rparr>"

text \<open>A well-formed packet of a file \<open>A.TXT\<close> whose data block is \<open>Hi\<close>, without the padding.\<close>

definition packet0 :: "byte list" where
  "packet0 = replicate 6 0
     @ cstr ''/PFA.TXT       /PN 1    /PT 1    /CS 177   /FD01/02/2023 10:20:30 AM          '' @ [13, 10]
     @ cstr ''Hi'' @ replicate 6 0"

theorem fill_bb_retransmits_witness:
  "\<exists>status ep' g'. fill_packet_struct_bb env0 ep0 [1, 2, 3] g0 = (status, ep', g') \<and> bbdata ep' = [1, 2, 3]"
proof -
  obtain st ep' g' where r: "fill_packet_struct_bb env0 ep0 [1, 2, 3] g0 = (st, ep', g')"
    by (metis prod_cases3)
  show ?thesis using fill_bb_retransmits [OF r] r by auto
qed

theorem queue_packets_fit_witness:
  "\<exists>status ep' g'. fill_packet_struct_bb env0 ep0 (replicate EMWIN_PACKET_SIZE 7) g0 = (status, ep', g')
     \<and> length (queue_data_v2 ep') \<le> QUEUE_PACKET_SIZE"
proof -
  obtain st ep' g' where r: "fill_packet_struct_bb env0 ep0 (replicate EMWIN_PACKET_SIZE 7) g0 = (st, ep', g')"
    by (metis prod_cases3)
  show ?thesis using queue_packets_fit [OF r] r by auto
qed

theorem fill_counts_every_frame_witness:
  "\<exists>status ep' g'. fill_packet_struct_bb env0 ep0 [255] g0 = (status, ep', g')
     \<and> frames_received (nbspstats g') = 1"
proof -
  obtain st ep' g' where r: "fill_packet_struct_bb env0 ep0 [255] g0 = (st, ep', g')"
    by (metis prod_cases3)
  show ?thesis using fill_counts_every_frame [OF r] r by (auto simp: g0_def)
qed

theorem checkfilename_short_name_witness:
  "fst (checkfilename (\<lambda>_. 0) [65, 66]) = 1 \<and> fst (checkfilename (\<lambda>k. if k = 2 then 46 else 65) [65, 66]) = 0"
  using checkfilename_short_name [of "[65, 66]"] by (simp add: ctype_defs)

theorem v2_packet_decodes_witness:
  "\<exists>raw2. drop EMWIN_QUEUE_ENVELOPE_SIZE
       (queue_data_v2 (fst (snd (build_queue_data_v2 stored_zlib 0 (ep0\<lparr>rawdata := replicate 80 65 @ [1, 2, 3]\<rparr>)))))
       = bb_xor (replicate 6 0 @ raw2) \<and> drop 80 raw2 = [1, 2, 3]"
proof -
  let ?ep = "ep0\<lparr>rawdata := replicate 80 65 @ [1, 2, 3]\<rparr>"
  have z: "z_compress stored_zlib b n = Some cz \<Longrightarrow> cz = b" for b n cz
    by (auto simp: stored_zlib_def split: if_splits)
  obtain st ep' gz' where r: "build_queue_data_v2 stored_zlib 0 ?ep = (st, ep', gz')" by (metis prod_cases3)
  have "st = 0"
    using r by (auto simp: build_queue_data_v2_def raw1_to_raw2_def stored_zlib_def Let_def emwin_consts
        cstr_def dec.simps split: if_splits)
  with r have ok: "build_queue_data_v2 stored_zlib 0 ?ep = (0, ep', gz')" by simp
  show ?thesis
    using v2_packet_decodes [where uncompress = id, OF _ ok] z by (auto simp: ok)
qed

theorem fill_serial_eq_bb_witness:
  "fst (fill_packet_struct_serial env0 ep0 packet0 g0) = 0
   \<and> fst (fill_packet_struct_wx14 env0 ep0 packet0 g0) = 0
   \<and> fst (fill_packet_struct_serial env0 ep0 (take 90 packet0) g0) = 3
   \<and> fst (fill_packet_struct_wx14 env0 ep0 (take 90 packet0) g0) = 8"
proof -
  have ok: "fst (fill_packet_struct_bb env0 ep0 (bb_xor packet0) g0) = 0"
    by code_simp
  have bad: "fst (fill_packet_struct_bb env0 ep0 (bb_xor (take 90 packet0)) g0) = 3"
    by code_simp
  show ?thesis
    using fill_serial_eq_bb [of env0 ep0 packet0 g0] fill_serial_eq_bb [of env0 ep0 "take 90 packet0" g0] ok bad
    by (auto split: prod.splits)
qed

theorem accepted_packet_witness:
  "\<exists>ep' g'. fill_packet_struct_bb env0 ep0 (bb_xor packet0) g0 = (0, ep', g')
     \<and> (\<exists>name part parts cs date. names_fields (cstring (rawdata ep')) name part parts cs date
          \<and> map tolower name = cstr ''a.txt'')
     \<and> hdr_checksum (header ep') = byte_sum (drop EMWIN_HEADER_SIZE (rawdata ep'))
     \<and> filename (header ep') = cstr ''a.txt'' \<and> ep_data ep' = cstr ''Hi''"
proof -
  obtain st ep' g' where r: "fill_packet_struct_bb env0 ep0 (bb_xor packet0) g0 = (st, ep', g')"
    by (metis prod_cases3)
  have "(\<lambda>(st, ep', g'). st = 0 \<and> filename (header ep') = cstr ''a.txt'' \<and> ep_data ep' = cstr ''Hi'')
      (fill_packet_struct_bb env0 ep0 (bb_xor packet0) g0)"
    by code_simp
  with r have ok: "fill_packet_struct_bb env0 ep0 (bb_xor packet0) g0 = (0, ep', g')"
      and v: "filename (header ep') = cstr ''a.txt''" "ep_data ep' = cstr ''Hi''"
    by auto
  have "\<exists>name part parts cs date. names_fields (cstring (rawdata ep')) name part parts cs date
      \<and> map tolower name = cstr ''a.txt''"
    using accepted_packet [OF ok] v(1) by (metis emwin_packet_header.select_convs(1))
  then show ?thesis
    using accepted_packet [OF ok] ok v by blast
qed

end
