(* ===== verification/Server.thy ===== *)
theory Server
  imports Conn Emwin_Packet
begin

text \<open>
  The server of the packets: \<open>src/appdata.c\<close> (the protocol of a client), \<open>src/serverm.c\<close> (the
  main thread: logins, the upkeep of the table, the client queues, the reports) and
  \<open>src/serverc.c\<close> (the thread of a client). What the descriptors, the clock, memory, threads
  and files answer are arguments; log messages are left out. \<open>None\<close> is a failed assertion or an
  access outside an object.
\<close>

section \<open>The protocol of a client\<close>

definition PROTOCOL_EMWIN2 :: int where "PROTOCOL_EMWIN2 = 2"
definition PROTOCOL_UNKNOWN :: int where "PROTOCOL_UNKNOWN = 4"
definition PROTOCOL_DEFAULT :: int where "PROTOCOL_DEFAULT = PROTOCOL_EMWIN1"

definition PROTOCOL_EMWIN1_STR :: "byte list" where "PROTOCOL_EMWIN1_STR = cstr ''V1''"
definition PROTOCOL_EMWIN2_STR :: "byte list" where "PROTOCOL_EMWIN2_STR = cstr ''V2''"

lemmas protocol_defs = PROTOCOL_EMWIN1_def PROTOCOL_EMWIN2_def PROTOCOL_UNKNOWN_def PROTOCOL_DEFAULT_def

definition get_client_protocol :: "nat \<Rightarrow> 'db conn_table_st \<Rightarrow> int option" where
  "get_client_protocol i ct =
     map_option (\<lambda>p. case p of None \<Rightarrow> PROTOCOL_UNKNOWN | Some protocol \<Rightarrow> protocol) (conn_table_get_element_appdata i ct)"

definition get_client_protocol_byce :: "'db conn_element_st \<Rightarrow> int" where
  "get_client_protocol_byce ce = (case appdata ce of None \<Rightarrow> PROTOCOL_UNKNOWN | Some protocol \<Rightarrow> protocol)"

definition set_client_protocol :: "bool \<Rightarrow> nat \<Rightarrow> int \<Rightarrow> 'db conn_table_st \<Rightarrow> (int \<times> 'db conn_table_st) option" where
  "set_client_protocol mem_ok i protocol ct =
     (if \<not> mem_ok then Some (-1, ct) else map_option (\<lambda>ct. (0, ct)) (conn_table_set_element_appdata i protocol ct))"

text \<open>Whether the message ends with the key of a protocol.\<close>

definition msg_ends :: "byte list \<Rightarrow> byte list \<Rightarrow> bool" where
  "msg_ends key msg = (length msg \<ge> length key \<and> drop (length msg - length key) msg = key)"

definition ident_client_protocol :: "bool \<Rightarrow> nat \<Rightarrow> byte list \<Rightarrow> 'db conn_table_st \<Rightarrow> (int \<times> 'db conn_table_st) option" where
  "ident_client_protocol mem_ok i msg ct =
     (case get_client_protocol i ct of
        None \<Rightarrow> None
      | Some protocol \<Rightarrow>
          if protocol \<noteq> PROTOCOL_UNKNOWN then Some (2, ct)
          else
            let (p, r) = (if msg_ends PROTOCOL_EMWIN1_STR msg then (PROTOCOL_EMWIN1, 0)
                          else if msg_ends PROTOCOL_EMWIN2_STR msg then (PROTOCOL_EMWIN2, 0)
                          else (PROTOCOL_DEFAULT, 1))
            in map_option (\<lambda>(status, ct). (if status \<noteq> 0 then -1 else r, ct)) (set_client_protocol mem_ok i p ct))"

section \<open>Requests\<close>

text \<open>
  A client sends its login: \<open>chans\<close> are the descriptors to read from. A client of the wrong
  protocol, or one that cannot be read, is dropped.
\<close>

definition handle_client ::
  "int \<Rightarrow> close_env \<Rightarrow> (int \<Rightarrow> chan) \<Rightarrow> bool \<Rightarrow> nat \<Rightarrow> 'db conn_table_st \<Rightarrow> (int \<times> int list \<times> 'db conn_table_st) option" where
  "handle_client serverprotocol env chans mem_ok i ct =
     (if i \<ge> conn_table_get_numentries ct \<or> ce_pid (ct_ce ct ! i) \<noteq> -1 then None
      else case read1 (EMWIN_PACKET_SIZE - 1) 0 (chans (p_fd (ct_pfd ct ! i))) of
          (n, buf, _) \<Rightarrow>
            if n > 0 then
              (case ident_client_protocol mem_ok i (bb_xor buf) ct of
                 None \<Rightarrow> None
               | Some (ident_status, ct) \<Rightarrow>
                   (case get_client_protocol i ct of
                      None \<Rightarrow> None
                    | Some protocol \<Rightarrow>
                        if serverprotocol = PROTOCOL_EMWIN2 \<and> protocol \<noteq> PROTOCOL_EMWIN2
                        then map_option (\<lambda>(_, cl, ct). (0, cl, ct)) (poll_kill_client_connection env i ct)
                        else Some (0, [], ct)))
            else map_option (\<lambda>(_, cl, ct). (0, cl, ct)) (poll_kill_client_connection env i ct))"

section \<open>The upkeep of the table\<close>

lemma kill_shrinks:
  "poll_kill_client_connection env i ct = Some (st, cl, ct') \<Longrightarrow> length (ct_ce ct') \<le> length (ct_ce ct)"
  by (auto simp: poll_kill_client_connection_def poll_del_connection_def conn_table_del_element_def remove_nth_def Let_def
      split: if_splits prod.splits option.splits)

function finished_loop :: "close_env \<Rightarrow> nat \<Rightarrow> int list \<Rightarrow> 'db conn_table_st \<Rightarrow> (int list \<times> 'db conn_table_st) option" where
  "finished_loop env i closed ct =
     (if i \<ge> conn_table_get_numentries ct then Some (closed, ct)
      else if \<not> conn_element_isnetclient_stoped (ct_ce ct ! i) then finished_loop env (Suc i) closed ct
      else case poll_kill_client_connection env i ct of
          None \<Rightarrow> None
        | Some (_, cl, ct) \<Rightarrow> finished_loop env (Suc i) (closed @ cl) ct)"
  by pat_completeness auto
termination
  by (relation "measure (\<lambda>(env, i, closed, ct). length (ct_ce ct) - i)")
     (force simp: conn_table_get_numentries_def dest: kill_shrinks)+

declare finished_loop.simps [simp del]

definition process_finished_connections :: "close_env \<Rightarrow> 'db conn_table_st \<Rightarrow> (int list \<times> 'db conn_table_st) option" where
  "process_finished_connections env ct = finished_loop env 0 [] ct"

lemma ident_shape:
  "ident_client_protocol mem_ok i msg ct = Some (r, ct') \<Longrightarrow> ct' = ct \<or> (\<exists>p. ct' = set_element i ((ct_ce ct ! i)\<lparr>appdata := Some p\<rparr>) ct)"
  by (auto simp: ident_client_protocol_def set_client_protocol_def conn_table_set_element_appdata_def Let_def
      split: option.splits if_splits prod.splits)

lemma ident_length: "ident_client_protocol mem_ok i msg ct = Some (r, ct') \<Longrightarrow> length (ct_ce ct') = length (ct_ce ct)"
  by (auto dest!: ident_shape simp: set_element_def)

text \<open>A client that does not say what it is in time is taken for one of the first protocol.\<close>

function unidentified_loop ::
  "close_env \<Rightarrow> bool \<Rightarrow> nat \<Rightarrow> nat \<Rightarrow> nat \<Rightarrow> int list \<Rightarrow> 'db conn_table_st \<Rightarrow> (int list \<times> 'db conn_table_st) option" where
  "unidentified_loop env mem_ok now wait_secs i closed ct =
     (if i \<ge> conn_table_get_numentries ct then Some (closed, ct)
      else if \<not> conn_element_isnetclient (ct_ce ct ! i) then unidentified_loop env mem_ok now wait_secs (Suc i) closed ct
      else if get_client_protocol i ct = Some PROTOCOL_UNKNOWN \<and> now > cs_ctime (ce_cs (ct_ce ct ! i)) + wait_secs then
        (case ident_client_protocol mem_ok i PROTOCOL_EMWIN1_STR ct of
           None \<Rightarrow> None
         | Some (r, ct) \<Rightarrow>
             if r \<noteq> 0 then
               (case poll_kill_client_connection env i ct of
                  None \<Rightarrow> None
                | Some (_, cl, ct) \<Rightarrow> unidentified_loop env mem_ok now wait_secs (Suc i) (closed @ cl) ct)
             else unidentified_loop env mem_ok now wait_secs (Suc i) closed ct)
      else unidentified_loop env mem_ok now wait_secs (Suc i) closed ct)"
  by pat_completeness auto
termination
  by (relation "measure (\<lambda>(env, mem_ok, now, wait_secs, i, closed, ct). length (ct_ce ct) - i)")
     (force simp: conn_table_get_numentries_def dest: kill_shrinks ident_length)+

declare unidentified_loop.simps [simp del]

definition process_unidentified_connections ::
  "close_env \<Rightarrow> bool \<Rightarrow> nat \<Rightarrow> nat \<Rightarrow> 'db conn_table_st \<Rightarrow> (int list \<times> 'db conn_table_st) option" where
  "process_unidentified_connections env mem_ok now wait_secs ct = unidentified_loop env mem_ok now wait_secs 0 [] ct"

text \<open>
  Threads for the clients whose protocol is known. By descriptor: whether memory and mutex,
  the memory of the queue, its database and the thread are there.
\<close>

type_synonym 'db spawn_env = "int \<Rightarrow> bool \<times> bool \<times> (int \<times> bool \<times> 'db) \<times> bool"

definition cqparam :: connqueue_param_st where
  "cqparam = \<lparr>cp_reclen = QUEUE_PACKET_SIZE, cp_softlimit = 0, cp_hardlimit = 0\<rparr>"

function spawn_loop ::
  "'db dbops \<Rightarrow> close_env \<Rightarrow> 'db spawn_env \<Rightarrow> nat \<Rightarrow> int list \<Rightarrow> 'db conn_table_st \<Rightarrow> (int list \<times> 'db conn_table_st) option" where
  "spawn_loop ops env spe i closed ct =
     (if i \<ge> conn_table_get_numentries ct then Some (closed, ct)
      else if conn_element_get_created_flag (ct_ce ct ! i) \<or> \<not> conn_element_isclient (ct_ce ct ! i)
            \<or> get_client_protocol i ct = Some PROTOCOL_UNKNOWN
      then spawn_loop ops env spe (Suc i) closed ct
      else case spe (p_fd (ct_pfd ct ! i)) of
          (res_ok, cq_mem_ok, d, thread_ok) \<Rightarrow>
            case conn_element_init4 ops res_ok cq_mem_ok d thread_ok cqparam (ct_ce ct ! i) of
              (status, _, ce) \<Rightarrow>
                if status \<noteq> 0 then
                  (case poll_kill_client_connection env i (set_element i ce ct) of
                     None \<Rightarrow> None
                   | Some (_, cl, ct) \<Rightarrow> spawn_loop ops env spe (Suc i) (closed @ cl) ct)
                else spawn_loop ops env spe (Suc i) closed (set_element i ce ct))"
  by pat_completeness auto
termination
  by (relation "measure (\<lambda>(ops, env, spe, i, closed, ct). length (ct_ce ct) - i)")
     (force simp: conn_table_get_numentries_def set_element_def dest: kill_shrinks)+

declare spawn_loop.simps [simp del]

definition spawn_client_threads ::
  "'db dbops \<Rightarrow> close_env \<Rightarrow> 'db spawn_env \<Rightarrow> 'db conn_table_st \<Rightarrow> (int list \<times> 'db conn_table_st) option" where
  "spawn_client_threads ops env spe ct = spawn_loop ops env spe 0 [] ct"

text \<open>One round of upkeep: the status of \<open>poll_loop_nowait\<close>, the descriptors closed, the table.\<close>

definition process_connections ::
  "'db dbops \<Rightarrow> int \<Rightarrow> nat \<Rightarrow> 'db spawn_env \<Rightarrow> (int \<Rightarrow> chan) \<Rightarrow> poll_env \<Rightarrow> 'db conn_table_st
     \<Rightarrow> (int \<times> int list \<times> 'db conn_table_st) option" where
  "process_connections ops serverprotocol wait_secs spe chans pe ct =
     Option.bind (process_finished_connections (pe_close pe) ct) (\<lambda>(cl1, ct).
     Option.bind (process_unidentified_connections (pe_close pe) (pe_mem pe) (pe_now pe) wait_secs ct) (\<lambda>(cl2, ct).
     Option.bind (spawn_client_threads ops (pe_close pe) spe ct) (\<lambda>(cl3, ct).
     Option.bind (poll_loop_wait pe (handle_client serverprotocol (pe_close pe) chans (pe_mem pe)) ct) (\<lambda>(status, cl4, ct).
     Some (status, cl1 @ cl2 @ cl3 @ cl4, ct)))))"

definition SERVER_PROCESS_CONNECTIONS_PERIOD_SECS :: nat where "SERVER_PROCESS_CONNECTIONS_PERIOD_SECS = 1"

text \<open>The next time to process the connections is a variable of the file.\<close>

definition get_process_connections_flag :: "nat \<Rightarrow> nat \<Rightarrow> bool \<times> nat" where
  "get_process_connections_flag now next_time =
     (if now < next_time then (False, next_time) else (True, now + SERVER_PROCESS_CONNECTIONS_PERIOD_SECS))"

section \<open>Start and end\<close>

text \<open>
  Opening the server: the port, what \<open>tcp_server_open_conn\<close> gives (-1 for an error), whether
  \<open>fcntl\<close> succeeds, and whether there is memory for the table and its first element. The
  status, the descriptor and the table.
\<close>

definition init_network_server ::
  "byte list option \<Rightarrow> int \<Rightarrow> bool \<Rightarrow> bool \<Rightarrow> nat \<Rightarrow> int \<Rightarrow> int \<times> int \<times> 'db conn_table_st option" where
  "init_network_server serverport open_fd fcntl_ok table_mem now maxnetclients =
     (if \<not> valid_str serverport then (1, -1, None)
      else if open_fd = -1 then (-1, -1, None)
      else if \<not> fcntl_ok then (-1, -1, None)
      else if \<not> table_mem then (-1, open_fd, None)
      else case conn_table_add_element True now open_fd CONN_TYPE_SERVER_NET 0 None None
             \<lparr>co_write_timeout_ms = 0, co_write_timeout_retry = 0, co_reconnect_wait_sleep_secs = 0,
              co_reconnect_wait_sleep_retry = 0, co_queue_read_timeout_ms = 0\<rparr> (conn_table_create maxnetclients) of
          (status, ct) \<Rightarrow> (status, open_fd, Some ct))"

text \<open>The descriptors closed: those of the clients, then that of the server.\<close>

definition terminate_network_server :: "int \<Rightarrow> 'db conn_table_st option \<Rightarrow> int list option" where
  "terminate_network_server server_fd ct =
     map_option (\<lambda>cl. if server_fd \<noteq> -1 then cl @ [server_fd] else cl)
       (case ct of None \<Rightarrow> Some [] | Some ct \<Rightarrow> conn_table_destroy ct)"

section \<open>Sending a packet to the clients\<close>

text \<open>
  The status of the last send is kept from one element to the next, and reported again for a
  client of an unknown protocol. The reports are the element and the status.
\<close>

definition send_element ::
  "'db dbops \<Rightarrow> emwin_packet \<Rightarrow> int \<Rightarrow> 'db conn_element_st \<Rightarrow> (int \<times> 'db conn_element_st) option" where
  "send_element ops ep status ce =
     (let protocol = get_client_protocol_byce ce in
      if protocol = PROTOCOL_EMWIN1 \<or> protocol = PROTOCOL_EMWIN2 then
        (case ce_cq ce of
           Ptr cq \<Rightarrow> map_option (\<lambda>(status, _, cq). (status, ce\<lparr>ce_cq := Ptr cq\<rparr>))
             (connqueue_snd ops (if protocol = PROTOCOL_EMWIN1 then queue_data_v1 ep else queue_data_v2 ep) cq)
         | _ \<Rightarrow> None)
      else Some (status, ce))"

fun send_loop ::
  "'db dbops \<Rightarrow> emwin_packet \<Rightarrow> nat \<Rightarrow> int \<Rightarrow> 'db conn_element_st list
     \<Rightarrow> ((nat \<times> int) list \<times> 'db conn_element_st list) option" where
  "send_loop ops ep i status [] = Some ([], [])"
| "send_loop ops ep i status (ce # ces) =
     (if \<not> conn_element_isnetclient ce \<or> \<not> conn_element_isnetclient_running ce
      then map_option (\<lambda>(rs, ces). (rs, ce # ces)) (send_loop ops ep (Suc i) status ces)
      else case send_element ops ep status ce of
          None \<Rightarrow> None
        | Some (status, ce) \<Rightarrow>
            map_option (\<lambda>(rs, ces). (if status \<noteq> 0 then (i, status) # rs else rs, ce # ces))
              (send_loop ops ep (Suc i) status ces))"

definition server_send_client_queues ::
  "'db dbops \<Rightarrow> emwin_packet \<Rightarrow> 'db conn_table_st \<Rightarrow> ((nat \<times> int) list \<times> 'db conn_table_st) option" where
  "server_send_client_queues ops ep ct =
     (if nclients ct = 0 then Some ([], ct)
      else map_option (\<lambda>(rs, ces). (rs, ct\<lparr>ct_ce := ces\<rparr>)) (send_loop ops ep 0 0 (ct_ce ct)))"

section \<open>Reports\<close>

text \<open>The lines on the clients; a client with neither name nor address would be undefined.\<close>

fun client_lines :: "'db conn_element_st list \<Rightarrow> byte list option" where
  "client_lines [] = Some []"
| "client_lines (ce # ces) =
     (if \<not> conn_element_isnetclient_running ce then client_lines ces
      else case (conn_element_get_nameorip ce, ce_cq ce) of
          (Some nameorip, Ptr cq) \<Rightarrow>
            map_option (\<lambda>rest. cstr ''  '' @ cstring nameorip @ cstr '' '' @ printf_d (get_client_protocol_byce ce) @ cstr '' ''
               @ dec (unat (connqueue_n cq)) @ cstr '' '' @ dec (cs_ctime (ce_cs ce)) @ [10] @ rest) (client_lines ces)
        | _ \<Rightarrow> None)"

definition print_client_connections :: "nat \<Rightarrow> 'db conn_table_st \<Rightarrow> byte list option" where
  "print_client_connections now ct =
     map_option (\<lambda>rest. cstr ''- '' @ dec (now mod 2 ^ 32) @ cstr '' '' @ dec (conn_table_get_numentries ct) @ cstr '' ''
        @ printf_d (nclients ct) @ [10] @ rest)
       (if nclients ct = 0 then Some [] else client_lines (ct_ce ct))"

text \<open>
  The state file grows, the active file is written anew; a file is skipped when it has no name
  or cannot be opened. Their contents before and after.
\<close>

definition report_client_connections ::
  "byte list option \<Rightarrow> byte list option \<Rightarrow> bool \<Rightarrow> bool \<Rightarrow> nat \<Rightarrow> 'db conn_table_st \<Rightarrow> byte list \<times> byte list
     \<Rightarrow> (byte list \<times> byte list) option" where
  "report_client_connections statefile activefile st_ok ac_ok now ct f =
     (case f of (st, ac) \<Rightarrow>
        map_option (\<lambda>text. (if valid_str statefile \<and> st_ok then st @ text else st,
                           if valid_str activefile \<and> ac_ok then text else ac))
          (if valid_str statefile \<and> st_ok \<or> valid_str activefile \<and> ac_ok then print_client_connections now ct else Some []))"

text \<open>The flag set by the periodic tasks, read once; the loop of the server.\<close>

record 'db server_st =
  sv_ct :: "'db conn_table_st"
  gprocess_connections_time :: nat
  greport_client_connections_flag :: bool
  sv_files :: "byte list \<times> byte list"

definition get_report_client_connections_flag :: "'db server_st \<Rightarrow> bool \<times> 'db server_st" where
  "get_report_client_connections_flag sv =
     (greport_client_connections_flag sv, sv\<lparr>greport_client_connections_flag := False\<rparr>)"

definition set_report_client_connections_flag :: "'db server_st \<Rightarrow> 'db server_st" where
  "set_report_client_connections_flag sv = sv\<lparr>greport_client_connections_flag := True\<rparr>"

record server_conf =
  sc_serverprotocol :: int
  sc_client_id_wait_secs :: nat
  sc_serverstatefile :: "byte list option"
  sc_serveractivefile :: "byte list option"

definition network_server_loop ::
  "'db dbops \<Rightarrow> server_conf \<Rightarrow> 'db spawn_env \<Rightarrow> (int \<Rightarrow> chan) \<Rightarrow> poll_env \<Rightarrow> bool \<Rightarrow> bool \<Rightarrow> 'db server_st
     \<Rightarrow> (int list \<times> 'db server_st) option" where
  "network_server_loop ops cf spe chans pe st_ok ac_ok sv =
     (case get_process_connections_flag (pe_now pe) (gprocess_connections_time sv) of
        (due, next_time) \<Rightarrow>
          Option.bind (if due then process_connections ops (sc_serverprotocol cf) (sc_client_id_wait_secs cf) spe chans pe (sv_ct sv)
                       else Some (0, [], sv_ct sv)) (\<lambda>(_, cl, ct).
          case get_report_client_connections_flag (sv\<lparr>sv_ct := ct, gprocess_connections_time := next_time\<rparr>) of
            (report, sv) \<Rightarrow>
              if report then
                map_option (\<lambda>fs. (cl, sv\<lparr>sv_files := fs\<rparr>))
                  (report_client_connections (sc_serverstatefile cf) (sc_serveractivefile cf) st_ok ac_ok (pe_now pe) ct (sv_files sv))
              else Some (cl, sv)))"

section \<open>The thread of a client\<close>

text \<open>The status, the element, and the channel to the client.\<close>

definition send_emwin_client ::
  "int \<Rightarrow> byte list \<Rightarrow> 'db conn_element_st \<Rightarrow> chan \<Rightarrow> int \<times> 'db conn_element_st \<times> chan" where
  "send_emwin_client retry data ce c =
     (case writen data retry c of
        (n, c) \<Rightarrow>
          let status = (if n < 0 then -1 else if n \<noteq> int (length data) then 1 else 0) in
          (status,
           if status \<noteq> 0 then conn_element_set_exit_flag ce else ce\<lparr>ce_cs := conn_stats_update_packets (length data) (ce_cs ce)\<rparr>,
           c))"

text \<open>
  Reading from the queue and writing to the client. The record has to hold as many bytes as its
  envelope says.
\<close>

definition client_loop ::
  "'db dbops \<Rightarrow> int \<Rightarrow> nat \<times> nat \<Rightarrow> 'db wait_event list \<Rightarrow> int \<Rightarrow> 'db conn_element_st \<Rightarrow> chan
     \<Rightarrow> ('db conn_element_st \<times> chan) option" where
  "client_loop ops timeout_ms tv evs retry ce c =
     (case ce_cq ce of
        Ptr cq \<Rightarrow>
          (case connqueue_rcv ops timeout_ms tv evs cq of
             None \<Rightarrow> None
           | Some (status, _, data, cq) \<Rightarrow>
               let ce = ce\<lparr>ce_cq := Ptr cq\<rparr> in
               case data of
                 None \<Rightarrow> Some (ce\<lparr>ce_cs := conn_stats_update_errors (ce_cs ce)\<rparr>, c)
               | Some d \<Rightarrow>
                   let bbdata_size = unat (unpack_uint32 d 0); bbdata = drop EMWIN_QUEUE_ENVELOPE_SIZE d in
                   if length d < EMWIN_QUEUE_ENVELOPE_SIZE \<or> bbdata_size > length bbdata then None
                   else case send_emwin_client retry (take bbdata_size bbdata) ce c of
                       (status, ce, c) \<Rightarrow>
                         Some (if status \<noteq> 0 then ce\<lparr>ce_cs := conn_stats_update_errors (ce_cs ce)\<rparr> else ce, c))
      | _ \<Rightarrow> None)"

definition client_periodic :: "bool \<Rightarrow> nat \<Rightarrow> int \<Rightarrow> 'db conn_element_st \<Rightarrow> 'db conn_element_st option" where
  "client_periodic fopen_ok now log_freq ce =
     (case ce_cq ce of
        Ptr cq \<Rightarrow>
          Some (if connqueue_test_dberror_flag cq then conn_element_set_exit_flag ce
                else fst (snd (conn_element_report_cstats fopen_ok now log_freq 0 ce)))
      | _ \<Rightarrow> None)"

text \<open>One turn of \<open>client_thread_main\<close>: the turn is done even when \<open>periodic\<close> has set the exit flag.\<close>

definition client_turn ::
  "'db dbops \<Rightarrow> int \<Rightarrow> int \<Rightarrow> int \<Rightarrow> bool \<times> nat \<times> (nat \<times> nat) \<times> 'db wait_event list \<Rightarrow> 'db conn_element_st \<times> chan
     \<Rightarrow> ('db conn_element_st \<times> chan) option" where
  "client_turn ops timeout_ms retry log_freq turn s =
     (case (turn, s) of ((fopen_ok, now, tv, evs), ce, c) \<Rightarrow>
        Option.bind (client_periodic fopen_ok now log_freq ce) (\<lambda>ce. client_loop ops timeout_ms tv evs retry ce c))"

text \<open>
  The whole thread, for as many turns as there are until the program quits or cancels it; at the
  end it sets the flag with which the main thread finds it.
\<close>

fun client_turns ::
  "'db dbops \<Rightarrow> int \<Rightarrow> int \<Rightarrow> int \<Rightarrow> (bool \<times> nat \<times> (nat \<times> nat) \<times> 'db wait_event list) list \<Rightarrow> 'db conn_element_st \<times> chan
     \<Rightarrow> ('db conn_element_st \<times> chan) option" where
  "client_turns ops timeout_ms retry log_freq [] s = Some s"
| "client_turns ops timeout_ms retry log_freq (turn # turns) s =
     (if f_exit (fst s) then Some s
      else Option.bind (client_turn ops timeout_ms retry log_freq turn s) (client_turns ops timeout_ms retry log_freq turns))"

definition client_cleanup :: "int \<Rightarrow> 'db conn_element_st \<Rightarrow> 'db conn_element_st option" where
  "client_cleanup unlock_status ce =
     (case ce_cq ce of
        Ptr cq \<Rightarrow> Option.bind (connqueue_rcv_cleanup unlock_status cq) (\<lambda>_. conn_element_set_finished_flag ce)
      | _ \<Rightarrow> None)"

definition client_thread_main ::
  "'db dbops \<Rightarrow> int \<Rightarrow> int \<Rightarrow> int \<Rightarrow> int \<Rightarrow> (bool \<times> nat \<times> (nat \<times> nat) \<times> 'db wait_event list) list \<Rightarrow> 'db conn_element_st \<times> chan
     \<Rightarrow> ('db conn_element_st \<times> chan) option" where
  "client_thread_main ops timeout_ms retry log_freq unlock_status turns s =
     Option.bind (client_turns ops timeout_ms retry log_freq turns s)
       (\<lambda>(ce, c). map_option (\<lambda>ce. (ce, c)) (client_cleanup unlock_status ce))"

section \<open>The table stays good\<close>

text \<open>What a change of an element must not touch.\<close>

definition same_conn :: "'db conn_element_st \<Rightarrow> 'db conn_element_st \<Rightarrow> bool" where
  "same_conn ce ce' \<longleftrightarrow> ce_type ce' = ce_type ce \<and> ce_ip ce' = ce_ip ce \<and> ce_pid ce' = ce_pid ce"

lemma same_conn_type:
  assumes "same_conn ce ce'"
  shows "conn_element_isclient ce' = conn_element_isclient ce" "conn_element_isnetclient ce' = conn_element_isnetclient ce"
    "conn_element_isserver ce' = conn_element_isserver ce" "ce_ip ce' = ce_ip ce" "ce_pid ce' = ce_pid ce" "ce_type ce' = ce_type ce"
  using assms
  by (simp_all add: same_conn_def conn_element_isclient_def conn_element_isnetclient_def conn_element_isserver_def)

lemma set_element_ok:
  assumes t: "table_ok ct" and i: "i < length (ct_ce ct)" and c: "same_conn (ct_ce ct ! i) ce"
    and q: "ce_cq ce \<noteq> Dangling" "conn_element_get_connection_status ce = 0"
  shows "table_ok (set_element i ce ct)" "client_fds (set_element i ce ct) = client_fds ct"
    "length (ct_ce (set_element i ce ct)) = length (ct_ce ct)"
proof -
  obtain a x b where l: "ct_ce ct = a @ x # b" "length a = i" "ct_ce ct ! i = x"
    using remove_nth_split [OF i] by metis
  have len: "length (ct_pfd ct) = length (ct_ce ct)" using t by (simp add: table_ok_def)
  obtain e y d where p: "ct_pfd ct = e @ y # d" "length e = i"
    using remove_nth_split [of i "ct_pfd ct"] len i by metis
  have upd: "ct_ce (set_element i ce ct) = a @ ce # b" using l by (auto simp: set_element_def)
  note ty = same_conn_type [OF c [unfolded l(3)]]
  show fds: "client_fds (set_element i ce ct) = client_fds ct"
    unfolding client_fds_def upd using l p ty by (simp add: set_element_def)
  have n: "netclients (a @ ce # b) = netclients (ct_ce ct)" and ip: "ips (a @ ce # b) = ips (ct_ce ct)"
    using l(1) ty by simp_all
  show "table_ok (set_element i ce ct)"
    using t l(1,2) p ty q unfolding table_ok_def fds upd n ip
    by (elim conjE) (simp add: set_element_def del: netclients_simps)
  show "length (ct_ce (set_element i ce ct)) = length (ct_ce ct)" by (simp add: set_element_def)
qed

text \<open>
  The relation between a table and a later one: good, nothing added, and every client
  descriptor still there or closed.
\<close>

definition keeps :: "'db conn_table_st \<Rightarrow> (int list \<times> 'db conn_table_st) \<Rightarrow> bool" where
  "keeps ct r \<longleftrightarrow> (case r of (cl, ct') \<Rightarrow> table_ok ct' \<and> length (ct_ce ct') \<le> length (ct_ce ct)
     \<and> mset (client_fds ct') + mset cl = mset (client_fds ct))"

lemma keeps_refl: "table_ok ct \<Longrightarrow> keeps ct ([], ct)"
  by (simp add: keeps_def)

lemma keeps_trans: "keeps ct (cl, ct1) \<Longrightarrow> keeps ct1 (cl', ct2) \<Longrightarrow> keeps ct (cl @ cl', ct2)"
  unfolding keeps_def by (auto simp: ac_simps)

lemma keeps_set:
  assumes "table_ok ct" "i < length (ct_ce ct)" "same_conn (ct_ce ct ! i) ce" "ce_cq ce \<noteq> Dangling"
    "conn_element_get_connection_status ce = 0"
  shows "keeps ct ([], set_element i ce ct)"
  using set_element_ok [OF assms] by (simp add: keeps_def)

lemma kill_keeps:
  assumes "table_ok ct" "i < length (ct_ce ct)"
  shows "\<exists>st cl ct'. poll_kill_client_connection env i ct = Some (st, cl, ct') \<and> keeps ct (cl, ct')"
proof -
  obtain st cl ct' where "conn_table_del_element env i ct = Some (st, cl, ct')" "table_ok ct'"
    "ct_ce ct' = remove_nth i (ct_ce ct)" "mset (client_fds ct') + mset cl = mset (client_fds ct)"
    using del_element_ok [OF assms(1), of i env] assms(2) by (metis conn_table_get_numentries_def)
  then show ?thesis
    by (simp add: poll_kill_client_connection_def poll_del_connection_def keeps_def remove_nth_def)
qed

lemma ident_keeps:
  assumes "table_ok ct" "i < length (ct_ce ct)"
  shows "\<exists>r ct'. ident_client_protocol mem_ok i msg ct = Some (r, ct') \<and> keeps ct ([], ct')"
proof -
  have "ident_client_protocol mem_ok i msg ct \<noteq> None"
    using assms(2)
    by (cases mem_ok) (auto simp: ident_client_protocol_def get_client_protocol_def conn_table_get_element_appdata_def
        set_client_protocol_def conn_table_set_element_appdata_def conn_table_get_numentries_def Let_def split: prod.split)
  then obtain r ct' where r: "ident_client_protocol mem_ok i msg ct = Some (r, ct')" by force
  have "ct_ce ct ! i \<in> set (ct_ce ct)" using assms(2) by simp
  then have "ce_cq (ct_ce ct ! i) \<noteq> Dangling" "conn_element_get_connection_status (ct_ce ct ! i) = 0"
    using assms(1) by (auto simp: table_ok_def)
  then have "keeps ct ([], ct')"
    using ident_shape [OF r] keeps_refl [OF assms(1)]
    by (auto intro!: keeps_set [OF assms] simp: same_conn_def conn_element_get_connection_status_def)
  with r show ?thesis by blast
qed

text \<open>The handler of this server meets the contract of the connection library.\<close>

lemma client_pid:
  "table_ok ct \<Longrightarrow> i < length (ct_ce ct) \<Longrightarrow> \<not> conn_element_isserver (ct_ce ct ! i) \<Longrightarrow> ce_pid (ct_ce ct ! i) = -1"
  using nth_mem by (fastforce simp: table_ok_def)

lemma handle_client_keeps:
  assumes t: "table_ok ct" and i: "i < length (ct_ce ct)" "\<not> conn_element_isserver (ct_ce ct ! i)"
  shows "\<exists>cl ct'. handle_client sp env chans mem_ok i ct = Some (0, cl, ct') \<and> keeps ct (cl, ct')"
proof -
  have pid: "ce_pid (ct_ce ct ! i) = -1" using client_pid [OF t i] .
  obtain n buf c where rd: "read1 (EMWIN_PACKET_SIZE - 1) 0 (chans (p_fd (ct_pfd ct ! i))) = (n, buf, c)" by (metis prod_cases3)
  obtain r ct1 where id: "ident_client_protocol mem_ok i (bb_xor buf) ct = Some (r, ct1)" "keeps ct ([], ct1)"
    using ident_keeps [OF t i(1)] by blast
  have t1: "table_ok ct1" "i < length (ct_ce ct1)"
    using id ident_length [OF id(1)] i(1) by (auto simp: keeps_def)
  obtain st cl ct2 where k1: "poll_kill_client_connection env i ct1 = Some (st, cl, ct2)" "keeps ct1 (cl, ct2)"
    using kill_keeps [OF t1] by blast
  obtain st' cl' ct3 where k2: "poll_kill_client_connection env i ct = Some (st', cl', ct3)" "keeps ct (cl', ct3)"
    using kill_keeps [OF t i(1)] by blast
  obtain protocol where p: "get_client_protocol i ct1 = Some protocol"
    using t1(2) by (simp add: get_client_protocol_def conn_table_get_element_appdata_def conn_table_get_numentries_def)
  show ?thesis
    using pid rd id k1 k2 p i(1) keeps_trans [OF id(2) k1(2)]
    by (auto simp: handle_client_def conn_table_get_numentries_def)
qed

interpretation npemwin: conn_handler "handle_client sp env chans mem_ok"
  for sp env chans mem_ok
  by unfold_locales (use handle_client_keeps in \<open>fastforce simp: keeps_def\<close>)

text \<open>Each pass over the table keeps it good: what one element does, then the rest of the loop.\<close>

lemma keeps_step:
  assumes "keeps ct (cl1, ct1)" and "table_ok ct1 \<Longrightarrow> \<exists>cl ct'. rest = Some ((closed @ cl1) @ cl, ct') \<and> keeps ct1 (cl, ct')"
  shows "\<exists>cl ct'. rest = Some (closed @ cl, ct') \<and> keeps ct (cl, ct')"
proof -
  have "table_ok ct1" using assms(1) by (simp add: keeps_def)
  then obtain cl ct' where "rest = Some ((closed @ cl1) @ cl, ct')" "keeps ct1 (cl, ct')" using assms(2) by blast
  with keeps_trans [OF assms(1)] show ?thesis by (metis append_assoc)
qed

lemma finished_keeps:
  "table_ok ct \<Longrightarrow> \<exists>cl ct'. finished_loop env i closed ct = Some (closed @ cl, ct') \<and> keeps ct (cl, ct')"
proof (induction env i closed ct rule: finished_loop.induct)
  case (1 env i closed ct)
  show ?case
  proof (cases "i < length (ct_ce ct) \<and> conn_element_isnetclient_stoped (ct_ce ct ! i)")
    case True
    then obtain st cl1 ct1 where k: "poll_kill_client_connection env i ct = Some (st, cl1, ct1)" "keeps ct (cl1, ct1)"
      using kill_keeps [OF "1.prems"] by blast
    then have "finished_loop env i closed ct = finished_loop env (Suc i) (closed @ cl1) ct1"
      using True by (simp add: finished_loop.simps [of _ i] conn_table_get_numentries_def)
    then show ?thesis
      using keeps_step [OF k(2), of "finished_loop env (Suc i) (closed @ cl1) ct1" closed] "1.IH"(2) [OF _ _ k(1) refl refl] True
      by (simp add: conn_table_get_numentries_def)
  next
    case False
    then show ?thesis
      using "1.IH"(1) "1.prems" keeps_refl [OF "1.prems"]
      by (auto simp: finished_loop.simps [of _ i] conn_table_get_numentries_def)
  qed
qed

lemma unidentified_keeps:
  "table_ok ct \<Longrightarrow> \<exists>cl ct'. unidentified_loop env mem_ok now w i closed ct = Some (closed @ cl, ct') \<and> keeps ct (cl, ct')"
proof (induction env mem_ok now w i closed ct rule: unidentified_loop.induct)
  case (1 env mem_ok now w i closed ct)
  note simps = unidentified_loop.simps [of _ _ _ _ i] conn_table_get_numentries_def
  let ?late = "get_client_protocol i ct = Some PROTOCOL_UNKNOWN \<and> now > cs_ctime (ce_cs (ct_ce ct ! i)) + w"
  show ?case
  proof (cases "i < length (ct_ce ct) \<and> conn_element_isnetclient (ct_ce ct ! i) \<and> ?late")
    case True
    then have i: "i < length (ct_ce ct)" by blast
    obtain r ct1 where r: "ident_client_protocol mem_ok i PROTOCOL_EMWIN1_STR ct = Some (r, ct1)" "keeps ct ([], ct1)"
      using ident_keeps [OF "1.prems" i] by blast
    then have t1: "table_ok ct1" "i < length (ct_ce ct1)" using i ident_length [OF r(1)] by (auto simp: keeps_def)
    show ?thesis
    proof (cases "r = 0")
      case r0: True
      then have "unidentified_loop env mem_ok now w i closed ct = unidentified_loop env mem_ok now w (Suc i) closed ct1"
        using True r(1) by (simp add: simps)
      then show ?thesis
        using keeps_step [OF r(2), of "unidentified_loop env mem_ok now w (Suc i) closed ct1" closed]
          "1.IH"(3) [OF _ _ _ r(1) refl] True r0 by (simp add: conn_table_get_numentries_def)
    next
      case r0: False
      obtain st cl1 ct2 where k: "poll_kill_client_connection env i ct1 = Some (st, cl1, ct2)" "keeps ct1 (cl1, ct2)"
        using kill_keeps [OF t1] by blast
      have "keeps ct (cl1, ct2)" using keeps_trans [OF r(2) k(2)] by simp
      moreover have "unidentified_loop env mem_ok now w i closed ct = unidentified_loop env mem_ok now w (Suc i) (closed @ cl1) ct2"
        using True r(1) r0 k(1) by (simp add: simps)
      ultimately show ?thesis
        using keeps_step [of ct cl1 ct2 "unidentified_loop env mem_ok now w (Suc i) (closed @ cl1) ct2" closed]
          "1.IH"(2) [OF _ _ _ r(1) refl _ k(1) refl refl] True r0 by (simp add: conn_table_get_numentries_def)
    qed
  next
    case False
    then show ?thesis
      using "1.IH"(1,4) "1.prems" keeps_refl [OF "1.prems"] by (auto simp: simps)
  qed
qed

lemma init4_keeps:
  assumes "conn_element_init4 ops res_ok cq_mem_ok d True cp ce = (st, err, ce')" "ce_cq ce \<noteq> Dangling"
  shows "same_conn ce ce' \<and> ce_cq ce' \<noteq> Dangling \<and> conn_element_get_connection_status ce' = 0"
  using assms
  by (auto simp: conn_element_init4_def same_conn_def conn_element_get_connection_status_def
      split: if_splits prod.splits option.splits)

text \<open>Where threads can be created: a failure there leaves a dangling queue, as shown in \<open>Conn\<close>.\<close>

definition threads_ok :: "'db spawn_env \<Rightarrow> bool" where
  "threads_ok spe \<longleftrightarrow> (\<forall>fd. snd (snd (snd (spe fd))))"

lemma spawn_keeps:
  "table_ok ct \<Longrightarrow> threads_ok spe \<Longrightarrow>
     \<exists>cl ct'. spawn_loop ops env spe i closed ct = Some (closed @ cl, ct') \<and> keeps ct (cl, ct')"
proof (induction ops env spe i closed ct rule: spawn_loop.induct)
  case (1 ops env spe i closed ct)
  note simps = spawn_loop.simps [of _ _ _ i] conn_table_get_numentries_def
  let ?skip = "conn_element_get_created_flag (ct_ce ct ! i) \<or> \<not> conn_element_isclient (ct_ce ct ! i)
      \<or> get_client_protocol i ct = Some PROTOCOL_UNKNOWN"
  show ?case
  proof (cases "i < length (ct_ce ct) \<and> \<not> ?skip")
    case True
    then have i: "i < length (ct_ce ct)" and sk: "\<not> ?skip" by blast+
    obtain a b d where sp: "spe (p_fd (ct_pfd ct ! i)) = (a, b, d, True)"
      using "1.prems"(2) by (metis (full_types) prod.collapse threads_ok_def)
    obtain st err ce where c: "conn_element_init4 ops a b d True cqparam (ct_ce ct ! i) = (st, err, ce)" by (metis prod_cases3)
    have nd: "ce_cq (ct_ce ct ! i) \<noteq> Dangling" using "1.prems"(1) i by (simp add: table_ok_def)
    have k: "keeps ct ([], set_element i ce ct)"
      using init4_keeps [OF c nd] keeps_set [OF "1.prems"(1) i] by blast
    then have t1: "table_ok (set_element i ce ct)" "i < length (ct_ce (set_element i ce ct))"
      using i by (auto simp: keeps_def set_element_def)
    have n: "\<not> conn_table_get_numentries ct \<le> i" using i by (simp add: conn_table_get_numentries_def)
    show ?thesis
    proof (cases "st = 0")
      case s0: True
      have "spawn_loop ops env spe i closed ct = spawn_loop ops env spe (Suc i) closed (set_element i ce ct)"
        using n sk sp c s0 by (simp add: spawn_loop.simps [of _ _ _ i])
      then show ?thesis
        using keeps_step [OF k, of "spawn_loop ops env spe (Suc i) closed (set_element i ce ct)" closed]
          "1.IH"(3) [OF n sk] sp c s0 "1.prems"(2) by simp
    next
      case s0: False
      obtain s2 cl1 ct2 where kl: "poll_kill_client_connection env i (set_element i ce ct) = Some (s2, cl1, ct2)"
        "keeps (set_element i ce ct) (cl1, ct2)"
        using kill_keeps [OF t1] by blast
      have "keeps ct (cl1, ct2)" using keeps_trans [OF k kl(2)] by simp
      moreover have "spawn_loop ops env spe i closed ct = spawn_loop ops env spe (Suc i) (closed @ cl1) ct2"
        using n sk sp c s0 kl(1) by (simp add: spawn_loop.simps [of _ _ _ i])
      ultimately show ?thesis
        using keeps_step [of ct cl1 ct2 "spawn_loop ops env spe (Suc i) (closed @ cl1) ct2" closed]
          "1.IH"(2) [OF n sk] sp c s0 kl(1) "1.prems"(2) by simp
    qed
  next
    case False
    then show ?thesis
      using "1.IH"(1) "1.prems" keeps_refl [OF "1.prems"(1)] by (auto simp: simps)
  qed
qed

text \<open>
  C5. A round of upkeep of the connections keeps the table good: whatever clients connect, log
  in, hang up or time out, and whatever fails, short of a thread that cannot be created, or a
  descriptor or the database of a queue that cannot be closed (the code then has an assertion
  that fails), the round ends without a failed assertion, the count of
  clients is right and within the limit, the addresses are distinct, and every descriptor of a
  client, old or newly accepted, is either still in the table or has been closed once.
\<close>

theorem process_connections_ok:
  assumes "table_ok ct" "threads_ok spe" "\<And>fd. pe_close pe fd = (True, True)" "-1 \<notin> accepts pe"
  shows "\<exists>st closed ct' new. process_connections ops sp wait_secs spe chans pe ct = Some (st, closed, ct') \<and> table_ok ct'
    \<and> mset (client_fds ct') + mset closed = mset (client_fds ct) + mset new \<and> set new \<subseteq> accepts pe"
proof -
  obtain cl1 ct1 where 1: "process_finished_connections (pe_close pe) ct = Some (cl1, ct1)" "keeps ct (cl1, ct1)"
    using finished_keeps [OF assms(1), of _ _ "[]"] unfolding process_finished_connections_def by (metis append_Nil)
  then have "table_ok ct1" by (simp add: keeps_def)
  then obtain cl2 ct2 where 2: "process_unidentified_connections (pe_close pe) (pe_mem pe) (pe_now pe) wait_secs ct1 = Some (cl2, ct2)"
    "keeps ct1 (cl2, ct2)"
    using unidentified_keeps [of ct1 _ _ _ _ _ "[]"] unfolding process_unidentified_connections_def by (metis append_Nil)
  then have "table_ok ct2" by (simp add: keeps_def)
  then obtain cl3 ct3 where 3: "spawn_client_threads ops (pe_close pe) spe ct2 = Some (cl3, ct3)" "keeps ct2 (cl3, ct3)"
    using spawn_keeps [OF _ assms(2), of ct2 _ _ _ "[]"] unfolding spawn_client_threads_def by (metis append_Nil)
  then have "table_ok ct3" by (simp add: keeps_def)
  then obtain st cl4 ct4 new where 4: "poll_loop_wait pe (handle_client sp (pe_close pe) chans (pe_mem pe)) ct3 = Some (st, cl4, ct4)"
    "table_ok ct4" "mset (client_fds ct4) + mset cl4 = mset (client_fds ct3) + mset new" "set new \<subseteq> accepts pe"
    using npemwin.poll_loop_wait_ok [OF _ assms(3,4)] by blast
  have "keeps ct (cl1 @ cl2 @ cl3, ct3)" using keeps_trans [OF keeps_trans [OF 1(2) 2(2)] 3(2)] by simp
  then have "mset (client_fds ct4) + mset (cl1 @ cl2 @ cl3 @ cl4) = mset (client_fds ct) + mset new"
    using 4(3) by (simp add: keeps_def ac_simps)
  moreover have "process_connections ops sp wait_secs spe chans pe ct = Some (st, cl1 @ cl2 @ cl3 @ cl4, ct4)"
    using 1(1) 2(1) 3(1) 4(1) by (simp add: process_connections_def)
  ultimately show ?thesis using 4(2,4) by blast
qed

definition pe0 :: poll_env where
  "pe0 = \<lparr>pe_poll = 1, pe_revents = (\<lambda>fd. (fd = 3, False)), pe_close = (\<lambda>_. (True, True)), pe_mem = True, pe_now = 5,
     pe_opts = opts0, pe_net = (\<lambda>_. Acc 7 (Some [49]) None True), pe_local = (\<lambda>_. (-1, 0)), pe_peek = (\<lambda>_. 1)\<rparr>"

theorem process_connections_ok_witness:
  "\<exists>st closed ct' new. process_connections list_db 3 10 (\<lambda>_. (True, True, (0, True, []), True)) (\<lambda>_. \<lparr>ch_rx = [], ch_tx = [], ch_intr = [], ch_out = []\<rparr>) pe0 table0
       = Some (st, closed, ct') \<and> table_ok ct'
     \<and> mset (client_fds ct') + mset closed = mset (client_fds table0) + mset new \<and> set new \<subseteq> {7}"
proof -
  have a: "accepts pe0 = {7}" by (auto simp: accepts_def pe0_def)
  have "threads_ok (\<lambda>_. (True, True, (0, True, []), True))" by (simp add: threads_ok_def)
  from process_connections_ok [OF table0_ok this, of pe0] show ?thesis
    unfolding a by (simp add: pe0_def)
qed

text \<open>
  C27. Starting and ending the server: when it starts, the table it makes is good and has the
  listening socket alone, and whenever it ends with a good table, it closes every client
  connection and the listening socket exactly once.
\<close>

theorem server_starts_and_ends:
  assumes "init_network_server port fd fcntl_ok table_mem now maxclients = (st, sfd, sct)"
  shows "(st = 0 \<longrightarrow> sfd = fd \<and> (\<exists>ct. sct = Some ct \<and> table_ok ct \<and> client_fds ct = [] \<and> length (ct_ce ct) = 1
            \<and> conn_element_isserver (ct_ce ct ! 0)))
    \<and> (table_ok ct' \<longrightarrow> terminate_network_server fd (Some ct') = Some (client_fds ct' @ (if fd \<noteq> -1 then [fd] else [])))"
  using assms
  by (auto simp: init_network_server_def terminate_network_server_def destroy_closes table_ok_def client_fds_def table_defs
      split: if_splits)

theorem server_starts_and_ends_witness:
  "terminate_network_server 3 (Some table0) = Some (client_fds table0 @ [3])"
proof -
  obtain st sfd and sct :: "byte list list conn_table_st option"
    where r: "init_network_server (Some [49]) 3 True True 0 1 = (st, sfd, sct)" by (metis prod_cases3)
  show ?thesis using server_starts_and_ends [OF r, of table0] table0_ok by simp
qed

text \<open>
  The messages of one client, each read whole by one call of \<open>handle_client\<close>, up to the one
  that makes the server drop the client.
\<close>

definition message_chan :: "byte list \<Rightarrow> chan" where
  "message_chan msg = \<lparr>ch_rx = [Rx_data (bb_xor msg)], ch_tx = [], ch_intr = [], ch_out = []\<rparr>"

fun client_messages ::
  "int \<Rightarrow> close_env \<Rightarrow> nat \<Rightarrow> byte list list \<Rightarrow> 'db conn_table_st \<Rightarrow> (int list \<times> 'db conn_table_st) option" where
  "client_messages sp env i [] ct = Some ([], ct)"
| "client_messages sp env i (m # ms) ct =
     (case handle_client sp env (\<lambda>_. message_chan m) True i ct of
        None \<Rightarrow> None
      | Some (_, closed, ct) \<Rightarrow> if closed \<noteq> [] then Some (closed, ct) else client_messages sp env i ms ct)"

lemma read_message:
  "length m < EMWIN_PACKET_SIZE \<Longrightarrow>
     \<exists>c. read1 (EMWIN_PACKET_SIZE - 1) 0 (message_chan m) = (int (length m), bb_xor m, c)"
  by (simp add: message_chan_def read1_def rounds_def get_retry_interrupt_def emwin_consts bb_xor_def)

lemma msg_ends_iff: "msg_ends key msg \<longleftrightarrow> (\<exists>u. msg = u @ key)"
  by (auto simp: msg_ends_def) (metis append_take_drop_id)

abbreviation with_protocol :: "nat \<Rightarrow> int \<Rightarrow> 'db conn_table_st \<Rightarrow> 'db conn_table_st" where
  "with_protocol i p ct \<equiv> ct\<lparr>ct_ce := (ct_ce ct)[i := (ct_ce ct ! i)\<lparr>appdata := Some p\<rparr>]\<rparr>"

lemma ident_login:
  assumes "i < length (ct_ce ct)" "appdata (ct_ce ct ! i) = None"
  shows "\<exists>r. ident_client_protocol True i msg ct =
    Some (r, with_protocol i (if \<exists>u. msg = u @ cstr ''V2'' then 2 else 1) ct)"
proof -
  have "\<not> (msg_ends PROTOCOL_EMWIN1_STR msg \<and> msg_ends PROTOCOL_EMWIN2_STR msg)"
    by (auto simp: msg_ends_def PROTOCOL_EMWIN1_STR_def PROTOCOL_EMWIN2_STR_def cstr_def)
  with assms show ?thesis
    by (auto simp: msg_ends_iff [symmetric] ident_client_protocol_def get_client_protocol_def conn_table_get_element_appdata_def
        conn_table_get_numentries_def set_client_protocol_def conn_table_set_element_appdata_def set_element_def protocol_defs
        PROTOCOL_EMWIN2_STR_def Let_def)
qed

lemma netclient_pid:
  assumes "table_ok ct" "i < length (ct_ce ct)" "conn_element_isnetclient (ct_ce ct ! i)"
  shows "ce_pid (ct_ce ct ! i) = -1"
  using assms by (intro client_pid) (simp_all add: conn_element_isnetclient_def conn_element_isserver_def)

text \<open>The first message, and every later one of a client that is kept.\<close>

lemma handle_login:
  assumes "table_ok ct" "i < length (ct_ce ct)" "conn_element_isnetclient (ct_ce ct ! i)" "appdata (ct_ce ct ! i) = None"
    and "m \<noteq> []" "length m < EMWIN_PACKET_SIZE" "p = (if \<exists>u. m = u @ cstr ''V2'' then 2 else 1)"
  shows "handle_client sp env (\<lambda>_. message_chan m) True i ct =
      (if sp = 2 \<and> p = 1 then map_option (\<lambda>(_, cl, ct). (0, cl, ct)) (poll_kill_client_connection env i (with_protocol i p ct))
       else Some (0, [], with_protocol i p ct))"
proof -
  obtain c where "read1 (EMWIN_PACKET_SIZE - 1) 0 (message_chan m) = (int (length m), bb_xor m, c)"
    using read_message [OF assms(6)] by blast
  moreover obtain r where "ident_client_protocol True i m ct = Some (r, with_protocol i p ct)"
    using ident_login [OF assms(2,4), of m] assms(7) by auto
  moreover have "get_client_protocol i (with_protocol i p ct) = Some p"
    using assms(2) by (simp add: get_client_protocol_def conn_table_get_element_appdata_def conn_table_get_numentries_def)
  ultimately show ?thesis
    using assms(2,5,7) netclient_pid [OF assms(1-3)]
    by (simp add: handle_client_def conn_table_get_numentries_def protocol_defs)
qed

lemma handle_later:
  assumes "table_ok ct" "i < length (ct_ce ct)" "conn_element_isnetclient (ct_ce ct ! i)" "appdata (ct_ce ct ! i) = Some p"
    and "p \<in> {1, 2}" "sp = 2 \<longrightarrow> p = 2" "m \<noteq> []" "length m < EMWIN_PACKET_SIZE"
  shows "handle_client sp env (\<lambda>_. message_chan m) True i ct = Some (0, [], ct)"
proof -
  obtain c where "read1 (EMWIN_PACKET_SIZE - 1) 0 (message_chan m) = (int (length m), bb_xor m, c)"
    using read_message [OF assms(8)] by blast
  moreover have "get_client_protocol i ct = Some p"
    using assms(2,4) by (simp add: get_client_protocol_def conn_table_get_element_appdata_def conn_table_get_numentries_def)
  ultimately show ?thesis
    using assms(2,5-7) netclient_pid [OF assms(1-3)]
    by (auto simp: handle_client_def ident_client_protocol_def conn_table_get_numentries_def protocol_defs)
qed

lemma client_messages_later:
  assumes "table_ok ct" "i < length (ct_ce ct)" "conn_element_isnetclient (ct_ce ct ! i)" "appdata (ct_ce ct ! i) = Some p"
    and "p \<in> {1, 2}" "sp = 2 \<longrightarrow> p = 2" "\<forall>m \<in> set ms. m \<noteq> [] \<and> length m < EMWIN_PACKET_SIZE"
  shows "client_messages sp env i ms ct = Some ([], ct)"
  using assms(7) by (induction ms) (simp_all add: handle_later [OF assms(1-6)])

text \<open>Dropping a client closes its descriptor and nothing else.\<close>

lemma kill_closes:
  assumes "table_ok ct" "i < length (ct_ce ct)" "conn_element_isnetclient (ct_ce ct ! i)"
  obtains st ct' where "poll_kill_client_connection env i ct = Some (st, [p_fd (ct_pfd ct ! i)], ct')"
    "table_ok ct'" "ct_ce ct' = take i (ct_ce ct) @ drop (Suc i) (ct_ce ct)" "nclients ct' = nclients ct - 1"
    "mset (client_fds ct) = mset (client_fds ct') + {#p_fd (ct_pfd ct ! i)#}"
proof -
  obtain st cl ct' where d: "conn_table_del_element env i ct = Some (st, cl, ct')" "table_ok ct'"
    "ct_ce ct' = remove_nth i (ct_ce ct)" "ct_pfd ct' = remove_nth i (ct_pfd ct)"
    "mset (client_fds ct') + mset cl = mset (client_fds ct)" "nclients ct' = nclients ct - 1"
    using del_element_ok [OF assms(1), of i env] assms(2,3) by (metis conn_table_get_numentries_def)
  have len: "length (ct_pfd ct) = length (ct_ce ct)" using assms(1) by (simp add: table_ok_def)
  obtain a x b where ce: "ct_ce ct = a @ x # b" "length a = i" "ct_ce ct ! i = x" "remove_nth i (ct_ce ct) = a @ b"
    using remove_nth_split [OF assms(2)] by metis
  obtain c y e where pf: "ct_pfd ct = c @ y # e" "length c = i" "ct_pfd ct ! i = y" "remove_nth i (ct_pfd ct) = c @ e"
    using remove_nth_split [of i "ct_pfd ct"] assms(2) len by metis
  have x: "conn_element_isclient x"
    using assms(3) ce(3) by (simp add: conn_element_isclient_def conn_element_isnetclient_def)
  have fds: "mset (client_fds ct) = mset (client_fds ct') + {#p_fd (ct_pfd ct ! i)#}"
    using x ce(1,2,4) pf d(3,4) by (simp add: client_fds_def)
  with d(5) have "mset cl = {#p_fd (ct_pfd ct ! i)#}" by (metis add_left_cancel)
  then have "cl = [p_fd (ct_pfd ct ! i)]" by simp
  with d fds that show thesis
    by (simp add: poll_kill_client_connection_def poll_del_connection_def remove_nth_def)
qed

text \<open>
  C28. The login decides the protocol of a client, when there is memory and each of its messages arrives in
  one read: if its first message ends with the letters \<open>V2\<close> the client is one of the second protocol, otherwise, whatever
  it is, of the first, and no later message changes that; nothing else in the table changes. The exception is a server of
  the second protocol only, which drops a client of the first after its first message: it closes the descriptor
  of that client, and no other, takes its element out of the table, and the table is good afterwards.
\<close>

theorem client_login:
  assumes "table_ok ct" "i < length (ct_ce ct)" "conn_element_isnetclient (ct_ce ct ! i)" "appdata (ct_ce ct ! i) = None"
    and "\<forall>m \<in> set (login # later). m \<noteq> [] \<and> length m < EMWIN_PACKET_SIZE"
  shows "if \<exists>u. login = u @ cstr ''V2''
    then client_messages sp env i (login # later) ct = Some ([], ct\<lparr>ct_ce := (ct_ce ct)[i := (ct_ce ct ! i)\<lparr>appdata := Some 2\<rparr>]\<rparr>)
    else if sp \<noteq> 2
    then client_messages sp env i (login # later) ct = Some ([], ct\<lparr>ct_ce := (ct_ce ct)[i := (ct_ce ct ! i)\<lparr>appdata := Some 1\<rparr>]\<rparr>)
    else \<exists>ct'. client_messages sp env i (login # later) ct = Some ([p_fd (ct_pfd ct ! i)], ct') \<and> table_ok ct'
      \<and> ct_ce ct' = take i (ct_ce ct) @ drop (Suc i) (ct_ce ct)
      \<and> mset (client_fds ct) = mset (client_fds ct') + {#p_fd (ct_pfd ct ! i)#}"
proof -
  define p :: int where "p = (if \<exists>u. login = u @ cstr ''V2'' then 2 else 1)"
  let ?ct = "with_protocol i p ct"
  have t: "table_ok ?ct" "conn_element_isnetclient (ct_ce ?ct ! i)" "appdata (ct_ce ?ct ! i) = Some p" "i < length (ct_ce ?ct)"
    using ident_keeps [OF assms(1,2), of True login] ident_login [OF assms(2,4), of login] assms(2,3)
    by (auto simp: p_def keeps_def conn_element_isnetclient_def)
  have h: "handle_client sp env (\<lambda>_. message_chan login) True i ct =
      (if sp = 2 \<and> p = 1 then map_option (\<lambda>(_, cl, ct). (0, cl, ct)) (poll_kill_client_connection env i ?ct)
       else Some (0, [], ?ct))"
    using assms(5) by (intro handle_login [OF assms(1-4) _ _ p_def]) simp_all
  have later: "sp = 2 \<longrightarrow> p = 2 \<Longrightarrow> client_messages sp env i later ?ct = Some ([], ?ct)"
    using assms(5) by (intro client_messages_later [OF t(1,4,2,3)]) (auto simp: p_def)
  show ?thesis
  proof (cases "sp = 2 \<and> p = 1")
    case True
    obtain st ct' where k: "poll_kill_client_connection env i ?ct = Some (st, [p_fd (ct_pfd ?ct ! i)], ct')" "table_ok ct'"
      "ct_ce ct' = take i (ct_ce ?ct) @ drop (Suc i) (ct_ce ?ct)"
      "mset (client_fds ?ct) = mset (client_fds ct') + {#p_fd (ct_pfd ?ct ! i)#}"
      by (rule kill_closes [OF t(1,4,2), of env])
    have "mset (client_fds ?ct) = mset (client_fds ct)"
      using ident_keeps [OF assms(1,2), of True login] ident_login [OF assms(2,4), of login]
      by (auto simp: p_def keeps_def)
    with k h True show ?thesis by (auto simp: p_def split: if_splits)
  next
    case False
    with h later show ?thesis by (auto simp: p_def split: if_splits)
  qed
qed

definition table2 :: "byte list list conn_table_st" where
  "table2 = \<lparr>ct_pfd = [\<lparr>p_fd = 7, p_in = True, p_bad = False\<rparr>],
     ct_ce = [conn_element_init1 5 7 CONN_TYPE_CLIENT_NET (-1) (Some [49]) None opts0], nmax = 1, nclients = 1, nclientsmax = 1, ct_status = 0\<rparr>"

lemma table2_ok: "table_ok table2"
  by (simp add: table_ok_def client_fds_def table2_def table_defs)

theorem client_login_witness:
  "(\<exists>ct'. client_messages 3 (\<lambda>_. (True, True)) 0 [cstr ''ByteBlast Client|NM-a@b|V2'', cstr ''ByteBlast Client|NM-a@b|V1''] table2
     = Some ([], ct') \<and> appdata (ct_ce ct' ! 0) = Some 2)
   \<and> (\<exists>ct'. client_messages 2 (\<lambda>_. (True, True)) 0 [cstr ''ByteBlast Client|NM-a@b''] table2 = Some ([7], ct') \<and> ct_ce ct' = [])"
proof -
  have n: "conn_element_isnetclient (ct_ce table2 ! 0)" "appdata (ct_ce table2 ! 0) = None" "0 < length (ct_ce table2)"
    "p_fd (ct_pfd table2 ! 0) = 7" "length (ct_ce table2) = 1"
    by (simp_all add: table2_def table_defs)
  have e: "\<exists>u. cstr ''ByteBlast Client|NM-a@b|V2'' = u @ cstr ''V2''" "\<not> (\<exists>u. cstr ''ByteBlast Client|NM-a@b'' = u @ cstr ''V2'')"
    by (simp_all add: msg_ends_iff [symmetric] msg_ends_def cstr_def)
  show ?thesis
    using client_login [OF table2_ok n(3,1,2), of "cstr ''ByteBlast Client|NM-a@b|V2''" "[cstr ''ByteBlast Client|NM-a@b|V1'']" 3 "\<lambda>_. (True, True)"]
      client_login [OF table2_ok n(3,1,2), of "cstr ''ByteBlast Client|NM-a@b''" "[]" 2 "\<lambda>_. (True, True)"] e n
    by (auto simp: emwin_consts cstr_def)
qed

section \<open>A packet reaches the queue of every running client\<close>

definition has_queue :: "'db conn_element_st \<Rightarrow> bool" where
  "has_queue ce \<longleftrightarrow> (case ce_cq ce of Ptr cq \<Rightarrow> nbspq (cq_qt cq) \<noteq> [] | _ \<Rightarrow> False)"

text \<open>An element with \<open>data\<close> sent to its queue.\<close>

definition delivered :: "'db dbops \<Rightarrow> byte list \<Rightarrow> 'db conn_element_st \<Rightarrow> 'db conn_element_st" where
  "delivered ops data ce =
     (case ce_cq ce of
        Ptr cq \<Rightarrow> (case nbspq (cq_qt cq) of
            q # qs \<Rightarrow> (case queue_snd ops (softlimit (cq_qt cq)) (hardlimit (cq_qt cq)) data q of
                (_, _, q) \<Rightarrow> ce\<lparr>ce_cq := Ptr (cq\<lparr>cq_qt := (cq_qt cq)\<lparr>nbspq := q # qs\<rparr>\<rparr>)\<rparr>)
          | [] \<Rightarrow> ce)
      | _ \<Rightarrow> ce)"

definition after_send :: "'db dbops \<Rightarrow> emwin_packet \<Rightarrow> 'db conn_element_st \<Rightarrow> 'db conn_element_st" where
  "after_send ops ep ce =
     (if conn_element_isnetclient_running ce \<and> appdata ce = Some 1 then delivered ops (queue_data_v1 ep) ce
      else if conn_element_isnetclient_running ce \<and> appdata ce = Some 2 then delivered ops (queue_data_v2 ep) ce
      else ce)"

lemma connqueue_snd_queue:
  assumes "nbspq (cq_qt cq) = q # qs"
  shows "connqueue_snd ops data cq =
    (case queue_snd ops (softlimit (cq_qt cq)) (hardlimit (cq_qt cq)) data q of
       (st, err, q') \<Rightarrow> Some (st, (case err of None \<Rightarrow> 0 | Some e \<Rightarrow> e), cq\<lparr>cq_qt := (cq_qt cq)\<lparr>nbspq := q' # qs\<rparr>\<rparr>))"
  using assms by (simp add: connqueue_snd_def nbspqt_snd_def split: prod.splits)

lemma send_element_after:
  assumes "has_queue ce" "conn_element_isnetclient_running ce"
  shows "\<exists>st. send_element ops ep status ce = Some (st, after_send ops ep ce)"
proof -
  obtain cq q qs where cq: "ce_cq ce = Ptr cq" "nbspq (cq_qt cq) = q # qs"
    using assms(1) by (auto simp: has_queue_def split: ptr.splits) (metis neq_Nil_conv)
  have d: "\<exists>st er c. connqueue_snd ops data cq = Some (st, er, c) \<and> delivered ops data ce = ce\<lparr>ce_cq := Ptr c\<rparr>" for data
  proof -
    obtain st er q' where "queue_snd ops (softlimit (cq_qt cq)) (hardlimit (cq_qt cq)) data q = (st, er, q')" by (metis prod_cases3)
    then show ?thesis using cq by (simp add: connqueue_snd_queue [OF cq(2)] delivered_def)
  qed
  obtain st1 er1 c1 where v1: "connqueue_snd ops (queue_data_v1 ep) cq = Some (st1, er1, c1)"
    "delivered ops (queue_data_v1 ep) ce = ce\<lparr>ce_cq := Ptr c1\<rparr>" using d by blast
  obtain st2 er2 c2 where v2: "connqueue_snd ops (queue_data_v2 ep) cq = Some (st2, er2, c2)"
    "delivered ops (queue_data_v2 ep) ce = ce\<lparr>ce_cq := Ptr c2\<rparr>" using d by blast
  show ?thesis
    using v1 v2 cq(1) assms(2)
    by (cases "appdata ce")
       (simp_all add: send_element_def after_send_def get_client_protocol_byce_def protocol_defs Let_def)
qed

lemma send_loop_after:
  "(\<forall>ce \<in> set ces. conn_element_isnetclient_running ce \<longrightarrow> has_queue ce) \<Longrightarrow>
     \<exists>rs. send_loop ops ep i status ces = Some (rs, map (after_send ops ep) ces)"
proof (induction ces arbitrary: i status)
  case (Cons ce ces)
  show ?case
  proof (cases "conn_element_isnetclient_running ce")
    case True
    then obtain st where st: "send_element ops ep status ce = Some (st, after_send ops ep ce)"
      using send_element_after [of ce ops ep status] Cons.prems by auto
    obtain rs where "send_loop ops ep (Suc i) st ces = Some (rs, map (after_send ops ep) ces)"
      using Cons.IH [of "Suc i" st] Cons.prems by auto
    then show ?thesis using st True by (simp add: conn_element_isnetclient_running_def)
  next
    case False
    then have "after_send ops ep ce = ce" by (simp add: after_send_def)
    then show ?thesis using Cons.IH [of "Suc i" status] Cons.prems False by auto
  qed
qed simp

text \<open>
  C15. A received packet is sent to the queue of every client whose thread is running: in the
  first format to the clients of the first protocol, in the compressed one to those of the
  second, once each. All other elements, and the rest of the table, stay as they are.
\<close>

theorem packet_sent_to_all:
  assumes "table_ok ct" and "\<forall>ce \<in> set (ct_ce ct). conn_element_isnetclient_running ce \<longrightarrow> has_queue ce"
  shows "\<exists>rs. server_send_client_queues ops ep ct = Some (rs, ct\<lparr>ct_ce := map (after_send ops ep) (ct_ce ct)\<rparr>)"
proof (cases "nclients ct = 0")
  case True
  then have "filter conn_element_isnetclient (ct_ce ct) = []" using assms(1) by (simp add: table_ok_def netclients_def)
  then have "map (after_send ops ep) (ct_ce ct) = ct_ce ct"
    by (intro map_idI) (auto simp: after_send_def conn_element_isnetclient_running_def filter_empty_conv)
  then show ?thesis using True by (simp add: server_send_client_queues_def)
next
  case False
  then show ?thesis using send_loop_after [OF assms(2), of ops ep 0 0] by (auto simp: server_send_client_queues_def)
qed

text \<open>A table with one running client of the first protocol.\<close>

definition client0 :: "byte list list conn_element_st" where
  "client0 = (conn_element_init1 5 7 CONN_TYPE_CLIENT_NET (-1) (Some [49]) None opts0)
     \<lparr>appdata := Some 1,
      ce_cq := Ptr \<lparr>cq_qt = \<lparr>softlimit = 0, hardlimit = 0, nbspq = [queue0]\<rparr>, data_size_max = 8\<rparr>,
      threadinfo := Some \<lparr>f_thread_created = True, f_thread_finished = False, connection_status = 0, client_fd = 7\<rparr>\<rparr>"

definition table1 :: "byte list list conn_table_st" where
  "table1 = \<lparr>ct_pfd = [\<lparr>p_fd = 7, p_in = False, p_bad = False\<rparr>], ct_ce = [client0], nmax = 1, nclients = 1, nclientsmax = 1, ct_status = 0\<rparr>"

lemmas client_defs = table1_def client0_def conn_element_isnetclient_running_def conn_element_get_created_flag_def
  conn_element_get_finished_flag_def table_defs

lemma table1_ok: "table_ok table1"
  by (simp add: table_ok_def client_fds_def client_defs)

theorem packet_sent_to_all_witness:
  "\<exists>rs. server_send_client_queues list_db (ep0\<lparr>queue_data_v1 := [0, 0, 0, 1, 9]\<rparr>) table1 =
     Some (rs, table1\<lparr>ct_ce := map (after_send list_db (ep0\<lparr>queue_data_v1 := [0, 0, 0, 1, 9]\<rparr>)) (ct_ce table1)\<rparr>)"
proof -
  have "\<forall>ce \<in> set (ct_ce table1). conn_element_isnetclient_running ce \<longrightarrow> has_queue ce"
    by (simp add: client_defs has_queue_def)
  from packet_sent_to_all [OF table1_ok this] show ?thesis by blast
qed

section \<open>What a client receives\<close>

text \<open>
  The main thread and the thread of a client share the queue: a sequence of what the two do,
  in any order. The result has the packets the queue accepted.
\<close>

datatype client_act = Put "byte list" | Turn "bool \<times> nat \<times> (nat \<times> nat)"

fun run_client ::
  "'db dbops \<Rightarrow> int \<Rightarrow> int \<Rightarrow> int \<Rightarrow> client_act list \<Rightarrow> 'db conn_element_st \<times> chan
     \<Rightarrow> (byte list list \<times> 'db conn_element_st \<times> chan) option" where
  "run_client ops ms retry lf [] s = Some ([], s)"
| "run_client ops ms retry lf (Put bb # acts) s =
     (case ce_cq (fst s) of
        Ptr cq \<Rightarrow> Option.bind (connqueue_snd ops (envelope bb) cq) (\<lambda>(st, _, cq).
          map_option (\<lambda>(acc, s). (if st = 0 \<or> st = 1 then bb # acc else acc, s))
            (run_client ops ms retry lf acts ((fst s)\<lparr>ce_cq := Ptr cq\<rparr>, snd s)))
      | _ \<Rightarrow> None)"
| "run_client ops ms retry lf (Turn (f, now, tv) # acts) s =
     (if f_exit (fst s) then run_client ops ms retry lf acts s
      else Option.bind (client_turn ops ms retry lf (f, now, tv, []) s) (run_client ops ms retry lf acts))"

text \<open>The queue of the element: one queue of the library, whose records still to be sent are \<open>rest\<close>.\<close>

definition queued ::
  "'db dbops \<Rightarrow> ('db \<Rightarrow> byte list list) \<Rightarrow> nat \<Rightarrow> byte \<Rightarrow> byte list list \<Rightarrow> 'db conn_element_st \<Rightarrow> bool" where
  "queued ops content reclen pad rest ce \<longleftrightarrow>
     (\<exists>cq q. ce_cq ce = Ptr cq \<and> nbspq (cq_qt cq) = [q] \<and> queue_ok ops content reclen pad q
        \<and> content (dbp q) = map (\<lambda>bb. padded reclen pad (envelope bb)) rest)"

lemma queued_more [simp]:
  "queued ops content reclen pad rest (ce\<lparr>ce_cs := x\<rparr>) = queued ops content reclen pad rest ce"
  "queued ops content reclen pad rest (conn_element_set_exit_flag ce) = queued ops content reclen pad rest ce"
  by (simp_all add: queued_def conn_element_set_exit_flag_def)

lemma queued_snd:
  assumes q: "queued ops content reclen pad rest ce"
  shows "\<exists>cq st err cq'. ce_cq ce = Ptr cq \<and> connqueue_snd ops (envelope bb) cq = Some (st, err, cq')
    \<and> queued ops content reclen pad (if st = 0 \<or> st = 1 then rest @ [bb] else rest) (ce\<lparr>ce_cq := Ptr cq'\<rparr>)"
proof -
  obtain cq q where cq: "ce_cq ce = Ptr cq" "nbspq (cq_qt cq) = [q]" "queue_ok ops content reclen pad q"
    "content (dbp q) = map (\<lambda>bb. padded reclen pad (envelope bb)) rest"
    using q by (auto simp: queued_def)
  obtain st err q' where r: "queue_snd ops (softlimit (cq_qt cq)) (hardlimit (cq_qt cq)) (envelope bb) q = (st, err, q')"
    by (metis prod_cases3)
  then have v: "snd_view ops (softlimit (cq_qt cq)) (hardlimit (cq_qt cq)) (envelope bb) q = (st, q')" by (simp add: snd_view_def)
  show ?thesis
    using nq.snd_law [OF cq(3) v] cq r by (auto simp: queued_def connqueue_snd_queue [OF cq(2)])
qed

text \<open>The database can always be emptied: otherwise the last record taken would be lost.\<close>

definition truncates :: "'db dbops \<Rightarrow> bool" where
  "truncates ops \<longleftrightarrow> (\<forall>d. fst (db_truncate ops d) = 0)"

lemma queue_rcv_data:
  assumes "truncates ops" "queue_rcv ops ms tv [] room mem_ok q = (st, err, data, q')"
  shows "st = 0 \<longleftrightarrow> data \<noteq> None"
proof -
  have "fst (db_truncate ops d) = 0" for d using assms(1) by (simp add: truncates_def)
  then show ?thesis
    using assms(2) by (auto simp: queue_rcv_def qdb_rcv_def Let_def case_prod_unfold split: if_splits)
qed

lemma queued_rcv:
  assumes q: "queued ops content reclen pad rest ce" and t: "truncates ops"
  shows "\<exists>cq st err data cq'. ce_cq ce = Ptr cq \<and> connqueue_rcv ops ms tv [] cq = Some (st, err, data, cq')
    \<and> (data = None \<and> queued ops content reclen pad rest (ce\<lparr>ce_cq := Ptr cq'\<rparr>)
       \<or> (\<exists>bb rest'. rest = bb # rest' \<and> data = Some (padded reclen pad (envelope bb))
            \<and> queued ops content reclen pad rest' (ce\<lparr>ce_cq := Ptr cq'\<rparr>)))"
proof -
  obtain cq q where cq: "ce_cq ce = Ptr cq" "nbspq (cq_qt cq) = [q]" "queue_ok ops content reclen pad q"
    "content (dbp q) = map (\<lambda>bb. padded reclen pad (envelope bb)) rest"
    using q by (auto simp: queued_def)
  obtain st err data q' where r: "queue_rcv ops ms tv [] (Some (data_size_max cq)) True q = (st, err, data, q')"
    by (metis prod_cases4)
  then have v: "rcv_view ops ms tv (Some (data_size_max cq)) True q = (data, q')" by (simp add: rcv_view_def)
  note law = nq.rcv_law [OF cq(3) v] and d = queue_rcv_data [OF t r]
  define cq' where "cq' = cq\<lparr>cq_qt := (cq_qt cq)\<lparr>nbspq := [q']\<rparr>,
      data_size_max := (case data of Some d \<Rightarrow> if st = 0 then max (data_size_max cq) (length d) else data_size_max cq
                                   | None \<Rightarrow> data_size_max cq)\<rparr>"
  have c: "connqueue_rcv ops ms tv [] cq =
      Some (st, (case err of None \<Rightarrow> 0 | Some e \<Rightarrow> e), data, cq')"
    using r d cq(2) by (auto simp: connqueue_rcv_def nbspqt_rcv_def cq'_def)
  have s: "queued ops content reclen pad rest' (ce\<lparr>ce_cq := Ptr cq'\<rparr>)"
    if "content (dbp q') = map (\<lambda>bb. padded reclen pad (envelope bb)) rest'" for rest'
    using law that by (simp add: queued_def cq'_def)
  show ?thesis
  proof (cases data)
    case None
    with law cq(4) s [of rest] c cq(1) show ?thesis by auto
  next
    case (Some x)
    with law cq(4) obtain bb rest' where "rest = bb # rest'" "x = padded reclen pad (envelope bb)"
      "content (dbp q') = map (\<lambda>bb. padded reclen pad (envelope bb)) rest'"
      by (cases rest) auto
    with Some s c cq(1) show ?thesis by auto
  qed
qed

text \<open>
  One turn: nothing is sent and the queue is the same; or its first packet is sent, whole, or
  in part and then the thread is to exit.
\<close>

lemma unpack_padded: "length bb < 2 ^ 32 \<Longrightarrow> unat (unpack_uint32 (padded n pad (envelope bb)) 0) = length bb"
proof -
  assume b: "length bb < 2 ^ 32"
  have "unpack_uint32 (padded n pad (envelope bb)) 0 = unpack_uint32 (envelope bb) 0"
    by (simp add: unpack_uint32_def padded_def nth_append)
  then show ?thesis using unat_unpack_envelope [OF b] by simp
qed

lemma take_padded: "take (length bb) (drop 4 (padded n pad (envelope bb))) = bb"
  by (simp add: padded_def)

lemma length_padded:
  "\<not> length (padded n pad (envelope bb)) < 4" "\<not> length (padded n pad (envelope bb)) - 4 < length bb"
  by (simp_all add: padded_def)

lemma client_turn_sends:
  assumes q: "queued ops content reclen pad rest ce" and t: "truncates ops" and l: "\<forall>bb \<in> set rest. length bb < 2 ^ 32"
  shows "\<exists>ce' c'. client_turn ops ms retry lf (f, now, tv, []) (ce, c) = Some (ce', c')
    \<and> (ch_out c' = ch_out c \<and> queued ops content reclen pad rest ce'
       \<or> (\<exists>bb rest'. rest = bb # rest' \<and> queued ops content reclen pad rest' ce'
            \<and> (ch_out c' = ch_out c @ bb \<or> f_exit ce' \<and> (\<exists>j. ch_out c' = ch_out c @ take j bb))))"
proof -
  obtain ce1 where p: "client_periodic f now lf ce = Some ce1" "queued ops content reclen pad rest ce1"
    using q by (auto simp: client_periodic_def queued_def conn_element_set_exit_flag_def conn_element_report_cstats_def)
  obtain cq st err data cq' where r: "ce_cq ce1 = Ptr cq" "connqueue_rcv ops ms tv [] cq = Some (st, err, data, cq')"
    and d: "data = None \<and> queued ops content reclen pad rest (ce1\<lparr>ce_cq := Ptr cq'\<rparr>)
       \<or> (\<exists>bb rest'. rest = bb # rest' \<and> data = Some (padded reclen pad (envelope bb))
            \<and> queued ops content reclen pad rest' (ce1\<lparr>ce_cq := Ptr cq'\<rparr>))"
    using queued_rcv [OF p(2) t, of ms tv] by blast
  define ce2 where "ce2 = ce1\<lparr>ce_cq := Ptr cq'\<rparr>"
  have turn: "client_turn ops ms retry lf (f, now, tv, []) (ce, c) = client_loop ops ms tv [] retry ce1 c"
    using p(1) by (simp add: client_turn_def)
  from d show ?thesis
  proof (elim disjE conjE exE)
    assume "data = None" "queued ops content reclen pad rest (ce1\<lparr>ce_cq := Ptr cq'\<rparr>)"
    then show ?thesis using turn r by (simp add: client_loop_def)
  next
    fix bb rest'
    assume b: "rest = bb # rest'" "data = Some (padded reclen pad (envelope bb))"
      "queued ops content reclen pad rest' (ce1\<lparr>ce_cq := Ptr cq'\<rparr>)"
    then have len: "unat (unpack_uint32 (padded reclen pad (envelope bb)) 0) = length bb" using l by (intro unpack_padded) simp
    obtain n c' where w: "writen bb retry c = (n, c')" by fastforce
    then obtain j where j: "j \<le> length bb" "ch_out c' = ch_out c @ take j bb" "n = -1 \<or> n = int j"
      using writem_loop_out [of bb retry 0 c n c'] by (auto simp: writen_def writem_def)
    have loop: "client_loop ops ms tv [] retry ce1 c =
        (case send_emwin_client retry bb ce2 c of (st, ce, c) \<Rightarrow>
           Some (if st \<noteq> 0 then ce\<lparr>ce_cs := conn_stats_update_errors (ce_cs ce)\<rparr> else ce, c))"
      using r b(2) len take_padded [of bb reclen pad] length_padded [of reclen pad bb]
      by (simp add: client_loop_def Let_def emwin_consts ce2_def)
    have q2: "queued ops content reclen pad rest' ce2" using b(3) by (simp add: ce2_def)
    show ?thesis
    proof (cases "n = int (length bb)")
      case True
      then have "ch_out c' = ch_out c @ bb" using j by auto
      with True w q2 b(1) show ?thesis unfolding turn loop by (simp add: send_emwin_client_def)
    next
      case False
      have "\<exists>ce'. client_loop ops ms tv [] retry ce1 c = Some (ce', c') \<and> queued ops content reclen pad rest' ce' \<and> f_exit ce'"
        unfolding loop using False w q2 by (simp add: send_emwin_client_def conn_element_set_exit_flag_def) (simp add: queued_def)
      with b(1) j(2) show ?thesis unfolding turn by blast
    qed
  qed
qed

text \<open>The bytes written so far and the packets still queued make up what the queue accepted.\<close>

lemma run_client_sends:
  assumes "queued ops content reclen pad rest ce" "truncates ops" "\<forall>bb \<in> set rest. length bb < 2 ^ 32"
    "\<forall>bb. Put bb \<in> set acts \<longrightarrow> length bb < 2 ^ 32"
  shows "\<exists>acc ce' c'. run_client ops ms retry lf acts (ce, c) = Some (acc, ce', c')
    \<and> (f_exit ce \<longrightarrow> ch_out c' = ch_out c)
    \<and> (\<exists>later. ch_out c @ concat (rest @ acc) = ch_out c' @ later)"
  using assms
proof (induction acts arbitrary: rest ce c)
  case Nil
  then show ?case by auto
next
  case (Cons act acts)
  show ?case
  proof (cases act)
    case (Put bb)
    obtain cq st err cq' where s: "ce_cq ce = Ptr cq" "connqueue_snd ops (envelope bb) cq = Some (st, err, cq')"
      "queued ops content reclen pad (if st = 0 \<or> st = 1 then rest @ [bb] else rest) (ce\<lparr>ce_cq := Ptr cq'\<rparr>)"
      using queued_snd [OF Cons.prems(1), of bb] by blast
    have l: "\<forall>b \<in> set (if st = 0 \<or> st = 1 then rest @ [bb] else rest). length b < 2 ^ 32"
      using Cons.prems(3,4) Put by auto
    obtain acc ce' c' later where r: "run_client ops ms retry lf acts (ce\<lparr>ce_cq := Ptr cq'\<rparr>, c) = Some (acc, ce', c')"
      "f_exit ce \<longrightarrow> ch_out c' = ch_out c"
      "ch_out c @ concat ((if st = 0 \<or> st = 1 then rest @ [bb] else rest) @ acc) = ch_out c' @ later"
      using Cons.IH [OF s(3) Cons.prems(2) l, of c] Cons.prems(4) by fastforce
    then show ?thesis using Put s by (auto split: if_splits)
  next
    case (Turn a)
    obtain f now tv where a: "a = (f, now, tv)" by (metis prod_cases3)
    have l: "\<forall>bb. Put bb \<in> set acts \<longrightarrow> length bb < 2 ^ 32" using Cons.prems(4) by simp
    show ?thesis
    proof (cases "f_exit ce")
      case True
      then show ?thesis using Cons.IH [OF Cons.prems(1-3) l, of c] Turn a by simp
    next
      case False
      obtain ce1 c1 where t: "client_turn ops ms retry lf (f, now, tv, []) (ce, c) = Some (ce1, c1)"
        and d: "ch_out c1 = ch_out c \<and> queued ops content reclen pad rest ce1
           \<or> (\<exists>bb rest'. rest = bb # rest' \<and> queued ops content reclen pad rest' ce1
                \<and> (ch_out c1 = ch_out c @ bb \<or> f_exit ce1 \<and> (\<exists>j. ch_out c1 = ch_out c @ take j bb)))"
        using client_turn_sends [OF Cons.prems(1-3), of ms retry lf f now tv c] by blast
      have run: "run_client ops ms retry lf (act # acts) (ce, c) = run_client ops ms retry lf acts (ce1, c1)"
        using False t Turn a by simp
      from d show ?thesis
      proof (elim disjE exE conjE)
        assume "ch_out c1 = ch_out c" "queued ops content reclen pad rest ce1"
        then show ?thesis
          using Cons.IH [OF _ Cons.prems(2,3) l, of ce1 c1] False unfolding run by auto
      next
        fix bb rest'
        assume b: "rest = bb # rest'" "queued ops content reclen pad rest' ce1" "ch_out c1 = ch_out c @ bb"
        then show ?thesis
          using Cons.IH [OF b(2) Cons.prems(2) _ l, of c1] Cons.prems(3) False unfolding run by auto
      next
        fix bb rest' j
        assume b: "rest = bb # rest'" "queued ops content reclen pad rest' ce1" "f_exit ce1" "ch_out c1 = ch_out c @ take j bb"
        then obtain acc ce' c' where r: "run_client ops ms retry lf acts (ce1, c1) = Some (acc, ce', c')" "ch_out c' = ch_out c1"
          using Cons.IH [OF b(2) Cons.prems(2) _ l, of c1] Cons.prems(3) by auto
        have "ch_out c @ concat (rest @ acc) = ch_out c' @ drop j bb @ concat (rest' @ acc)"
        proof -
          have "take j bb @ drop j bb @ x = bb @ x" for x by (metis append_assoc append_take_drop_id)
          then show ?thesis using b r(2) by simp
        qed
        with r(1) False show ?thesis unfolding run by blast
      qed
    qed
  qed
qed

text \<open>
  C4. A client receives a prefix of the stream of the packets its queue accepted: however the
  main thread and the thread of the client take turns, whatever the database, the clock and the
  connection do, no byte is lost, repeated or out of order, and after an incomplete write
  nothing more is written to the client. The thread never reads beyond a record. (The database
  must be able to discard its records when the queue is empty.)
\<close>

theorem client_receives_prefix:
  assumes "queued ops content reclen pad [] ce" "truncates ops" "\<forall>bb. Put bb \<in> set acts \<longrightarrow> length bb < 2 ^ 32"
    and "ch_out c = []"
  shows "\<exists>acc ce' c'. run_client ops ms retry lf acts (ce, c) = Some (acc, ce', c') \<and> (\<exists>later. concat acc = ch_out c' @ later)"
  using run_client_sends [OF assms(1,2) _ assms(3), of ms retry lf c] assms(4) by auto

theorem client_receives_prefix_witness:
  "\<exists>acc ce' c'. run_client list_db 0 0 10 [Put [9], Turn (True, 0, (0, 0)), Put [8], Turn (True, 0, (0, 0))]
       (client0, \<lparr>ch_rx = [], ch_tx = [Tx_room 9, Tx_writeerr], ch_intr = [], ch_out = []\<rparr>) = Some (acc, ce', c')
     \<and> (\<exists>later. concat acc = ch_out c' @ later)"
proof -
  have "queued list_db id 8 32 [] client0"
    using queue0_ok by (simp add: queued_def client0_def) (simp add: queue0_def)
  moreover have "truncates list_db" by (simp add: truncates_def list_db_def)
  ultimately show ?thesis
    using client_receives_prefix [where acts = "[Put [9], Turn (True, 0, (0, 0)), Put [8], Turn (True, 0, (0, 0))]"
        and c = "\<lparr>ch_rx = [], ch_tx = [Tx_room 9, Tx_writeerr], ch_intr = [], ch_out = []\<rparr>" and ms = 0 and retry = 0 and lf = 10]
    by simp
qed

end
