(* ===== verification/Delivery.thy ===== *)
theory Delivery
  imports Server
begin

text \<open>
  That a client gets everything: when the database works and the peer reads on, the thread of a
  client (\<open>src/serverc.c\<close>) writes every packet its queue accepted and stays alive. The safety
  half, that a client never gets anything else, is \<open>client_receives_prefix\<close> of the theory
  \<open>Server\<close>, whose runs of the two threads are used here.
\<close>

section \<open>The flag of a database error\<close>

lemma test_dberror_bit: "test_qdb_status_flag QDB_FSTATUS_DBERROR q = bit (f_qdb_status q) 2"
proof -
  have "(4 :: u32) = 2 ^ 2" by simp
  then show ?thesis
    unfolding test_qdb_status_flag_def QDB_FSTATUS_DBERROR_def by (metis and_exp_eq_0_iff_not_bit)
qed

lemma dberror_set_flag [simp]:
  "test_qdb_status_flag QDB_FSTATUS_DBERROR (set_qdb_status_flag QDB_FSTATUS_MAX_SOFT b q) = test_qdb_status_flag QDB_FSTATUS_DBERROR q"
  "test_qdb_status_flag QDB_FSTATUS_DBERROR (set_qdb_status_flag QDB_FSTATUS_MAX_HARD b q) = test_qdb_status_flag QDB_FSTATUS_DBERROR q"
  "\<not> test_qdb_status_flag QDB_FSTATUS_DBERROR (set_qdb_status_flag QDB_FSTATUS_DBERROR False q)"
  unfolding test_dberror_bit
  by (auto simp: set_qdb_status_flag_def qdb_flags bit_simps)

text \<open>Sending without an error of the database does not raise the flag.\<close>

lemma queue_snd_dberror:
  assumes "queue_snd ops soft hard data q = (s, err, q')" "s \<noteq> -1" "\<not> test_qdb_status_flag QDB_FSTATUS_DBERROR q"
  shows "\<not> test_qdb_status_flag QDB_FSTATUS_DBERROR q'"
  using assms
  by (auto simp: queue_snd_def qdb_snd_def Let_def split: prod.splits if_splits)

section \<open>One client\<close>

text \<open>
  A database that works: it takes a record that fits while it holds fewer than \<open>cap\<close> of them,
  knows its record length, and gives a record when it has one.
\<close>

definition reliable_db :: "'db dbops \<Rightarrow> ('db \<Rightarrow> byte list list) \<Rightarrow> nat \<Rightarrow> nat \<Rightarrow> bool" where
  "reliable_db ops content reclen cap \<longleftrightarrow>
     (\<forall>d bs. length bs \<le> reclen \<and> length (content d) < cap \<longrightarrow> fst (db_put ops bs d) = 0)
     \<and> (\<forall>d. db_get_re_len ops d = (0, reclen))
     \<and> (\<forall>d. content d \<noteq> [] \<longrightarrow> fst (db_consume ops d) = 0) \<and> truncates ops"

text \<open>
  The queue of the element has no hard limit, as \<open>spawn_client_threads\<close> opens it, and holds the
  packets \<open>rest\<close>, its buffer holds a record, and no error is flagged.
\<close>

definition ready ::
  "'db dbops \<Rightarrow> ('db \<Rightarrow> byte list list) \<Rightarrow> nat \<Rightarrow> byte \<Rightarrow> byte list list \<Rightarrow> 'db conn_element_st \<Rightarrow> bool" where
  "ready ops content reclen pad rest ce \<longleftrightarrow>
     (\<exists>cq q. ce_cq ce = Ptr cq \<and> nbspq (cq_qt cq) = [q] \<and> queue_ok ops content reclen pad q
        \<and> content (dbp q) = map (\<lambda>bb. padded reclen pad (envelope bb)) rest
        \<and> reclen \<le> data_size_max cq \<and> hardlimit (cq_qt cq) \<le> 0 \<and> \<not> test_qdb_status_flag QDB_FSTATUS_DBERROR q)"

lemma ready_cs [simp]: "ready ops content reclen pad rest (ce\<lparr>ce_cs := x\<rparr>) = ready ops content reclen pad rest ce"
  by (simp add: ready_def)

lemma ready_snd:
  assumes r: "ready ops content reclen pad rest ce" and db: "reliable_db ops content reclen cap"
    and l: "length (envelope bb) \<le> reclen" "length rest < cap"
  shows "\<exists>cq st err cq'. ce_cq ce = Ptr cq \<and> connqueue_snd ops (envelope bb) cq = Some (st, err, cq')
    \<and> (st = 0 \<or> st = 1) \<and> ready ops content reclen pad (rest @ [bb]) (ce\<lparr>ce_cq := Ptr cq'\<rparr>)"
proof -
  obtain cq q where cq: "ce_cq ce = Ptr cq" "nbspq (cq_qt cq) = [q]" "queue_ok ops content reclen pad q"
    "content (dbp q) = map (\<lambda>bb. padded reclen pad (envelope bb)) rest" "reclen \<le> data_size_max cq"
    "\<not> test_qdb_status_flag QDB_FSTATUS_DBERROR q" "hardlimit (cq_qt cq) \<le> 0"
    using r by (auto simp: ready_def)
  obtain st err q' where s: "queue_snd ops (softlimit (cq_qt cq)) (hardlimit (cq_qt cq)) (envelope bb) q = (st, err, q')"
    by (metis prod_cases3)
  then have v: "snd_view ops (softlimit (cq_qt cq)) (hardlimit (cq_qt cq)) (envelope bb) q = (st, q')" by (simp add: snd_view_def)
  have "fst (db_put ops (envelope bb) (dbp q)) = 0" using db l cq(4) by (simp add: reliable_db_def)
  then have st: "st = 0 \<or> st = 1" using queue_snd_cases [OF cq(3) s] cq(7) by (auto split: if_splits)
  then have "\<not> test_qdb_status_flag QDB_FSTATUS_DBERROR q'" using queue_snd_dberror [OF s] cq(6) by auto
  then show ?thesis
    using nq.snd_law [OF cq(3) v] cq s st by (auto simp: ready_def connqueue_snd_queue [OF cq(2)])
qed

lemma ready_rcv:
  assumes r: "ready ops content reclen pad rest ce" and db: "reliable_db ops content reclen cap"
  shows "\<exists>cq st err cq'. ce_cq ce = Ptr cq
    \<and> connqueue_rcv ops ms tv [] cq =
        Some (st, err, (if rest = [] then None else Some (padded reclen pad (envelope (hd rest)))), cq')
    \<and> ready ops content reclen pad (tl rest) (ce\<lparr>ce_cq := Ptr cq'\<rparr>)"
proof -
  obtain cq q where cq: "ce_cq ce = Ptr cq" "nbspq (cq_qt cq) = [q]" "queue_ok ops content reclen pad q"
    "content (dbp q) = map (\<lambda>bb. padded reclen pad (envelope bb)) rest" "reclen \<le> data_size_max cq"
    "\<not> test_qdb_status_flag QDB_FSTATUS_DBERROR q" "hardlimit (cq_qt cq) \<le> 0"
    using r by (auto simp: ready_def)
  obtain st err data q' where s: "queue_rcv ops ms tv [] (Some (data_size_max cq)) True q = (st, err, data, q')"
    by (metis prod_cases4)
  then have v: "rcv_view ops ms tv (Some (data_size_max cq)) True q = (data, q')" by (simp add: rcv_view_def)
  have n: "q_count q = 0 \<longleftrightarrow> rest = []"
  proof -
    have "unat (q_count q) = length rest" using cq(3,4) by (simp add: queue_ok_def unat_of_nat take_bit_nat_eq_self)
    then show ?thesis by (auto simp: unat_eq_0)
  qed
  have "data = None \<longleftrightarrow> rest = []" and flag: "f_qdb_status q' = f_qdb_status q"
    using s n cq(4,5) db
    by (auto simp: queue_rcv_def qdb_rcv_def Let_def reliable_db_def case_prod_unfold split: if_splits)
  moreover have "st = 0 \<longleftrightarrow> data \<noteq> None" using queue_rcv_data [OF _ s] db by (simp add: reliable_db_def)
  ultimately have c: "connqueue_rcv ops ms tv [] cq = Some (st, (case err of None \<Rightarrow> 0 | Some e \<Rightarrow> e), data,
      cq\<lparr>cq_qt := (cq_qt cq)\<lparr>nbspq := [q']\<rparr>,
         data_size_max := (case data of Some d \<Rightarrow> max (data_size_max cq) (length d) | None \<Rightarrow> data_size_max cq)\<rparr>)"
    using s cq(2) by (auto simp: connqueue_rcv_def nbspqt_rcv_def split: option.splits)
  have f: "\<not> test_qdb_status_flag QDB_FSTATUS_DBERROR q'" using flag cq(6) by (simp add: test_qdb_status_flag_def)
  show ?thesis
    using nq.rcv_law [OF cq(3) v] c cq(1,4,5,7) f \<open>data = None \<longleftrightarrow> rest = []\<close>
    by (cases rest; cases data) (auto simp: ready_def max.coboundedI1)
qed

text \<open>A turn of the thread writes the first packet, if there is one.\<close>

lemma client_turn_ready:
  assumes r: "ready ops content reclen pad rest ce" "\<not> f_exit ce" and db: "reliable_db ops content reclen cap"
    and l: "\<forall>bb \<in> set rest. length bb < 2 ^ 32" and t: "taking retry (length (concat rest) + n) c"
  shows "\<exists>ce' c'. client_turn ops ms retry lf (f, now, tv, []) (ce, c) = Some (ce', c') \<and> \<not> f_exit ce'
    \<and> ready ops content reclen pad (tl rest) ce' \<and> taking retry (length (concat (tl rest)) + n) c'
    \<and> ch_out c' @ concat (tl rest) = ch_out c @ concat rest"
proof -
  obtain ce1 where p: "client_periodic f now lf ce = Some ce1" "ready ops content reclen pad rest ce1" "\<not> f_exit ce1"
    using r by (auto simp: client_periodic_def ready_def connqueue_test_dberror_flag_def nbspqt_test_qdb_status_flag_def
        conn_element_report_cstats_def)
  obtain cq st err cq' where q: "ce_cq ce1 = Ptr cq"
      "connqueue_rcv ops ms tv [] cq =
        Some (st, err, (if rest = [] then None else Some (padded reclen pad (envelope (hd rest)))), cq')"
      "ready ops content reclen pad (tl rest) (ce1\<lparr>ce_cq := Ptr cq'\<rparr>)"
    using ready_rcv [OF p(2) db, of ms tv] by blast
  have turn: "client_turn ops ms retry lf (f, now, tv, []) (ce, c) = client_loop ops ms tv [] retry ce1 c"
    using p(1) by (simp add: client_turn_def)
  show ?thesis
  proof (cases rest)
    case Nil
    then show ?thesis using turn q p(3) t by (simp add: client_loop_def)
  next
    case (Cons bb rest')
    then have len: "unat (unpack_uint32 (padded reclen pad (envelope bb)) 0) = length bb" using l by (intro unpack_padded) simp
    obtain c' where w: "writen bb retry c = (int (length bb), c')" "taking retry (length (concat rest') + n) c'" "ch_out c' = ch_out c @ bb"
      using writen_taking [of retry bb "length (concat rest') + n" c] t Cons by (auto simp: add.assoc)
    have "client_loop ops ms tv [] retry ce1 c =
        Some (ce1\<lparr>ce_cq := Ptr cq', ce_cs := conn_stats_update_packets (length bb) (ce_cs ce1)\<rparr>, c')"
      using q(1,2) Cons len w(1) take_padded [of bb reclen pad] length_padded [of reclen pad bb]
      by (simp add: client_loop_def Let_def emwin_consts send_emwin_client_def)
    then show ?thesis using turn q(3) w p(3) Cons by (simp add: ready_def)
  qed
qed

section \<open>Runs of the two threads\<close>

definition puts :: "client_act list \<Rightarrow> byte list list" where
  "puts acts = concat (map (\<lambda>a. case a of Put bb \<Rightarrow> [bb] | Turn _ \<Rightarrow> []) acts)"

lemma puts_simps [simp]:
  "puts [] = []" "puts (Put bb # acts) = bb # puts acts" "puts (Turn t # acts) = puts acts"
  by (simp_all add: puts_def)

lemma tl_set: "x \<in> set (tl xs) \<Longrightarrow> x \<in> set xs"
  by (cases xs) simp_all

lemma short_record: "(reclen :: nat) < 2 ^ 32 \<Longrightarrow> n + 4 \<le> reclen \<Longrightarrow> n < 2 ^ 32"
  by linarith

lemma run_client_append:
  "run_client ops ms retry lf (acts @ acts') s =
     Option.bind (run_client ops ms retry lf acts s) (\<lambda>(acc, s).
       map_option (\<lambda>(acc', s). (acc @ acc', s)) (run_client ops ms retry lf acts' s))"
proof (induction acts arbitrary: s)
  case Nil
  then show ?case by (cases "run_client ops ms retry lf acts' s") auto
next
  case (Cons a acts)
  show ?case
  proof (cases a)
    case (Put bb)
    show ?thesis
    proof (cases "ce_cq (fst s)")
      case (Ptr cq)
      show ?thesis
      proof (cases "connqueue_snd ops (envelope bb) cq")
        case (Some r)
        obtain st err cq' where r: "r = (st, err, cq')" by (metis prod_cases3)
        let ?s = "((fst s)\<lparr>ce_cq := Ptr cq'\<rparr>, snd s)"
        show ?thesis
          using Put Ptr Some r Cons.IH [of ?s]
          by (cases "run_client ops ms retry lf acts ?s")
             (auto simp: option.map_comp comp_def case_prod_unfold)
      qed (simp add: Put Ptr)
    qed (simp_all add: Put)
  next
    case (Turn t)
    then show ?thesis by (cases t) (auto simp: Cons.IH split: bind_splits)
  qed
qed

text \<open>Every packet has been written or is still in the queue, and the thread lives.\<close>

lemma run_client_ready:
  assumes "ready ops content reclen pad rest ce" "\<not> f_exit ce" "reliable_db ops content reclen cap" "reclen < 2 ^ 32"
    and "\<forall>bb \<in> set (rest @ puts acts). length bb + 4 \<le> reclen" "length rest + length (puts acts) \<le> cap"
    and "taking retry (length (concat (rest @ puts acts)) + n) c"
  shows "\<exists>rest' ce' c'. run_client ops ms retry lf acts (ce, c) = Some (puts acts, ce', c') \<and> \<not> f_exit ce'
    \<and> ready ops content reclen pad rest' ce' \<and> taking retry (length (concat rest') + n) c'
    \<and> ch_out c' @ concat rest' = ch_out c @ concat (rest @ puts acts)
    \<and> (\<forall>bb \<in> set rest'. length bb + 4 \<le> reclen) \<and> length rest' \<le> length rest + length (puts acts)"
  using assms
proof (induction acts arbitrary: rest ce c)
  case Nil
  then show ?case by auto
next
  case (Cons a acts)
  show ?case
  proof (cases a)
    case (Put bb)
    obtain cq st err cq' where s: "ce_cq ce = Ptr cq" "connqueue_snd ops (envelope bb) cq = Some (st, err, cq')"
      "st = 0 \<or> st = 1" "ready ops content reclen pad (rest @ [bb]) (ce\<lparr>ce_cq := Ptr cq'\<rparr>)"
      using ready_snd [OF Cons.prems(1,3), of bb] Cons.prems(5,6) Put by auto
    have p: "\<forall>b \<in> set ((rest @ [bb]) @ puts acts). length b + 4 \<le> reclen" "length (rest @ [bb]) + length (puts acts) \<le> cap"
      "taking retry (length (concat ((rest @ [bb]) @ puts acts)) + n) c" "\<not> f_exit (ce\<lparr>ce_cq := Ptr cq'\<rparr>)"
      using Cons.prems(2,5-7) Put by (auto simp: add.assoc)
    obtain rest' ce' c' where r: "run_client ops ms retry lf acts (ce\<lparr>ce_cq := Ptr cq'\<rparr>, c) = Some (puts acts, ce', c')"
      "\<not> f_exit ce'" "ready ops content reclen pad rest' ce'" "taking retry (length (concat rest') + n) c'"
      "ch_out c' @ concat rest' = ch_out c @ concat ((rest @ [bb]) @ puts acts)" "\<forall>bb \<in> set rest'. length bb + 4 \<le> reclen"
      "length rest' \<le> length (rest @ [bb]) + length (puts acts)"
      using Cons.IH [OF s(4) p(4) Cons.prems(3,4) p(1-3)] by blast
    have "run_client ops ms retry lf (a # acts) (ce, c) = Some (puts (a # acts), ce', c')" using Put s(1-3) r(1) by auto
    then show ?thesis using r(2-7) Put by auto
  next
    case (Turn t)
    obtain f now tv where t: "t = (f, now, tv)" by (metis prod_cases3)
    have l: "\<forall>bb \<in> set rest. length bb < 2 ^ 32"
      using short_record [OF Cons.prems(4)] Cons.prems(5) by simp
    have tk: "taking retry (length (concat rest) + (length (concat (puts acts)) + n)) c" using Cons.prems(7) Turn by (simp add: add.assoc)
    obtain ce1 c1 where u: "client_turn ops ms retry lf (f, now, tv, []) (ce, c) = Some (ce1, c1)" "\<not> f_exit ce1"
      "ready ops content reclen pad (tl rest) ce1" "taking retry (length (concat (tl rest)) + (length (concat (puts acts)) + n)) c1"
      "ch_out c1 @ concat (tl rest) = ch_out c @ concat rest"
      using client_turn_ready [OF Cons.prems(1-3) l tk] by blast
    have p: "\<forall>bb \<in> set (tl rest @ puts acts). length bb + 4 \<le> reclen" "length (tl rest) + length (puts acts) \<le> cap"
      "taking retry (length (concat (tl rest @ puts acts)) + n) c1"
      using Cons.prems(5,6) u(4) Turn by (auto simp: add.assoc dest: tl_set)
    obtain rest' ce' c' where r: "run_client ops ms retry lf acts (ce1, c1) = Some (puts acts, ce', c')" "\<not> f_exit ce'"
      "ready ops content reclen pad rest' ce'" "taking retry (length (concat rest') + n) c'"
      "ch_out c' @ concat rest' = ch_out c1 @ concat (tl rest @ puts acts)" "\<forall>bb \<in> set rest'. length bb + 4 \<le> reclen"
      "length rest' \<le> length (tl rest) + length (puts acts)"
      using Cons.IH [OF u(3,2) Cons.prems(3,4) p] by blast
    have "run_client ops ms retry lf (a # acts) (ce, c) = Some (puts (a # acts), ce', c')" using Turn t u(1) r(1) Cons.prems(2) by simp
    moreover have "ch_out c' @ concat rest' = ch_out c @ concat (rest @ puts (a # acts))"
      using arg_cong [OF u(5), of "\<lambda>x. x @ concat (puts acts)"] r(5) Turn by simp
    ultimately show ?thesis using r(2-4,6,7) Turn by fastforce
  qed
qed

text \<open>Turns without further packets empty the queue.\<close>

lemma run_turns_ready:
  assumes "ready ops content reclen pad rest ce" "\<not> f_exit ce" "reliable_db ops content reclen cap" "reclen < 2 ^ 32"
    and "\<forall>bb \<in> set rest. length bb + 4 \<le> reclen" "taking retry (length (concat rest) + n) c"
  shows "\<exists>ce' c'. run_client ops ms retry lf (map Turn ts) (ce, c) = Some ([], ce', c') \<and> \<not> f_exit ce'
    \<and> ready ops content reclen pad (drop (length ts) rest) ce'
    \<and> ch_out c' @ concat (drop (length ts) rest) = ch_out c @ concat rest"
  using assms
proof (induction ts arbitrary: rest ce c)
  case Nil
  then show ?case by auto
next
  case (Cons t ts)
  obtain f now tv where t: "t = (f, now, tv)" by (metis prod_cases3)
  have l: "\<forall>bb \<in> set rest. length bb < 2 ^ 32" using short_record [OF Cons.prems(4)] Cons.prems(5) by blast
  obtain ce1 c1 where u: "client_turn ops ms retry lf (f, now, tv, []) (ce, c) = Some (ce1, c1)" "\<not> f_exit ce1"
    "ready ops content reclen pad (tl rest) ce1" "taking retry (length (concat (tl rest)) + n) c1"
    "ch_out c1 @ concat (tl rest) = ch_out c @ concat rest"
    using client_turn_ready [OF Cons.prems(1-3) l Cons.prems(6)] by blast
  have "\<forall>bb \<in> set (tl rest). length bb + 4 \<le> reclen" using Cons.prems(5) by (auto dest: tl_set)
  from Cons.IH [OF u(3,2) Cons.prems(3,4) this u(4)]
  obtain ce' c' where "run_client ops ms retry lf (map Turn ts) (ce1, c1) = Some ([], ce', c')" "\<not> f_exit ce'"
    "ready ops content reclen pad (drop (length ts) (tl rest)) ce'"
    "ch_out c' @ concat (drop (length ts) (tl rest)) = ch_out c1 @ concat (tl rest)"
    by blast
  then show ?case using t u(1,5) Cons.prems(2) by (simp add: drop_Suc)
qed

lemma run_client_all:
  assumes "ready ops content reclen pad [] ce" "\<not> f_exit ce" "reliable_db ops content reclen cap" "reclen < 2 ^ 32"
    and "\<forall>bb \<in> set (puts acts). length bb + 4 \<le> reclen" "length (puts acts) \<le> cap"
    and "taking retry (length (concat (puts acts))) c" "length (puts acts) \<le> length ts"
  shows "\<exists>ce' c'. run_client ops ms retry lf (acts @ map Turn ts) (ce, c) = Some (puts acts, ce', c')
    \<and> ch_out c' = ch_out c @ concat (puts acts) \<and> ready ops content reclen pad [] ce' \<and> \<not> f_exit ce'"
proof -
  obtain rest ce1 c1 where r: "run_client ops ms retry lf acts (ce, c) = Some (puts acts, ce1, c1)" "\<not> f_exit ce1"
    "ready ops content reclen pad rest ce1" "taking retry (length (concat rest) + 0) c1"
    "ch_out c1 @ concat rest = ch_out c @ concat (puts acts)" "\<forall>bb \<in> set rest. length bb + 4 \<le> reclen"
    "length rest \<le> length (puts acts)"
    using run_client_ready [OF assms(1-4), of acts retry 0 c ms lf] assms(5-7) by auto
  obtain ce' c' where t: "run_client ops ms retry lf (map Turn ts) (ce1, c1) = Some ([], ce', c')" "\<not> f_exit ce'"
    "ready ops content reclen pad (drop (length ts) rest) ce'"
    "ch_out c' @ concat (drop (length ts) rest) = ch_out c1 @ concat rest"
    using run_turns_ready [OF r(3,2) assms(3,4) r(6,4)] by blast
  have "drop (length ts) rest = []" using r(7) assms(8) by simp
  with r t show ?thesis by (auto simp: run_client_append)
qed

text \<open>
  C7. A client gets everything: if the database works, the client keeps reading and the packets
  fit the records of its queue, then after any interleaving of the main thread and the thread of
  the client, as many more turns of that thread as there were packets deliver every one of them,
  in order and whole; the queue is empty and the thread has not given up.
\<close>

theorem client_receives_all:
  assumes "ready ops content reclen pad [] ce" "\<not> f_exit ce" "reliable_db ops content reclen cap" "reclen < 2 ^ 32"
    and "\<forall>bb \<in> set (puts acts). length bb + 4 \<le> reclen" "length (puts acts) \<le> cap"
    and "taking retry (length (concat (puts acts))) c" "length (puts acts) \<le> length ts"
  shows "\<exists>ce' c'. run_client ops ms retry lf (acts @ map Turn ts) (ce, c) = Some (puts acts, ce', c')
    \<and> ch_out c' = ch_out c @ concat (puts acts) \<and> ready ops content reclen pad [] ce' \<and> \<not> f_exit ce'"
  by (rule run_client_all [OF assms])

text \<open>A client whose queue is empty.\<close>

lemma client0_ready: "ready list_db id 8 32 [] client0" "\<not> f_exit client0"
  using queue0_ok by (simp add: ready_def client0_def) (simp_all add: queue0_def test_qdb_status_flag_def client0_def conn_element_init1_def)

lemma list_db_reliable: "reliable_db list_db id 8 (2 ^ 31 - 1)"
  by (auto simp: reliable_db_def list_db_def truncates_def split: list.splits)

theorem client_receives_all_witness:
  "\<exists>ce' c'. run_client list_db 0 0 10 ([Put [9], Put [8]] @ map Turn [(True, 0, (0, 0)), (True, 0, (0, 0))])
       (client0, \<lparr>ch_rx = [], ch_tx = [Tx_room 9, Tx_room 1], ch_intr = [], ch_out = []\<rparr>) = Some ([[9], [8]], ce', c')
     \<and> ch_out c' = [9, 8]"
  using client_receives_all [where acts = "[Put [9], Put [8]]" and ts = "[(True, 0, (0, 0)), (True, 0, (0, 0))]"
      and c = "\<lparr>ch_rx = [], ch_tx = [Tx_room 9, Tx_room 1], ch_intr = [], ch_out = []\<rparr>" and ms = 0 and retry = 0 and lf = 10,
      OF client0_ready list_db_reliable]
  by (fastforce simp: taking_def)

end
