(* ===== verification/Tsv.thy ===== *)
theory Tsv
  imports Npemwin_Prelude
begin

text \<open>
  \<open>src/tsv.c\<close>: reading a file line by line and splitting a line at white space. The file is
  the list of its bytes; \<open>io_err\<close> says that the end of file is in fact a read error. Memory
  is always available; the size of the line buffer is kept, so that the stores into it can be
  shown to stay inside.
\<close>

definition CHUNK :: nat where "CHUNK = 8192"

record tsv_st =
  tsv_error :: int
  tsv_argc :: nat
  tsv_argv :: "byte list list"
  tsv_line :: "byte list option"
  tsv_linesize :: nat

definition tsv_init :: tsv_st where
  "tsv_init = \<lparr>tsv_error = 0, tsv_argc = 0, tsv_argv = [], tsv_line = None, tsv_linesize = 0\<rparr>"

definition tsvrelease :: "tsv_st \<Rightarrow> tsv_st" where
  "tsvrelease st = tsv_init"

definition tsvargv :: "tsv_st \<Rightarrow> nat \<Rightarrow> byte list option" where
  "tsvargv st n = (if n < tsv_argc st then Some (tsv_argv st ! n) else None)"

section \<open>Splitting a line\<close>

function splitcount_loop :: "nat \<Rightarrow> byte list \<Rightarrow> nat" where
  "splitcount_loop n [] = n"
| "splitcount_loop n (c # cs) =
     (if isspace c then splitcount_loop n (dropWhile isspace cs)
      else splitcount_loop (n + 1) (dropWhile (\<lambda>c. \<not> isspace c) cs))"
  by pat_completeness auto
termination
  by (relation "measure (\<lambda>(n, cs). length cs)") (auto simp: less_Suc_eq_le length_dropWhile_le)

definition splitcount :: "byte list \<Rightarrow> nat" where
  "splitcount s = splitcount_loop 0 s"

function bufsplit_loop :: "byte list list \<Rightarrow> byte list \<Rightarrow> byte list list" where
  "bufsplit_loop argv [] = argv"
| "bufsplit_loop argv (c # cs) =
     (if isspace c then bufsplit_loop argv (dropWhile isspace cs)
      else bufsplit_loop (argv @ [c # takeWhile (\<lambda>c. \<not> isspace c) cs]) (dropWhile (\<lambda>c. \<not> isspace c) cs))"
  by pat_completeness auto
termination
  by (relation "measure (\<lambda>(argv, cs). length cs)") (auto simp: less_Suc_eq_le length_dropWhile_le)

definition bufsplit :: "byte list \<Rightarrow> byte list list" where
  "bufsplit s = bufsplit_loop [] s"

section \<open>Reading a line\<close>

text \<open>
  What the system answers while a file is read: whether it ends with an error, whether the buffer
  of the line can be given a size, and whether there is memory for the copy of a line and for the
  vector of its fields; the last by the length of the rest of the file.
\<close>

record tsv_env =
  ts_ferror :: bool
  ts_buffer :: "nat \<Rightarrow> bool"
  ts_alloc :: "nat \<Rightarrow> bool \<times> bool"

definition ts_mem :: "'e tsv_env_scheme \<Rightarrow> bool" where
  "ts_mem e \<longleftrightarrow> (\<forall>n. ts_buffer e n) \<and> (\<forall>k. ts_alloc e k = (True, True))"

text \<open>The size a new or larger buffer has, which is recorded before it is known whether there is memory for it.\<close>

definition new_buffer :: "'e tsv_env_scheme \<Rightarrow> bool \<Rightarrow> nat \<Rightarrow> bool \<times> nat" where
  "new_buffer e old linesize =
     (let linesize = (if old then linesize + CHUNK else CHUNK) in (ts_buffer e linesize, linesize))"

text \<open>
  The loop of \<open>tsvreadline\<close>: the bytes stored so far, the size of the buffer, and the file.
  The result is the bytes (\<open>None\<close>: the buffer could not grow), the size, whether the loop ended at
  the end of the file, and the rest of the file.
\<close>

fun readline_loop ::
  "'e tsv_env_scheme \<Rightarrow> byte list \<Rightarrow> nat \<Rightarrow> byte list \<Rightarrow> byte list option \<times> nat \<times> bool \<times> byte list" where
  "readline_loop e buf linesize [] = (Some buf, linesize, True, [])"
| "readline_loop e buf linesize (c # file) =
     (if c = 10 then (Some buf, linesize, False, file)
      else
        let last = linesize - 1 in
        if length buf = last - 1 then
          (case new_buffer e True linesize of
             (ok, linesize) \<Rightarrow> if ok then readline_loop e (buf @ [c]) linesize file else (None, linesize, False, file))
        else readline_loop e (buf @ [c]) linesize file)"

definition tsvreadline ::
  "'e tsv_env_scheme \<Rightarrow> tsv_st \<Rightarrow> byte list \<Rightarrow> byte list option \<times> tsv_st \<times> byte list" where
  "tsvreadline e st file =
     (case (if tsv_line st = None then new_buffer e False (tsv_linesize st) else (True, tsv_linesize st)) of
        (ok, linesize) \<Rightarrow>
          let st = st\<lparr>tsv_linesize := linesize\<rparr> in
          if \<not> ok then (None, st, file)
          else case readline_loop e [] (tsv_linesize st) file of
              (None, linesize, eof, file) \<Rightarrow> (None, st\<lparr>tsv_linesize := linesize, tsv_error := 1\<rparr>, file)
            | (Some buf, linesize, eof, file) \<Rightarrow>
                let st = st\<lparr>tsv_linesize := linesize, tsv_error := (if eof \<and> ts_ferror e then 2 else tsv_error st)\<rparr>
                in (if eof \<and> buf = [] then None else Some buf, st, file))"

text \<open>
  The line is copied and split as a C string, that is, up to its first NUL. When there is an error
  the storage is released, and the line with it.
\<close>

definition tsvgetline ::
  "'e tsv_env_scheme \<Rightarrow> tsv_st \<Rightarrow> byte list \<Rightarrow> byte list option \<times> tsv_st \<times> byte list" where
  "tsvgetline e st file =
     (case tsvreadline e st file of
        (None, st, file) \<Rightarrow> (None, st\<lparr>tsv_line := None\<rparr>, file)
      | (Some line, st, file) \<Rightarrow>
          let (cpline_ok, argv_ok) = ts_alloc e (length file);
              st = st\<lparr>tsv_line := Some line, tsv_error := (if cpline_ok then tsv_error st else 1)\<rparr>;
              st = (if tsv_error st = 0
                    then st\<lparr>tsv_argc := splitcount (cstring line), tsv_error := (if argv_ok then 0 else 1)\<rparr> else st)
          in if tsv_error st = 0 then (Some line, st\<lparr>tsv_argv := bufsplit (cstring line)\<rparr>, file)
             else (None, tsvrelease st, file))"

section \<open>Correctness of the split\<close>

text \<open>The fields of a line: the maximal runs of bytes that are not white space.\<close>

function tsv_fields :: "byte list \<Rightarrow> byte list list" where
  "tsv_fields [] = []"
| "tsv_fields (c # cs) =
     (if isspace c then tsv_fields (dropWhile isspace cs)
      else (c # takeWhile (\<lambda>c. \<not> isspace c) cs) # tsv_fields (dropWhile (\<lambda>c. \<not> isspace c) cs))"
  by pat_completeness auto
termination
  by (relation "measure length") (auto simp: less_Suc_eq_le length_dropWhile_le)

lemma bufsplit_loop_fields: "bufsplit_loop argv s = argv @ tsv_fields s"
  by (induction argv s rule: bufsplit_loop.induct) simp_all

lemma splitcount_loop_fields: "splitcount_loop n s = n + length (tsv_fields s)"
  by (induction n s rule: splitcount_loop.induct) simp_all

lemma bufsplit_fields [simp]: "bufsplit s = tsv_fields s"
  by (simp add: bufsplit_def bufsplit_loop_fields)

lemma splitcount_fields [simp]: "splitcount s = length (tsv_fields s)"
  by (simp add: splitcount_def splitcount_loop_fields)

lemma filter_dropWhile_space: "filter (\<lambda>c. \<not> isspace c) (dropWhile isspace s) = filter (\<lambda>c. \<not> isspace c) s"
  by (induction s) auto

lemma filter_takeWhile_dropWhile: "takeWhile P s @ filter P (dropWhile P s) = filter P s"
  by (induction s) auto

lemma concat_fields: "concat (tsv_fields s) = filter (\<lambda>c. \<not> isspace c) s"
proof (induction s rule: tsv_fields.induct)
  case (2 c cs)
  then show ?case
    by (cases "isspace c") (simp_all add: filter_dropWhile_space filter_takeWhile_dropWhile)
qed simp

lemma fields_nonempty: "t \<in> set (tsv_fields s) \<Longrightarrow> t \<noteq> [] \<and> (\<forall>c \<in> set t. \<not> isspace c)"
proof (induction s rule: tsv_fields.induct)
  case (2 c cs)
  show ?case
  proof (cases "isspace c")
    case True
    with "2.prems" "2.IH"(1) [OF True] show ?thesis by simp
  next
    case False
    with "2.prems" consider "t = c # takeWhile (\<lambda>c. \<not> isspace c) cs" | "t \<in> set (tsv_fields (dropWhile (\<lambda>c. \<not> isspace c) cs))"
      by auto
    then show ?thesis
    proof cases
      case 1
      with False show ?thesis using set_takeWhileD by fastforce
    next
      case 2
      with "2.IH"(2) [OF False] show ?thesis .
    qed
  qed
qed simp

lemma fields_Cons_token:
  assumes "t \<noteq> []" "\<forall>c \<in> set t. \<not> isspace c"
  shows "tsv_fields (t @ 32 # s) = t # tsv_fields s"
proof -
  obtain c cs where t: "t = c # cs" using assms(1) by (cases t) auto
  have "takeWhile (\<lambda>c. \<not> isspace c) (cs @ 32 # s) = cs" "dropWhile (\<lambda>c. \<not> isspace c) (cs @ 32 # s) = 32 # s"
    using assms(2) t by (simp_all add: takeWhile_append dropWhile_append)
  moreover have "tsv_fields (32 # s) = tsv_fields s"
  proof (cases s)
    case (Cons d ds)
    then show ?thesis by (cases "isspace d") auto
  qed simp
  ultimately show ?thesis using assms(2) t by simp
qed

text \<open>
  The count that sizes the argument vector is the number of fields that are then stored
  in it, for every line, so that the stores stay inside and the assertion holds; the fields
  are not empty, hold no white space, and hold every other byte of the line, in order.
\<close>

theorem tsv_split:
  "splitcount s = length (bufsplit s)
   \<and> (\<forall>t. t \<in> set (bufsplit s) \<longrightarrow> t \<noteq> [] \<and> (\<forall>c. c \<in> set t \<longrightarrow> \<not> isspace c))
   \<and> concat (bufsplit s) = filter (\<lambda>c. \<not> isspace c) s"
  using fields_nonempty concat_fields by auto

theorem tsv_split_witness:
  "splitcount [32, 65, 9, 66] = length (bufsplit [32, 65, 9, 66])
   \<and> concat (bufsplit [32, 65, 9, 66]) = filter (\<lambda>c. \<not> isspace c) [32, 65, 9, 66]"
  using tsv_split [of "[32, 65, 9, 66]"] by blast

text \<open>
  A table written as fields with a blank after each is read back as those fields.
\<close>

theorem tsv_roundtrip:
  assumes "\<forall>t \<in> set ts. t \<noteq> [] \<and> (\<forall>c \<in> set t. \<not> isspace c)"
  shows "bufsplit (concat (map (\<lambda>t. t @ [32]) ts)) = ts"
  using assms by (induction ts) (auto simp: fields_Cons_token)

theorem tsv_roundtrip_witness:
  "bufsplit (concat (map (\<lambda>t. t @ [32]) [cstr ''127.0.0.1'', cstr ''2211''])) = [cstr ''127.0.0.1'', cstr ''2211'']"
  by (rule tsv_roundtrip) (simp add: cstr_def ctype_defs)

section \<open>Correctness of the line reader\<close>

lemma readline_loop_line:
  "readline_loop e buf n file = (Some buf', n', eof, rest) \<Longrightarrow>
     buf' = buf @ takeWhile (\<lambda>c. c \<noteq> 10) file \<and> eof = (10 \<notin> set file)
     \<and> rest = drop 1 (dropWhile (\<lambda>c. c \<noteq> 10) file)"
  by (induction e buf n "file" arbitrary: buf' n' eof rest rule: readline_loop.induct)
     (auto simp: Let_def new_buffer_def split: if_splits)

lemma readline_loop_fits:
  "readline_loop e buf n file = (Some buf', n', eof, rest) \<Longrightarrow> length buf + 2 \<le> n \<Longrightarrow> length buf' + 2 \<le> n'"
  by (induction e buf n "file" arbitrary: buf' n' eof rest rule: readline_loop.induct)
     (auto simp: Let_def CHUNK_def new_buffer_def split: if_splits)

lemma readline_loop_mem: "\<forall>n. ts_buffer e n \<Longrightarrow> \<exists>buf' n' eof rest. readline_loop e buf n file = (Some buf', n', eof, rest)"
  by (induction e buf n "file" rule: readline_loop.induct) (auto simp: Let_def new_buffer_def)

lemmas tsvread_defs = tsvgetline_def tsvreadline_def new_buffer_def Let_def

lemma tsvreadline_Some:
  assumes "tsvreadline e st file = (Some line, st', rest)"
  obtains n eof where "readline_loop e [] (if tsv_line st = None then CHUNK else tsv_linesize st) file = (Some line, n, eof, rest)"
    "tsv_linesize st' = n" "\<not> (eof \<and> line = [])"
  using assms by (auto simp: tsvread_defs split: if_splits option.splits prod.splits)

text \<open>
  Lines of any length are read whole and stay inside the buffer, which grows as needed:
  the line with its terminating NUL fits, the line is everything up to the newline, and the
  next call goes on after it.
\<close>

theorem tsvreadline_line:
  assumes "tsv_line st = None \<or> CHUNK \<le> tsv_linesize st"
    and "tsvreadline e st file = (Some line, st', rest)"
  shows "line = takeWhile (\<lambda>c. c \<noteq> 10) file \<and> rest = drop 1 (dropWhile (\<lambda>c. c \<noteq> 10) file)
    \<and> length line < tsv_linesize st'"
proof -
  let ?n = "if tsv_line st = None then CHUNK else tsv_linesize st"
  obtain n eof where l: "readline_loop e [] ?n file = (Some line, n, eof, rest)" "tsv_linesize st' = n"
    using tsvreadline_Some [OF assms(2)] by blast
  moreover have "length [] + 2 \<le> ?n" using assms(1) by (auto simp: CHUNK_def)
  ultimately show ?thesis
    using readline_loop_line [OF l(1)] readline_loop_fits [OF l(1)] by auto
qed

definition tsv_env0 :: tsv_env where
  "tsv_env0 = \<lparr>ts_ferror = False, ts_buffer = (\<lambda>_. True), ts_alloc = (\<lambda>_. (True, True))\<rparr>"

theorem tsvreadline_line_witness:
  "\<exists>st'. tsvreadline tsv_env0 tsv_init [65, 66, 10, 67] = (Some [65, 66], st', [67]) \<and> 2 < tsv_linesize st'"
proof -
  obtain st' where r: "tsvreadline tsv_env0 tsv_init [65, 66, 10, 67] = (Some [65, 66], st', [67])"
    by (simp add: tsvread_defs tsv_init_def tsv_env0_def CHUNK_def)
  have "tsv_line tsv_init = None \<or> CHUNK \<le> tsv_linesize tsv_init" by (simp add: tsv_init_def)
  from tsvreadline_line [OF this r] r show ?thesis by auto
qed

text \<open>
  A read error is reported only when it comes at the start of a line: after part of a line
  the storage is released, which also resets the error code, and the caller takes the error
  for the end of the file.
\<close>

theorem tsvgetline_read_error:
  assumes "10 \<notin> set file" "tsv_error st = 0" "ts_ferror e" "ts_mem e"
  shows "\<exists>st'. tsvgetline e st file = (None, st', []) \<and> tsv_error st' = (if file = [] then 2 else 0)"
proof -
  let ?n = "if tsv_line st = None then CHUNK else tsv_linesize st"
  obtain buf n eof r where l: "readline_loop e [] ?n file = (Some buf, n, eof, r)"
    using readline_loop_mem assms(4) unfolding ts_mem_def by meson
  have "takeWhile (\<lambda>c. c \<noteq> 10) file = file" "dropWhile (\<lambda>c. c \<noteq> 10) file = []"
    using assms(1) by (auto simp: takeWhile_eq_all_conv dropWhile_eq_Nil_conv)
  with readline_loop_line [OF l] assms(1) have "buf = file" "eof" "r = []" by simp_all
  with l assms(2-4) show ?thesis
    by (auto simp: tsvread_defs tsvrelease_def tsv_init_def ts_mem_def)
qed

theorem tsvgetline_read_error_witness:
  "\<exists>st'. tsvgetline (tsv_env0\<lparr>ts_ferror := True\<rparr>) tsv_init [65] = (None, st', []) \<and> tsv_error st' = 0"
  using tsvgetline_read_error [of "[65]" tsv_init "tsv_env0\<lparr>ts_ferror := True\<rparr>"]
  by (simp add: tsv_init_def tsv_env0_def ts_mem_def)

text \<open>
  So is a failed allocation, unless it is the buffer of a line that cannot grow: without memory for the first
  buffer, for the copy of a line or for the vector of its fields there is no line and no error code either, which the caller
  takes for the end of the file.
\<close>

lemma tsvgetline_no_memory:
  assumes "tsv_error st = 0"
    and "tsv_line st = None \<and> \<not> ts_buffer e CHUNK
      \<or> (\<exists>line st'. tsvreadline e st file = (Some line, st', rest)) \<and> ts_alloc e (length rest) \<noteq> (True, True)"
  shows "\<exists>st' rest. tsvgetline e st file = (None, st', rest) \<and> tsv_error st' = 0"
  using assms(2)
proof (elim disjE conjE exE)
  assume "tsv_line st = None" "\<not> ts_buffer e CHUNK"
  then show ?thesis using assms(1) by (simp add: tsvread_defs)
next
  fix line st' assume r: "tsvreadline e st file = (Some line, st', rest)" "ts_alloc e (length rest) \<noteq> (True, True)"
  then show ?thesis
    by (cases "ts_alloc e (length rest)") (auto simp: tsvgetline_def tsvrelease_def tsv_init_def Let_def)
qed

end
