(* ===== verification/Servers.thy ===== *)
theory Servers
  imports Tsv
begin

text \<open>
  \<open>src/servers.h\<close> and \<open>src/servers.c\<close>: the list of the master servers, how it is read from
  its file, the choice of the next server, and the statistics of the servers. Opening a
  server (in \<open>emwin.c\<close>, which waits for the first packet) is an argument: it gives the
  descriptor and the code of \<open>getaddrinfo\<close>. So are the clock and the settings of the
  configuration file. The table \<open>es_list.server\<close> has \<open>allocated\<close> elements.
\<close>

section \<open>Data\<close>

record emwin_server_stats_st =
  connect :: int
  disconnect :: int
  consecutive_packets :: int
  total_packets :: int
  max_packets :: int
  bad_packet_count :: int
  connections :: int
  error_status :: int
  serverread_errors :: int
  serverclosed_errors :: int
  header_errors :: int
  checksum_errors :: int
  filename_errors :: int
  unknown_errors :: int

datatype server_type = EMWIN_SERVER_TYPE_BB | EMWIN_SERVER_TYPE_SERIAL
  | EMWIN_SERVER_TYPE_WX14_MSG | EMWIN_SERVER_TYPE_WX14_RAW | EMWIN_SERVER_TYPE_INFEED

record emwin_server =
  es_type :: server_type
  es_ip :: "byte list option"
  es_port :: "byte list option"
  es_fd :: int
  f_up :: bool
  gai_code :: int
  es_stats :: emwin_server_stats_st

text \<open>\<open>es_max\<close> is the highest index in use, -1 when there is none.\<close>

record emwin_server_list =
  server :: "emwin_server list"
  es_max :: int
  es_current :: nat
  refused_connections :: int

definition EMWIN_SERVERS_TABLE_GROW :: nat where "EMWIN_SERVERS_TABLE_GROW = 5"

definition es_list_init :: emwin_server_list where
  "es_list_init = \<lparr>server = [], es_max = -1, es_current = 0, refused_connections = 0\<rparr>"

definition zero_stats :: emwin_server_stats_st where
  "zero_stats = \<lparr>connect = 0, disconnect = 0, consecutive_packets = 0, total_packets = 0, max_packets = 0,
     bad_packet_count = 0, connections = 0, error_status = 0, serverread_errors = 0, serverclosed_errors = 0,
     header_errors = 0, checksum_errors = 0, filename_errors = 0, unknown_errors = 0\<rparr>"

definition init_server_stats :: "emwin_server \<Rightarrow> emwin_server" where
  "init_server_stats es = es\<lparr>es_stats := zero_stats\<rparr>"

definition init_server :: "emwin_server \<Rightarrow> emwin_server" where
  "init_server es = init_server_stats (es\<lparr>es_ip := None, es_port := None, es_fd := -1, f_up := False, gai_code := 0\<rparr>)"

text \<open>A freshly allocated element; its type is not set before a server is read into it.\<close>

definition raw_server :: emwin_server where
  "raw_server = \<lparr>es_type = EMWIN_SERVER_TYPE_BB, es_ip = None, es_port = None, es_fd = 0, f_up = False,
     gai_code = 0, es_stats = zero_stats\<rparr>"

definition grow_server_table :: "bool \<Rightarrow> emwin_server_list \<Rightarrow> int \<times> emwin_server_list" where
  "grow_server_table mem_ok l =
     (if mem_ok then (0, l\<lparr>server := server l @ replicate EMWIN_SERVERS_TABLE_GROW (init_server raw_server)\<rparr>)
      else (-1, l))"

section \<open>Reading the list\<close>

text \<open>The type and the address of an entry: \<open>//fifo\<close>, \<open>/device\<close>, \<open>@@raw\<close>, \<open>@msg\<close> or a host.\<close>

definition server_entry :: "byte list \<Rightarrow> server_type \<times> byte list" where
  "server_entry argv0 =
     (case argv0 of
        c # cs \<Rightarrow>
          if c = 47 then
            (if take 1 cs = [47] then (EMWIN_SERVER_TYPE_INFEED, cs) else (EMWIN_SERVER_TYPE_SERIAL, argv0))
          else if c = 64 then
            (if take 1 cs = [64] then (EMWIN_SERVER_TYPE_WX14_RAW, tl cs) else (EMWIN_SERVER_TYPE_WX14_MSG, cs))
          else (EMWIN_SERVER_TYPE_BB, argv0)
      | [] \<Rightarrow> (EMWIN_SERVER_TYPE_BB, []))"

text \<open>
  \<open>ip_ok\<close> and \<open>port_ok\<close>: there is memory for the copies of the two fields. Without memory for the
  second the first is freed, and its pointer left in the entry.
\<close>

definition read_next_server :: "bool \<times> bool \<Rightarrow> tsv_st \<Rightarrow> emwin_server \<Rightarrow> int \<times> emwin_server" where
  "read_next_server mem st es =
     (if tsv_argc st \<noteq> 2 then (1, es)
      else case (server_entry (tsv_argv st ! 0), mem) of
          ((ty, ip), ip_ok, port_ok) \<Rightarrow>
            if \<not> ip_ok then (-1, es\<lparr>es_type := ty, es_ip := None\<rparr>)
            else if \<not> port_ok then (-1, es\<lparr>es_type := ty, es_ip := Some ip, es_port := None\<rparr>)
            else (0, es\<lparr>es_type := ty, es_ip := Some ip, es_port := Some (tsv_argv st ! 1)\<rparr>))"

text \<open>
  What the system answers while the list is read: beside those for the file, whether the table can be
  made larger than so many entries, and the memory for an entry.
\<close>

record list_env = tsv_env +
  le_table :: "nat \<Rightarrow> bool"
  le_entry :: "nat \<Rightarrow> bool \<times> bool"

text \<open>
  The loop of \<open>get_server_list\<close>. Every round reads at least one byte or ends.
\<close>

lemma tsvgetline_shorter:
  assumes "tsvgetline e st file = (Some line, st', rest)"
  shows "length rest < length file"
proof -
  let ?n = "if tsv_line st = None then CHUNK else tsv_linesize st"
  obtain st1 where "tsvreadline e st file = (Some line, st1, rest)"
    using assms by (auto simp: tsvgetline_def Let_def split: option.splits prod.splits if_splits)
  then obtain n eof where l: "readline_loop e [] ?n file = (Some line, n, eof, rest)" and r: "\<not> (eof \<and> line = [])"
    by (rule tsvreadline_Some)
  have b: "line = takeWhile (\<lambda>c. c \<noteq> 10) file" "eof = (10 \<notin> set file)" "rest = drop 1 (dropWhile (\<lambda>c. c \<noteq> 10) file)"
    using readline_loop_line [OF l] by auto
  then have "file \<noteq> []" using r by auto
  then show ?thesis
    using b length_dropWhile_le [of "\<lambda>c. c \<noteq> 10" "file"]
    by (cases "dropWhile (\<lambda>c. c \<noteq> 10) file") auto
qed

function server_list_loop ::
  "list_env \<Rightarrow> tsv_st \<Rightarrow> byte list \<Rightarrow> nat \<Rightarrow> emwin_server_list \<Rightarrow> int \<times> emwin_server_list" where
  "server_list_loop e st file i l =
     (case (if i = length (server l) then grow_server_table (le_table e i) l else (0, l)) of
        (status, l) \<Rightarrow>
          if status \<noteq> 0 then (status, l)
          else case tsvgetline e st file of
              (None, st, rest) \<Rightarrow> (if tsv_error st \<noteq> 0 then -1 else 0, l)
            | (Some line, st, rest) \<Rightarrow>
                if tsv_argc st \<noteq> 0 \<and> take 1 (tsv_argv st ! 0) \<noteq> [35] then
                  (case read_next_server (le_entry e i) st (server l ! i) of
                     (status, es) \<Rightarrow>
                       if status = 0
                       then server_list_loop e st rest (i + 1)
                              (l\<lparr>server := (server l)[i := es], es_max := es_max l + 1\<rparr>)
                       else (status, l\<lparr>server := (server l)[i := es]\<rparr>))
                else server_list_loop e st rest i l)"
  by pat_completeness auto
termination
  by (relation "measure (\<lambda>(e, st, fl, i, l). length fl)") (auto dest: tsvgetline_shorter [OF sym])

declare server_list_loop.simps [simp del]

text \<open>
  \<open>None\<close> is a file that cannot be opened. The table is not released first: the caller does
  that (or the list is empty).
\<close>

definition get_server_list :: "byte list option \<Rightarrow> list_env \<Rightarrow> tsv_st \<Rightarrow> emwin_server_list \<Rightarrow> int \<times> emwin_server_list" where
  "get_server_list fl e st l =
     (let l = l\<lparr>server := [], es_current := 0, es_max := -1, refused_connections := 0\<rparr> in
      case fl of
        None \<Rightarrow> (-1, l)
      | Some content \<Rightarrow>
          (case server_list_loop e st content 0 l of
             (status, l) \<Rightarrow> (if status = 0 \<and> es_max l = -1 then 2 else status, l)))"

section \<open>Choosing the next server\<close>

definition server_type_bbserver :: "emwin_server \<Rightarrow> bool" where
  "server_type_bbserver es = (es_type es = EMWIN_SERVER_TYPE_BB)"
definition server_type_serial_device :: "emwin_server \<Rightarrow> bool" where
  "server_type_serial_device es = (es_type es = EMWIN_SERVER_TYPE_SERIAL)"
definition server_type_wx14_msg_device :: "emwin_server \<Rightarrow> bool" where
  "server_type_wx14_msg_device es = (es_type es = EMWIN_SERVER_TYPE_WX14_MSG)"
definition server_type_wx14_raw_device :: "emwin_server \<Rightarrow> bool" where
  "server_type_wx14_raw_device es = (es_type es = EMWIN_SERVER_TYPE_WX14_RAW)"
definition server_type_infeed :: "emwin_server \<Rightarrow> bool" where
  "server_type_infeed es = (es_type es = EMWIN_SERVER_TYPE_INFEED)"

definition get_current_server :: "emwin_server_list \<Rightarrow> emwin_server" where
  "get_current_server l = server l ! es_current l"

definition set_current_server :: "emwin_server \<Rightarrow> emwin_server_list \<Rightarrow> emwin_server_list" where
  "set_current_server es l = l\<lparr>server := (server l)[es_current l := es]\<rparr>"

text \<open>The server afterwards and the descriptors handed to \<open>close\<close>.\<close>

text \<open>
  Closing a source. \<open>infeed_close_fifo\<close> also removes the fifo when it could be closed; its result
  has the names removed. A failure to close changes nothing else, and \<open>close_server\<close> only has the descriptors closed.
\<close>

definition ser_close_port :: "(int \<Rightarrow> int) \<Rightarrow> int \<Rightarrow> int" where
  "ser_close_port close_fd fd = close_fd fd"

definition infeed_close_fifo :: "(int \<Rightarrow> int) \<Rightarrow> int \<Rightarrow> byte list option \<Rightarrow> int \<times> byte list list" where
  "infeed_close_fifo close_fd fd fpath =
     (let status = close_fd fd in (status, case fpath of Some p \<Rightarrow> if status = 0 then [p] else [] | None \<Rightarrow> []))"

definition close_source :: "(int \<Rightarrow> int) \<Rightarrow> emwin_server \<Rightarrow> int \<times> byte list list" where
  "close_source close_fd es =
     (if es_fd es = -1 then (0, [])
      else if es_type es = EMWIN_SERVER_TYPE_SERIAL then (ser_close_port close_fd (es_fd es), [])
      else if es_type es = EMWIN_SERVER_TYPE_INFEED then infeed_close_fifo close_fd (es_fd es) (es_ip es)
      else (close_fd (es_fd es), []))"

definition close_server :: "emwin_server \<Rightarrow> emwin_server \<times> int list" where
  "close_server es =
     (if es_fd es \<noteq> -1 then (es\<lparr>es_fd := -1, f_up := False\<rparr>, [es_fd es]) else (es\<lparr>f_up := False\<rparr>, []))"

definition switch_server :: "int \<Rightarrow> int \<Rightarrow> emwin_server \<Rightarrow> bool" where
  "switch_server max_bad_packet_count refused es =
     (if refused > 0 then True
      else max_bad_packet_count > 0 \<and> bad_packet_count (es_stats es) = max_bad_packet_count)"

definition next_current :: "emwin_server_list \<Rightarrow> nat" where
  "next_current l = (if int (es_current l + 1) > es_max l then 0 else es_current l + 1)"

text \<open>The first half of \<open>get_next_server\<close>, up to the opening of the server.\<close>

definition select_server :: "int \<Rightarrow> int \<Rightarrow> emwin_server_list \<Rightarrow> emwin_server_list \<times> int list" where
  "select_server now max_bad_packet_count l =
     (let es = get_current_server l in
      if connect (es_stats es) = 0
      then (set_current_server (es\<lparr>es_stats := (es_stats es)\<lparr>connect := now\<rparr>\<rparr>) l, [])
      else case close_server es of
          (es, closed) \<Rightarrow>
            if switch_server max_bad_packet_count (refused_connections l) es then
              let es = es\<lparr>es_stats := (es_stats es)\<lparr>disconnect := now\<rparr>\<rparr>;
                  l = (set_current_server es l)\<lparr>es_current := next_current l\<rparr>;
                  es = init_server_stats (get_current_server l);
                  es = es\<lparr>es_stats := (es_stats es)\<lparr>connect := now\<rparr>\<rparr>
              in (set_current_server es l, closed)
            else (set_current_server (es\<lparr>es_stats := (es_stats es)\<lparr>consecutive_packets := 0\<rparr>\<rparr>) l, closed))"

definition opened :: "(emwin_server \<Rightarrow> int \<times> int) \<Rightarrow> emwin_server \<Rightarrow> emwin_server" where
  "opened open_server es =
     (case open_server es of
        (fd, gai) \<Rightarrow>
          if server_type_serial_device es \<or> server_type_infeed es then es\<lparr>es_fd := fd\<rparr>
          else es\<lparr>es_fd := fd, gai_code := gai\<rparr>)"

text \<open>The index of the server returned (\<open>None\<close> for the null pointer), the list, and the closed descriptors.\<close>

definition get_next_server ::
  "int \<Rightarrow> int \<Rightarrow> (emwin_server \<Rightarrow> int \<times> int) \<Rightarrow> emwin_server_list \<Rightarrow> nat option \<times> emwin_server_list \<times> int list" where
  "get_next_server now max_bad_packet_count open_server l =
     (case select_server now max_bad_packet_count l of
        (l, closed) \<Rightarrow>
          let es = opened open_server (get_current_server l);
              (es, l) =
                (if es_fd es < 0
                 then (es\<lparr>es_stats := (es_stats es)\<lparr>bad_packet_count := bad_packet_count (es_stats es) + 1, error_status := -1\<rparr>\<rparr>,
                       l\<lparr>refused_connections := refused_connections l + 1\<rparr>)
                 else (es\<lparr>es_stats := (es_stats es)\<lparr>connections := connections (es_stats es) + 1\<rparr>, f_up := True\<rparr>,
                       l\<lparr>refused_connections := 0\<rparr>));
              l = set_current_server es l
          in if refused_connections l > es_max l + 1
             then (None, l\<lparr>refused_connections := 0\<rparr>, closed)
             else (Some (es_current l), l, closed))"

section \<open>Statistics\<close>

definition update_emwin_server_stats :: "int \<Rightarrow> int \<Rightarrow> emwin_server_list \<Rightarrow> emwin_server_list" where
  "update_emwin_server_stats min_consecutive_packets status l =
     (let es = get_current_server l; st = es_stats es;
          st = (if status = 0 then
                  let st = st\<lparr>consecutive_packets := consecutive_packets st + 1, total_packets := total_packets st + 1\<rparr>;
                      st = (if consecutive_packets st \<ge> min_consecutive_packets then st\<lparr>bad_packet_count := 0\<rparr> else st)
                  in if consecutive_packets st > max_packets st then st\<lparr>max_packets := consecutive_packets st\<rparr> else st
                else
                  let st = st\<lparr>error_status := status\<rparr>;
                      st = (if consecutive_packets st < min_consecutive_packets
                            then st\<lparr>bad_packet_count := bad_packet_count st + 1\<rparr> else st)
                  in if status < 0 then st\<lparr>serverread_errors := serverread_errors st + 1\<rparr>
                     else if status = 1 then st\<lparr>serverclosed_errors := serverclosed_errors st + 1\<rparr>
                     else if status = 2 then st\<lparr>header_errors := header_errors st + 1\<rparr>
                     else if status = 3 then st\<lparr>checksum_errors := checksum_errors st + 1\<rparr>
                     else if status = 4 then st\<lparr>filename_errors := filename_errors st + 1\<rparr>
                     else st\<lparr>unknown_errors := unknown_errors st + 1\<rparr>)
      in set_current_server (es\<lparr>es_stats := st\<rparr>) l)"

text \<open>One line of the status file for each server that was ever used.\<close>

definition stats_line :: "emwin_server \<Rightarrow> byte list" where
  "stats_line es =
     (let st = es_stats es in
      (case es_ip es of Some ip \<Rightarrow> ip | None \<Rightarrow> cstr ''(null)'') @ [32]
      @ (case es_port es of Some p \<Rightarrow> p | None \<Rightarrow> cstr ''(null)'')
      @ concat (map (\<lambda>v. 32 # printf_d v)
          [connect st, disconnect st, consecutive_packets st, max_packets st, total_packets st, bad_packet_count st,
           connections st, error_status st, serverread_errors st, serverclosed_errors st, header_errors st,
           checksum_errors st, filename_errors st, unknown_errors st]) @ [10])"

text \<open>\<open>k\<close> is how many lines can be written before writing fails.\<close>

fun stats_lines :: "nat \<Rightarrow> emwin_server list \<Rightarrow> int \<times> byte list" where
  "stats_lines k [] = (0, [])"
| "stats_lines k (es # ess) =
     (if connect (es_stats es) = 0 then stats_lines k ess
      else if k = 0 then (-1, [])
      else case stats_lines (k - 1) ess of (status, text) \<Rightarrow> (status, stats_line es @ text))"

text \<open>\<open>room\<close> is \<open>None\<close> when the file cannot be opened, which leaves it as it was (\<open>None\<close>).\<close>

definition write_emwin_server_stats :: "nat option \<Rightarrow> emwin_server_list \<Rightarrow> int \<times> byte list option" where
  "write_emwin_server_stats room l =
     (case room of
        None \<Rightarrow> (-1, None)
      | Some k \<Rightarrow> (case stats_lines k (take (nat (es_max l + 1)) (server l)) of (status, text) \<Rightarrow> (status, Some text)))"

definition release_server_list :: "emwin_server_list \<Rightarrow> emwin_server_list \<times> int list" where
  "release_server_list l =
     (l\<lparr>server := []\<rparr>, concat (map (\<lambda>es. if es_fd es \<noteq> -1 then snd (close_server es) else []) (server l)))"

section \<open>The invariant of the list\<close>

definition es_ok :: "emwin_server_list \<Rightarrow> bool" where
  "es_ok l \<longleftrightarrow> int (es_current l) \<le> es_max l \<and> es_max l < int (length (server l))
     \<and> 0 \<le> refused_connections l \<and> refused_connections l \<le> es_max l + 1"

text \<open>The name that is removed when a source is closed is the fifo of an infeed, and of no other kind of source.\<close>

lemma close_source_unlinks:
  "snd (close_source close_fd es) \<noteq> [] \<Longrightarrow> server_type_infeed es \<and> snd (close_source close_fd es) = [the (es_ip es)]
     \<and> snd (close_server es) = [es_fd es]"
  by (auto simp: close_source_def infeed_close_fifo_def server_type_infeed_def close_server_def Let_def split: if_splits option.splits)

text \<open>The status file has a line for each server that was used, in order, or the status says that lines are missing.\<close>

lemma stats_lines_text:
  "stats_lines k ess = (status, out) \<Longrightarrow> status \<in> {0, -1}
     \<and> out = concat (map stats_line (take k (filter (\<lambda>es. connect (es_stats es) \<noteq> 0) ess)))
     \<and> (status = 0 \<longleftrightarrow> length (filter (\<lambda>es. connect (es_stats es) \<noteq> 0) ess) \<le> k)"
proof (induction ess arbitrary: k status out)
  case Nil
  then show ?case by auto
next
  case (Cons es ess)
  show ?case
  proof (cases "connect (es_stats es) = 0")
    case True
    with Cons.prems have "stats_lines k ess = (status, out)" by simp
    from Cons.IH [OF this] True show ?thesis by auto
  next
    case False
    show ?thesis
    proof (cases k)
      case 0
      with False Cons.prems show ?thesis by simp
    next
      case (Suc j)
      obtain st t where r: "stats_lines j ess = (st, t)" by (cases "stats_lines j ess")
      with False Suc Cons.prems have "status = st" "out = stats_line es @ t" by simp_all
      with Cons.IH [OF r] False Suc show ?thesis by auto
    qed
  qed
qed

lemma set_current_server_simps [simp]:
  "es_max (set_current_server es l) = es_max l" "es_current (set_current_server es l) = es_current l"
  "refused_connections (set_current_server es l) = refused_connections l"
  "length (server (set_current_server es l)) = length (server l)"
  "es_current l < length (server l) \<Longrightarrow> get_current_server (set_current_server es l) = es"
  by (simp_all add: set_current_server_def get_current_server_def)

lemma next_current_ok: "int (es_current l) \<le> es_max l \<Longrightarrow> int (next_current l) \<le> es_max l"
  by (simp add: next_current_def)

lemma select_server_frame:
  "select_server now mb l = (l', cl) \<Longrightarrow>
     es_max l' = es_max l \<and> length (server l') = length (server l) \<and> refused_connections l' = refused_connections l
     \<and> (es_current l' = es_current l \<or> es_current l' = next_current l)"
  by (auto simp: select_server_def Let_def split: if_splits prod.splits)

lemma get_next_server_frame:
  assumes "get_next_server now mb opn l = (r, l', cl)"
  obtains l1 es where "select_server now mb l = (l1, cl)" "es = opened opn (get_current_server l1)"
    "es_max l' = es_max l" "length (server l') = length (server l)" "es_current l' = es_current l1"
    "(if es_fd es < 0 then refused_connections l + 1 > es_max l + 1 \<and> r = None \<and> refused_connections l' = 0
        \<or> refused_connections l + 1 \<le> es_max l + 1 \<and> r = Some (es_current l1)
          \<and> refused_connections l' = refused_connections l + 1
      else (if 0 > es_max l + 1 then r = None else r = Some (es_current l1)) \<and> refused_connections l' = 0)"
proof -
  obtain l1 c1 where s: "select_server now mb l = (l1, c1)" by (cases "select_server now mb l")
  note f = select_server_frame [OF s]
  show thesis
    by (rule that [of l1 "opened opn (get_current_server l1)"])
       (use assms s f in \<open>auto simp: get_next_server_def Let_def split: if_splits\<close>)
qed

lemma get_next_server_inv:
  assumes "es_ok l" "get_next_server now mb opn l = (r, l', cl)"
  shows "es_ok l' \<and> (\<forall>i. r = Some i \<longrightarrow> i = es_current l')
    \<and> length (server l') = length (server l) \<and> es_max l' = es_max l"
proof -
  from assms(2) obtain l1 es where g: "select_server now mb l = (l1, cl)"
    and "es = opened opn (get_current_server l1)" and g': "es_max l' = es_max l" "length (server l') = length (server l)" "es_current l' = es_current l1"
    "(if es_fd es < 0 then refused_connections l + 1 > es_max l + 1 \<and> r = None \<and> refused_connections l' = 0
        \<or> refused_connections l + 1 \<le> es_max l + 1 \<and> r = Some (es_current l1)
          \<and> refused_connections l' = refused_connections l + 1
      else (if 0 > es_max l + 1 then r = None else r = Some (es_current l1)) \<and> refused_connections l' = 0)"
    by (rule get_next_server_frame)
  have "int (es_current l1) \<le> es_max l"
    using select_server_frame [OF g] assms(1) next_current_ok [of l] by (auto simp: es_ok_def)
  with g' assms(1) show ?thesis by (auto simp: es_ok_def split: if_splits)
qed

text \<open>Calling \<open>get_next_server\<close> again and again: the results, with the server tried each time.\<close>

fun try_servers ::
  "int list \<Rightarrow> int \<Rightarrow> (emwin_server \<Rightarrow> int \<times> int) \<Rightarrow> emwin_server_list \<Rightarrow> (nat option \<times> nat) list" where
  "try_servers [] mb opn l = []"
| "try_servers (now # nows) mb opn l =
     (case get_next_server now mb opn l of (r, l', _) \<Rightarrow> (r, es_current l') # try_servers nows mb opn l')"

lemma opened_fd: "es_fd (opened opn es) = fst (opn es)"
  by (auto simp: opened_def split: prod.splits)

lemma opened_stats: "es_stats (opened opn es) = es_stats es"
  by (auto simp: opened_def split: prod.splits)

lemma es_ok_current: "es_ok l \<Longrightarrow> es_current l < length (server l)" "es_ok l \<Longrightarrow> next_current l < length (server l)"
  using next_current_ok [of l] by (auto simp: es_ok_def)

lemma select_server_connected:
  assumes "es_ok l" "select_server now mb l = (l1, closed)" "now \<noteq> 0"
  shows "connect (es_stats (get_current_server l1)) \<noteq> 0"
  using assms(2,3) es_ok_current [OF assms(1)]
  by (auto simp: select_server_def Let_def get_current_server_def set_current_server_def init_server_stats_def
      zero_stats_def close_server_def split: if_splits)

text \<open>One failed try: the stamp of the server tried is set, and the count of refusals goes up.\<close>

lemma get_next_server_fail:
  assumes "es_ok l" "\<forall>es. fst (opn es) < 0" "now \<noteq> 0" "get_next_server now mb opn l = (r, l', cl)"
  shows "connect (es_stats (get_current_server l')) \<noteq> 0 \<and> es_max l' = es_max l
    \<and> (if refused_connections l > es_max l then r = None
       else r = Some (es_current l') \<and> refused_connections l' = refused_connections l + 1)
    \<and> (0 < refused_connections l \<and> connect (es_stats (get_current_server l)) \<noteq> 0 \<longrightarrow> es_current l' = next_current l)"
proof -
  obtain l1 c1 where s: "select_server now mb l = (l1, c1)" by (cases "select_server now mb l")
  have cur: "es_current l1 < length (server l1)"
    using es_ok_current [OF assms(1)] select_server_frame [OF s] by auto
  have cn: "connect (es_stats (get_current_server l1)) \<noteq> 0"
    by (rule select_server_connected [OF assms(1) s assms(3)])
  have sw: "es_current l1 = next_current l" if "0 < refused_connections l" "connect (es_stats (get_current_server l)) \<noteq> 0"
    using s that by (auto simp: select_server_def Let_def switch_server_def split: if_splits prod.splits)
  have "es_fd (opened opn (get_current_server l1)) < 0" using assms(2) by (simp add: opened_fd)
  then show ?thesis
    using assms(4) s cn cur sw select_server_frame [OF s] opened_stats [of opn "get_current_server l1"]
    by (auto simp: get_next_server_def Let_def get_current_server_def set_current_server_def split: if_splits)
qed

lemma next_current_mod:
  assumes "es_ok l" shows "next_current l = Suc (es_current l) mod nat (es_max l + 1)"
proof -
  have "es_current l < nat (es_max l + 1)" using assms by (auto simp: es_ok_def)
  then show ?thesis by (auto simp: next_current_def mod_Suc)
qed

text \<open>
  C40. Choosing the next server keeps the list well formed: the current server is always one of
  those read from the file, whatever fails, and the server returned is the current one.
\<close>

theorem get_next_server_ok:
  assumes "es_ok l" "get_next_server now mb opn l = (r, l', cl)"
  shows "es_ok l' \<and> (\<forall>i. r = Some i \<longrightarrow> i = es_current l')
    \<and> length (server l') = length (server l) \<and> es_max l' = es_max l"
  using get_next_server_inv [OF assms] .

text \<open>A list of two servers to evaluate on.\<close>

definition two_servers :: emwin_server_list where
  "two_servers = \<lparr>server = replicate 5 raw_server, es_max = 1, es_current = 0, refused_connections = 0\<rparr>"

theorem get_next_server_ok_witness:
  "\<exists>r l' cl. get_next_server 7 0 (\<lambda>_. (-1, 0)) two_servers = (r, l', cl) \<and> es_ok l'"
proof -
  obtain r l' cl where g: "get_next_server 7 0 (\<lambda>_. (-1, 0)) two_servers = (r, l', cl)" by (metis prod_cases3)
  have "es_ok two_servers" by (simp add: two_servers_def es_ok_def)
  from get_next_server_ok [OF this g] g show ?thesis by auto
qed

lemma try_servers_refused:
  assumes "es_ok l" "\<forall>es. fst (opn es) < 0" "0 \<notin> set nows" "connect (es_stats (get_current_server l)) \<noteq> 0"
    and "M = nat (es_max l + 1)" "refused_connections l = int k" "0 < k" "k + length nows = Suc M"
  shows "try_servers nows mb opn l =
    map (\<lambda>j. (if k + j \<le> M then Some ((es_current l + j) mod M) else None, (es_current l + j) mod M)) [1..<Suc (length nows)]"
  using assms
proof (induction nows arbitrary: l k)
  case Nil
  then show ?case by simp
next
  case (Cons now nows)
  obtain r l' cl where g: "get_next_server now mb opn l = (r, l', cl)" by (metis prod_cases3)
  have "now \<noteq> 0" using Cons.prems(3) by auto
  note f = get_next_server_fail [OF Cons.prems(1,2) this g]
  note inv = get_next_server_inv [OF Cons.prems(1) g]
  have cur: "es_current l' = Suc (es_current l) mod M"
    using f Cons.prems(4,5,6,7) next_current_mod [OF Cons.prems(1)] by simp
  have M: "int M = es_max l + 1" using Cons.prems(1,5) by (auto simp: es_ok_def)
  have sh: "(Suc (es_current l) mod M + j) mod M = (es_current l + Suc j) mod M" for j
    by (simp add: mod_add_left_eq)
  show ?case
  proof (cases nows)
    case Nil
    then show ?thesis using g f cur M Cons.prems(6,8) by (auto split: if_splits)
  next
    case c: (Cons n2 ns)
    then have k: "Suc k \<le> M" using Cons.prems(8) by simp
    then have r: "r = Some (es_current l')" "refused_connections l' = int (Suc k)"
      using f M Cons.prems(6) by (auto split: if_splits)
    have "try_servers nows mb opn l' = map (\<lambda>j. (if Suc k + j \<le> M then Some ((es_current l' + j) mod M) else None,
        (es_current l' + j) mod M)) [1..<Suc (length nows)]"
      using inv f r Cons.prems by (intro Cons.IH) auto
    also have "\<dots> = map (\<lambda>j. (if k + j \<le> M then Some ((es_current l + j) mod M) else None, (es_current l + j) mod M))
        (map Suc [1..<Suc (length nows)])"
      by (simp add: cur sh)
    finally show ?thesis
      using g r cur k by (simp add: map_Suc_upt upt_conv_Cons del: upt_Suc)
  qed
qed

lemma cycle_covers:
  assumes "c < (M :: nat)" shows "(\<lambda>j. (c + j) mod M) ` {1..M} = {..<M}"
proof
  show "{..<M} \<subseteq> (\<lambda>j. (c + j) mod M) ` {1..M}"
  proof
    fix x assume x: "x \<in> {..<M}"
    let ?j = "if x > c then x - c else x + M - c"
    have "x = (c + ?j) mod M" "?j \<in> {1..M}" using x assms by auto
    then show "x \<in> (\<lambda>j. (c + j) mod M) ` {1..M}" by (rule image_eqI)
  qed
qed (use assms in auto)



section \<open>The file of the server list\<close>

definition token :: "byte list \<Rightarrow> bool" where
  "token t \<longleftrightarrow> t \<noteq> [] \<and> (\<forall>c \<in> set t. \<not> isspace c \<and> c \<noteq> 0)"

definition entry_line :: "byte list \<times> byte list \<Rightarrow> byte list" where
  "entry_line e = fst e @ [32] @ snd e @ [10]"

definition entry_of :: "emwin_server \<Rightarrow> server_type \<times> byte list option \<times> byte list option" where
  "entry_of es = (es_type es, es_ip es, es_port es)"

definition entry_value :: "byte list \<times> byte list \<Rightarrow> server_type \<times> byte list option \<times> byte list option" where
  "entry_value e = (fst (server_entry (fst e)), Some (snd (server_entry (fst e))), Some (snd e))"

lemma fields_token: "token t \<Longrightarrow> tsv_fields t = [t]"
proof -
  assume t: "token t"
  then obtain c cs where c: "t = c # cs" by (cases t) (auto simp: token_def)
  have d: "takeWhile (\<lambda>c. \<not> isspace c) cs = cs" "dropWhile (\<lambda>c. \<not> isspace c) cs = []"
    using t c by (auto simp: token_def takeWhile_eq_all_conv dropWhile_eq_Nil_conv)
  show ?thesis using t by (simp add: token_def c d)
qed

lemma tsvgetline_entry:
  assumes "token h" "token p" "tsv_error st = 0" "ts_mem e"
  shows "\<exists>st'. tsvgetline e st (entry_line (h, p) @ rest) = (Some (h @ 32 # p), st', rest)
    \<and> tsv_argc st' = 2 \<and> tsv_argv st' = [h, p] \<and> tsv_error st' = 0"
proof -
  let ?n = "if tsv_line st = None then CHUNK else tsv_linesize st"
  have nl: "\<forall>c \<in> set (h @ 32 # p). c \<noteq> 10" "0 \<notin> set (h @ 32 # p)"
    using assms(1,2) by (auto simp: token_def isspace_def)
  obtain buf n eof r where l: "readline_loop e [] ?n ((h @ 32 # p) @ 10 # rest) = (Some buf, n, eof, r)"
    using readline_loop_mem assms(4) unfolding ts_mem_def by meson
  have "takeWhile (\<lambda>c. c \<noteq> 10) ((h @ 32 # p) @ 10 # rest) = h @ 32 # p"
    "dropWhile (\<lambda>c. c \<noteq> 10) ((h @ 32 # p) @ 10 # rest) = 10 # rest"
    using takeWhile_append2 [of "h @ 32 # p" "\<lambda>c. c \<noteq> 10" "10 # rest"]
      dropWhile_append2 [of "h @ 32 # p" "\<lambda>c. c \<noteq> 10" "10 # rest"] nl(1) by auto
  with readline_loop_line [OF l] have b: "buf = h @ 32 # p" "\<not> eof" "r = rest" by auto
  have "tsv_fields (h @ 32 # p) = [h, p]"
    using assms fields_Cons_token [of h p] fields_token [of p] by (simp add: token_def)
  with l b nl(2) assms(3,4) show ?thesis
    by (cases "tsv_line st") (auto simp: tsvread_defs entry_line_def ts_mem_def)
qed

text \<open>The file can be read to its end and there is memory for all that it needs.\<close>

definition list_env_ok :: "list_env \<Rightarrow> bool" where
  "list_env_ok le \<longleftrightarrow> \<not> ts_ferror le \<and> ts_mem le \<and> (\<forall>n. le_table le n) \<and> (\<forall>i. le_entry le i = (True, True))"

definition list_env0 :: list_env where
  "list_env0 = \<lparr>ts_ferror = False, ts_buffer = (\<lambda>_. True), ts_alloc = (\<lambda>_. (True, True)),
     le_table = (\<lambda>_. True), le_entry = (\<lambda>_. (True, True))\<rparr>"

lemma list_env0_ok [simp]: "list_env_ok list_env0"
  by (simp add: list_env_ok_def list_env0_def ts_mem_def)

lemma server_list_loop_entries:
  assumes "\<forall>e \<in> set entries. token (fst e) \<and> token (snd e) \<and> hd (fst e) \<noteq> 35"
    and "tsv_error st = 0" "i \<le> length (server l)" "es_max l = int i - 1" "list_env_ok le"
  shows "\<exists>l'. server_list_loop le st (concat (map entry_line entries)) i l = (0, l')
    \<and> es_max l' = int (i + length entries) - 1 \<and> i + length entries < length (server l')
    \<and> es_current l' = es_current l \<and> refused_connections l' = refused_connections l
    \<and> map entry_of (take (i + length entries) (server l')) =
        map entry_of (take i (server l)) @ map entry_value entries"
  using assms
proof (induction entries arbitrary: st i l)
  case Nil
  have "tsvgetline le st [] = (None, st\<lparr>tsv_linesize := (if tsv_line st = None then CHUNK else tsv_linesize st), tsv_line := None\<rparr>, [])"
    using Nil.prems by (simp add: tsvread_defs list_env_ok_def ts_mem_def)
  then show ?case
    using Nil.prems unfolding list_env_ok_def by (subst server_list_loop.simps) (simp add: grow_server_table_def EMWIN_SERVERS_TABLE_GROW_def)
next
  case (Cons e entries)
  obtain h p where e: "e = (h, p)" by (cases e)
  obtain st' where t: "tsvgetline le st (entry_line e @ concat (map entry_line entries))
      = (Some (h @ 32 # p), st', concat (map entry_line entries))"
      "tsv_argc st' = 2" "tsv_argv st' = [h, p]" "tsv_error st' = 0"
    using tsvgetline_entry [of h p st le "concat (map entry_line entries)"] Cons.prems(1,2,5) e by (auto simp: list_env_ok_def)
  define l1 where "l1 = snd (if i = length (server l) then grow_server_table True l else (0, l))"
  have g: "(if i = length (server l) then grow_server_table (le_table le i) l else (0, l)) = (0, l1)"
    using Cons.prems(5) by (simp add: l1_def grow_server_table_def list_env_ok_def)
  have l1: "i < length (server l1)" "take i (server l1) = take i (server l)" "es_max l1 = es_max l"
      "es_current l1 = es_current l" "refused_connections l1 = refused_connections l"
    using Cons.prems(3) by (auto simp: l1_def grow_server_table_def EMWIN_SERVERS_TABLE_GROW_def)
  define es where "es = (server l1 ! i)\<lparr>es_type := fst (server_entry h), es_ip := Some (snd (server_entry h)), es_port := Some p\<rparr>"
  define l2 where "l2 = l1\<lparr>server := (server l1)[i := es], es_max := es_max l1 + 1\<rparr>"
  have h: "take 1 h \<noteq> [35]" using Cons.prems(1) e by (cases h) (auto simp: token_def)
  have "server_list_loop le st (concat (map entry_line (e # entries))) i l
      = server_list_loop le st' (concat (map entry_line entries)) (i + 1) l2"
    using t h g Cons.prems(5) by (subst server_list_loop.simps)
      (simp add: l2_def read_next_server_def es_def list_env_ok_def split: prod.splits)
  moreover have "\<exists>l'. server_list_loop le st' (concat (map entry_line entries)) (i + 1) l2 = (0, l')
    \<and> es_max l' = int (i + 1 + length entries) - 1 \<and> i + 1 + length entries < length (server l')
    \<and> es_current l' = es_current l2 \<and> refused_connections l' = refused_connections l2
    \<and> map entry_of (take (i + 1 + length entries) (server l')) =
        map entry_of (take (i + 1) (server l2)) @ map entry_value entries"
    using Cons.prems l1 t(4) by (intro Cons.IH) (auto simp: l2_def)
  moreover have "map entry_of (take (i + 1) (server l2)) = map entry_of (take i (server l)) @ [entry_value e]"
    using l1 by (simp add: l2_def take_Suc_conv_app_nth entry_of_def entry_value_def es_def e)
  ultimately show ?case using l1 by (auto simp: l2_def)
qed

text \<open>
  The sources of data that \<open>conf/servers.conf\<close> describes, and how it says that they are written: a host
  by its name, a serial device by its path, a fifo by its path behind another slash, and the two ports
  of a WX14 receiver by its name behind one or two at signs.
\<close>

datatype source = Host "byte list" | Device "byte list" | Fifo "byte list"
  | Wx14_messages "byte list" | Wx14_raw "byte list"

primrec written :: "source \<Rightarrow> byte list" where
  "written (Host h) = h"
| "written (Device path) = path"
| "written (Fifo path) = cstr ''/'' @ path"
| "written (Wx14_messages h) = cstr ''@'' @ h"
| "written (Wx14_raw h) = cstr ''@@'' @ h"

text \<open>A path starts with one slash, a name with neither a slash, an at sign nor a comment sign.\<close>

definition path_ok :: "byte list \<Rightarrow> bool" where
  "path_ok path \<longleftrightarrow> (\<exists>r. path = 47 # r \<and> take 1 r \<noteq> [47])"

definition host_ok :: "byte list \<Rightarrow> bool" where
  "host_ok h \<longleftrightarrow> h \<noteq> [] \<and> hd h \<notin> {35, 47, 64}"

primrec source_ok :: "source \<Rightarrow> bool" where
  "source_ok (Host h) = host_ok h"
| "source_ok (Device path) = path_ok path"
| "source_ok (Fifo path) = path_ok path"
| "source_ok (Wx14_messages h) = host_ok h"
| "source_ok (Wx14_raw h) = host_ok h"

primrec source_entry :: "source \<Rightarrow> server_type \<times> byte list" where
  "source_entry (Host h) = (EMWIN_SERVER_TYPE_BB, h)"
| "source_entry (Device path) = (EMWIN_SERVER_TYPE_SERIAL, path)"
| "source_entry (Fifo path) = (EMWIN_SERVER_TYPE_INFEED, path)"
| "source_entry (Wx14_messages h) = (EMWIN_SERVER_TYPE_WX14_MSG, h)"
| "source_entry (Wx14_raw h) = (EMWIN_SERVER_TYPE_WX14_RAW, h)"

lemma server_entry_written: "source_ok s \<Longrightarrow> server_entry (written s) = source_entry s"
  by (cases s) (auto simp: server_entry_def cstr_def path_ok_def host_ok_def neq_Nil_conv split: list.splits)

lemma written_not_comment: "source_ok s \<Longrightarrow> hd (written s) \<noteq> 35"
  by (cases s) (auto simp: cstr_def path_ok_def host_ok_def)

text \<open>
  C33. A server list file with one line for each of any number of sources, written as the
  documentation says and with any port or settings behind, is read back source by source, when
  reading does not fail and there is memory: a host becomes a ByteBlaster server, a path a
  serial device, a path behind another slash a fifo, a name behind one at sign the message port and
  behind two the raw port of a WX14 receiver, each with its address and port. The list is
  then well formed.
\<close>

theorem server_list_roundtrip:
  assumes "sources \<noteq> []" "\<forall>(s, port) \<in> set sources. source_ok s \<and> token (written s) \<and> token port"
    and "list_env_ok le"
  shows "\<exists>l'. get_server_list (Some (concat (map (\<lambda>(s, port). entry_line (written s, port)) sources))) le tsv_init l = (0, l')
    \<and> es_ok l' \<and> es_max l' = int (length sources) - 1
    \<and> map entry_of (take (length sources) (server l')) =
        map (\<lambda>(s, port). (fst (source_entry s), Some (snd (source_entry s)), Some port)) sources"
proof -
  let ?l = "l\<lparr>server := [], es_current := 0, es_max := -1, refused_connections := 0\<rparr>"
  let ?es = "map (\<lambda>(s, port). (written s, port)) sources"
  have tok: "\<forall>e \<in> set ?es. token (fst e) \<and> token (snd e) \<and> hd (fst e) \<noteq> 35"
    using assms(2) written_not_comment by fastforce
  have lines: "map entry_line ?es = map (\<lambda>(s, port). entry_line (written s, port)) sources"
    by (simp add: case_prod_unfold)
  have vals: "map entry_value ?es = map (\<lambda>(s, port). (fst (source_entry s), Some (snd (source_entry s)), Some port)) sources"
    using assms(2) server_entry_written by (fastforce simp: entry_value_def)
  obtain l' where "server_list_loop le tsv_init (concat (map entry_line ?es)) 0 ?l = (0, l')"
    "es_max l' = int (0 + length ?es) - 1" "0 + length ?es < length (server l')"
    "es_current l' = 0" "refused_connections l' = 0"
    "map entry_of (take (0 + length ?es) (server l')) = map entry_of (take 0 (server ?l)) @ map entry_value ?es"
    using server_list_loop_entries [OF tok, of tsv_init 0 ?l le] assms(3) by (auto simp: tsv_init_def)
  with assms(1) show ?thesis
    unfolding lines vals by (cases sources) (auto simp: get_server_list_def es_ok_def)
qed

theorem server_list_roundtrip_witness:
  "\<exists>l'. get_server_list (Some (cstr ''//var/infeed.fifo 0664'' @ [10] @ cstr ''@@10.0.0.5 1300'' @ [10])) list_env0 tsv_init es_list_init = (0, l')
    \<and> map entry_of (take 2 (server l')) =
       [(EMWIN_SERVER_TYPE_INFEED, Some (cstr ''/var/infeed.fifo''), Some (cstr ''0664'')),
        (EMWIN_SERVER_TYPE_WX14_RAW, Some (cstr ''10.0.0.5''), Some (cstr ''1300''))]"
proof -
  let ?s = "[(Fifo (cstr ''/var/infeed.fifo''), cstr ''0664''), (Wx14_raw (cstr ''10.0.0.5''), cstr ''1300'')]"
  have "\<forall>(s, port) \<in> set ?s. source_ok s \<and> token (written s) \<and> token port"
    by (simp add: token_def cstr_def isspace_def path_ok_def host_ok_def)
  moreover have "concat (map (\<lambda>(s, port). entry_line (written s, port)) ?s) =
      cstr ''//var/infeed.fifo 0664'' @ [10] @ cstr ''@@10.0.0.5 1300'' @ [10]"
    by (simp add: entry_line_def cstr_def)
  ultimately show ?thesis
    using server_list_roundtrip [of ?s list_env0 es_list_init] by (auto simp: numeral_2_eq_2)
qed

definition error_total :: "emwin_server_stats_st \<Rightarrow> int" where
  "error_total st = serverread_errors st + serverclosed_errors st + header_errors st + checksum_errors st
     + filename_errors st + unknown_errors st"

text \<open>
  C34. The bookkeeping that makes a bad server lose its turn: a good packet never adds a mark,
  every error is counted in exactly one class and adds a mark when fewer than the minimum of
  packets came in a row, and a server whose marks reach the limit is left at the next choice,
  with its descriptor closed.
\<close>

theorem bad_server_is_left:
  assumes "es_ok l" "es = get_current_server l"
    and "l' = update_emwin_server_stats min_packets status l" "es' = get_current_server l'"
  shows "es_ok l'
    \<and> (status = 0 \<longrightarrow> bad_packet_count (es_stats es') \<in> {0, bad_packet_count (es_stats es)}
         \<and> total_packets (es_stats es') = total_packets (es_stats es) + 1
         \<and> error_total (es_stats es') = error_total (es_stats es))
    \<and> (status \<noteq> 0 \<longrightarrow> error_total (es_stats es') = error_total (es_stats es) + 1
         \<and> bad_packet_count (es_stats es') = bad_packet_count (es_stats es)
              + (if consecutive_packets (es_stats es) < min_packets then 1 else 0))
    \<and> (0 < mb \<and> bad_packet_count (es_stats es') = mb \<and> connect (es_stats es') \<noteq> 0 \<and> es_fd es' \<ge> 0 \<longrightarrow>
         es_current (fst (select_server now mb l')) = next_current l'
         \<and> snd (select_server now mb l') = [es_fd es'])"
proof (intro conjI impI)
  have cur: "es_current l < length (server l)" using assms(1) by (auto simp: es_ok_def)
  show "es_ok l'" using assms(1,3) by (simp add: update_emwin_server_stats_def Let_def es_ok_def)
  have es': "es_stats es' = es_stats (get_current_server (update_emwin_server_stats min_packets status l))"
    using assms(3,4) by simp
  show "bad_packet_count (es_stats es') \<in> {0, bad_packet_count (es_stats es)}"
    "total_packets (es_stats es') = total_packets (es_stats es) + 1"
    "error_total (es_stats es') = error_total (es_stats es)" if "status = 0"
    using cur assms(2) that by (simp_all add: es' update_emwin_server_stats_def Let_def error_total_def)
  show "error_total (es_stats es') = error_total (es_stats es) + 1"
    "bad_packet_count (es_stats es') = bad_packet_count (es_stats es)
       + (if consecutive_packets (es_stats es) < min_packets then 1 else 0)" if "status \<noteq> 0"
    using cur assms(2) that by (simp_all add: es' update_emwin_server_stats_def Let_def error_total_def)
  assume "0 < mb \<and> bad_packet_count (es_stats es') = mb \<and> connect (es_stats es') \<noteq> 0 \<and> es_fd es' \<ge> 0"
  then show "es_current (fst (select_server now mb l')) = next_current l'"
    "snd (select_server now mb l') = [es_fd es']"
    using assms(4) by (auto simp: select_server_def switch_server_def close_server_def Let_def)
qed

theorem bad_server_is_left_witness:
  "bad_packet_count (es_stats (get_current_server (update_emwin_server_stats 10 3 two_servers))) = 1"
  using bad_server_is_left [where l = two_servers and es = "get_current_server two_servers" and status = 3
      and min_packets = 10 and l' = "update_emwin_server_stats 10 3 two_servers"
      and es' = "get_current_server (update_emwin_server_stats 10 3 two_servers)" and mb = 0 and now = 0]
  by (simp add: two_servers_def es_ok_def get_current_server_def raw_server_def zero_stats_def)

end
