(* ===== verification/Wx14.thy ===== *)
theory Wx14
  imports Nreadn "HOL-Library.Monad_Syntax"
begin

text \<open>
  \<open>src/wx14.h\<close>, \<open>wx14_private.c\<close>, \<open>wx14_emwin.c\<close>, \<open>wx14_ss.c\<close>, \<open>wx14.c\<close>, \<open>wx14_init.c\<close>:
  the reader for the WX14 satellite receiver. It sends messages with a five-byte header; the
  payloads of the EMWIN messages are the pieces of the packets (blocks), which are put together
  here. The buffers of \<open>struct wx14_msg_st\<close> keep their sizes, and a copy that does not fit in
  its buffer is the value \<open>None\<close>. The clock is a function of the channel: it may give any
  time at each call.
\<close>

section \<open>The message structure\<close>

definition WX14_ERROR_INVALID_HEADER :: int where "WX14_ERROR_INVALID_HEADER = 1"
definition WX14_ERROR_UNEXPECTED_MSGTYPE :: int where "WX14_ERROR_UNEXPECTED_MSGTYPE = 3"
definition WX14_ERROR_READ_TIMEOUT :: int where "WX14_ERROR_READ_TIMEOUT = 4"
definition WX14_ERROR_READ_EOF :: int where "WX14_ERROR_READ_EOF = 5"
definition WX14_ERROR_READ_SHORT :: int where "WX14_ERROR_READ_SHORT = 6"
definition WX14_ERROR_EMWIN_BUF :: int where "WX14_ERROR_EMWIN_BUF = 7"
definition WX14_ERROR_EMWIN_INCOMPLETEBLOCK :: int where "WX14_ERROR_EMWIN_INCOMPLETEBLOCK = 9"
definition WX14_HEADER_SIZE :: nat where "WX14_HEADER_SIZE = 5"
definition EMWIN_BLOCK_SIZE :: nat where "EMWIN_BLOCK_SIZE = 1116"
definition WX14_MESSAGE_MAXSIZE :: nat where "WX14_MESSAGE_MAXSIZE = WX14_HEADER_SIZE + EMWIN_BLOCK_SIZE"
definition WX14_MSG_EMWIN :: nat where "WX14_MSG_EMWIN = 0x0b"
definition WX14_MSG_SIGNAL_STATUS :: nat where "WX14_MSG_SIGNAL_STATUS = 0x1b"

lemmas wx14_consts = WX14_ERROR_INVALID_HEADER_def WX14_ERROR_UNEXPECTED_MSGTYPE_def
  WX14_ERROR_READ_TIMEOUT_def WX14_ERROR_READ_EOF_def WX14_ERROR_READ_SHORT_def
  WX14_ERROR_EMWIN_BUF_def WX14_ERROR_EMWIN_INCOMPLETEBLOCK_def WX14_HEADER_SIZE_def
  EMWIN_BLOCK_SIZE_def WX14_MESSAGE_MAXSIZE_def WX14_MSG_EMWIN_def WX14_MSG_SIGNAL_STATUS_def

record wx14_signalstatus_st =
  f_freq :: bool
  f_viterbi :: bool
  f_frame :: bool
  f_mode :: bool
  level :: nat
  data_quality :: nat
  gain :: nat
  signal_quality :: nat
  loss_frame :: nat
  freq_error :: nat
  unixseconds :: nat
  unixseconds_lastlog :: nat

text \<open>\<open>data_set\<close> says that the pointer \<open>data\<close> is \<open>&message[5]\<close>; otherwise it is \<open>NULL\<close>.\<close>

record wx14_msg_st =
  message :: "byte list"
  msg_type :: nat
  dataN :: nat
  data_set :: bool
  emwin_block_index :: int
  emwin_block :: "byte list"
  emwin_block_size :: nat
  emwin_block_part :: "byte list"
  emwin_block_part_size :: nat
  wx14ss :: wx14_signalstatus_st

text \<open>The payload, the \<open>dataN\<close> bytes from \<open>message[5]\<close> on.\<close>

definition wx14_data :: "wx14_msg_st \<Rightarrow> byte list" where
  "wx14_data m = take (dataN m) (drop 5 (message m))"

definition wx14_init :: "wx14_msg_st \<Rightarrow> wx14_msg_st" where
  "wx14_init m = m\<lparr>emwin_block_index := 0,
     wx14ss := (wx14ss m)\<lparr>unixseconds := 0, unixseconds_lastlog := 0\<rparr>\<rparr>"

section \<open>Reading a message\<close>

text \<open>The status, the bytes stored, and the channel.\<close>

definition wx14_readn :: "nat \<Rightarrow> int \<Rightarrow> chan \<Rightarrow> int \<times> byte list \<times> chan" where
  "wx14_readn sz retry c =
     (case readn sz retry c of
        (n, bs, c) \<Rightarrow>
          ((if n = -1 then -1 else if n = -2 then WX14_ERROR_READ_TIMEOUT
            else if n = 0 then WX14_ERROR_READ_EOF
            else if n \<noteq> int sz then WX14_ERROR_READ_SHORT else 0), bs, c))"

text \<open>\<open>--dataN\<close> on an unsigned 64-bit value.\<close>

definition decr_size :: "nat \<Rightarrow> nat" where
  "decr_size n = (n + 2 ^ 64 - 1) mod 2 ^ 64"

definition wx14_read_msg_header ::
  "int \<Rightarrow> chan \<Rightarrow> wx14_msg_st \<Rightarrow> int \<times> wx14_msg_st \<times> chan" where
  "wx14_read_msg_header retry c m =
     (case wx14_readn WX14_HEADER_SIZE retry c of
        (status, bs, c) \<Rightarrow>
          let m = m\<lparr>message := memcpy_at (message m) 0 bs\<rparr>;
              status = (if status = 0 \<and> (message m ! 0 \<noteq> 0xbb \<or> message m ! 1 \<noteq> 0xd2)
                        then WX14_ERROR_INVALID_HEADER else status);
              m = (if status = 0
                   then m\<lparr>msg_type := unat (message m ! 4),
                          dataN := unat (message m ! 2) * 256 + unat (message m ! 3)\<rparr> else m);
              m = (if msg_type m = WX14_MSG_EMWIN then m\<lparr>dataN := decr_size (dataN m)\<rparr> else m)
          in (status, m, c))"

definition wx14_read_msg_data ::
  "int \<Rightarrow> chan \<Rightarrow> wx14_msg_st \<Rightarrow> (int \<times> wx14_msg_st \<times> chan) option" where
  "wx14_read_msg_data retry c m =
     (case wx14_readn (dataN m) retry c of
        (status, bs, c) \<Rightarrow>
          if 5 + length bs > length (message m) then None
          else Some (status, m\<lparr>message := memcpy_at (message m) 5 bs, data_set := (status = 0)\<rparr>, c))"

definition wx14_read_msg ::
  "int \<Rightarrow> chan \<Rightarrow> wx14_msg_st \<Rightarrow> (int \<times> wx14_msg_st \<times> chan) option" where
  "wx14_read_msg retry c m =
     (case wx14_read_msg_header retry c m of
        (status, m, c) \<Rightarrow> if status = 0 then wx14_read_msg_data retry c m else Some (status, m, c))"

definition wx14_read1_data_msg ::
  "int \<Rightarrow> chan \<Rightarrow> wx14_msg_st \<Rightarrow> (int \<times> wx14_msg_st \<times> chan) option" where
  "wx14_read1_data_msg retry c m =
     (case wx14_read_msg retry c m of
        None \<Rightarrow> None
      | Some (status, m, c) \<Rightarrow>
          Some (if status \<noteq> 0 then status
                else if msg_type m \<noteq> WX14_MSG_EMWIN \<and> msg_type m \<noteq> WX14_MSG_SIGNAL_STATUS
                then WX14_ERROR_UNEXPECTED_MSGTYPE else status, m, c))"

section \<open>Signal status\<close>

definition wx14_signalstatus_process :: "nat \<Rightarrow> wx14_msg_st \<Rightarrow> wx14_msg_st" where
  "wx14_signalstatus_process now m =
     (let d = (\<lambda>i. message m ! (5 + i)) in
      m\<lparr>wx14ss := (wx14ss m)\<lparr>unixseconds := now,
          f_freq := (d 0 AND 1 \<noteq> 0), f_viterbi := (d 0 AND 2 \<noteq> 0),
          f_frame := (d 0 AND 4 \<noteq> 0), f_mode := (d 0 AND 8 \<noteq> 0),
          level := unat (d 1), data_quality := unat (d 3) * 256 + unat (d 2),
          gain := unat (d 4), signal_quality := unat (d 5), loss_frame := unat (d 6),
          freq_error := unat (d 7)\<rparr>\<rparr>)"

text \<open>
  The line that \<open>wx14_signalstatus_fprintf\<close> writes; the status and the line when it is
  written, for the log file (\<open>"a"\<close>) and the status file (\<open>"w"\<close>). Opening, writing or closing
  the file may fail.
\<close>

definition wx14_signalstatus_fprintf :: "bool \<Rightarrow> wx14_msg_st \<Rightarrow> int \<times> byte list" where
  "wx14_signalstatus_fprintf io_ok m =
     (let s = wx14ss m; b = (\<lambda>p. if p then 1 else 0 :: nat) in
      if \<not> io_ok then (-1, [])
      else (0, concat (map (\<lambda>v. dec v @ [32])
                 [unixseconds s, b (f_freq s), b (f_viterbi s), b (f_frame s), b (f_mode s), level s,
                  data_quality s, gain s, signal_quality s, loss_frame s])
               @ dec (freq_error s) @ [10]))"

definition wx14_signalstatus_log :: "bool \<Rightarrow> wx14_msg_st \<Rightarrow> int \<times> wx14_msg_st \<times> byte list" where
  "wx14_signalstatus_log io_ok m =
     (if unixseconds_lastlog (wx14ss m) = unixseconds (wx14ss m) then (0, m, [])
      else case wx14_signalstatus_fprintf io_ok m of
          (status, line) \<Rightarrow>
            (status,
             if status = 0 then m\<lparr>wx14ss := (wx14ss m)\<lparr>unixseconds_lastlog := unixseconds (wx14ss m)\<rparr>\<rparr>
             else m, line))"

definition wx14_signalstatus_write :: "bool \<Rightarrow> wx14_msg_st \<Rightarrow> int \<times> byte list" where
  "wx14_signalstatus_write io_ok m =
     (if unixseconds_lastlog (wx14ss m) = unixseconds (wx14ss m) then (0, [])
      else wx14_signalstatus_fprintf io_ok m)"

section \<open>Reading until an EMWIN message\<close>

lemma wx14_readn_pending:
  "wx14_readn sz retry c = (status, bs, c') \<Longrightarrow>
     pending c = bs @ pending c' \<and> (status = 0 \<longrightarrow> length bs = sz \<and> 0 < sz)"
  by (auto simp: wx14_readn_def wx14_consts split: prod.splits if_splits
      dest: rdn.conserve rdn.outcome)

lemma wx14_read1_data_msg_pending:
  assumes "wx14_read1_data_msg retry c m = Some (0, m', c')"
  shows "length (pending c') < length (pending c)"
  using assms
  by (auto simp: wx14_read1_data_msg_def wx14_read_msg_def wx14_read_msg_header_def wx14_read_msg_data_def
      Let_def wx14_consts split: prod.splits if_splits option.splits dest!: wx14_readn_pending)

function wx14_read1_data_msg_emwin ::
  "int \<Rightarrow> (chan \<Rightarrow> nat) \<Rightarrow> chan \<Rightarrow> wx14_msg_st \<Rightarrow> (int \<times> wx14_msg_st \<times> chan) option" where
  "wx14_read1_data_msg_emwin retry clk c m =
     (case wx14_read1_data_msg retry c m of
        None \<Rightarrow> None
      | Some (status, m', c') \<Rightarrow>
          if status \<noteq> 0 \<or> msg_type m' = WX14_MSG_EMWIN then Some (status, m', c')
          else wx14_read1_data_msg_emwin retry clk c' (wx14_signalstatus_process (clk c') m'))"
  by pat_completeness auto
termination
  by (relation "measure (\<lambda>(retry, clk, c, m). length (pending c))")
     (auto dest: wx14_read1_data_msg_pending)

declare wx14_read1_data_msg_emwin.simps [simp del]

text \<open>
  The two functions of \<open>wx14.c\<close> that copy a message to the caller; \<open>m0\<close> is the local
  structure, which is not initialised, and \<open>size\<close> the room. The second one looks at the
  message even when the read failed: it then copies from a null pointer.
\<close>

definition wx14_read_data_msg ::
  "int \<Rightarrow> chan \<Rightarrow> wx14_msg_st \<Rightarrow> nat \<Rightarrow> (int \<times> (nat \<times> byte list) option \<times> chan) option" where
  "wx14_read_data_msg retry c m0 room =
     (case wx14_read1_data_msg retry c m0 of
        None \<Rightarrow> None
      | Some (status, m, c) \<Rightarrow>
          if status \<noteq> 0 then Some (status, None, c)
          else if room < dataN m then Some (WX14_ERROR_EMWIN_BUF, None, c)
          else Some (status, Some (msg_type m, wx14_data m), c))"

definition wx14_read_data_msg_emwin ::
  "int \<Rightarrow> (chan \<Rightarrow> nat) \<Rightarrow> chan \<Rightarrow> wx14_msg_st \<Rightarrow> nat \<Rightarrow> (int \<times> byte list option \<times> chan) option" where
  "wx14_read_data_msg_emwin retry clk c m0 room =
     (case wx14_read1_data_msg_emwin retry clk c m0 of
        None \<Rightarrow> None
      | Some (status, m, c) \<Rightarrow>
          if room < dataN m then Some (WX14_ERROR_EMWIN_BUF, None, c)
          else if \<not> data_set m then None
          else Some (status, Some (wx14_data m), c))"

definition wx14_is_emwin_msg :: "wx14_msg_st \<Rightarrow> bool" where
  "wx14_is_emwin_msg m = (msg_type m = WX14_MSG_EMWIN)"

definition wx14_is_signalstatus_msg :: "wx14_msg_st \<Rightarrow> bool" where
  "wx14_is_signalstatus_msg m = (msg_type m = WX14_MSG_SIGNAL_STATUS)"

section \<open>Putting blocks together\<close>

text \<open>The first place where a pattern occurs; \<open>i\<close> counts the bytes passed.\<close>

fun find_pat :: "byte list \<Rightarrow> nat \<Rightarrow> byte list \<Rightarrow> nat option" where
  "find_pat pat i [] = (if pat = [] then Some i else None)"
| "find_pat pat i (b # bs) =
     (if length (b # bs) < length pat then None
      else if take (length pat) (b # bs) = pat then Some i else find_pat pat (Suc i) bs)"

definition block_start :: "byte list \<Rightarrow> nat option" where
  "block_start data =
     (case find_pat (cstr ''/PF'') 0 data of
        Some i \<Rightarrow> Some i
      | None \<Rightarrow> find_pat [0, 0, 0, 0, 0, 0, 47] 6 data)"

definition find_emwin_block_start :: "wx14_msg_st \<Rightarrow> bool \<times> wx14_msg_st" where
  "find_emwin_block_start m =
     (case block_start (wx14_data m) of
        Some i \<Rightarrow> (True, m\<lparr>emwin_block_index := int i\<rparr>)
      | None \<Rightarrow> (False, m))"

definition start_emwin_block :: "wx14_msg_st \<Rightarrow> wx14_msg_st option" where
  "start_emwin_block m =
     (let tail = drop (nat (emwin_block_index m)) (wx14_data m);
          part = replicate EMWIN_BLOCK_SIZE 0 @ drop EMWIN_BLOCK_SIZE (emwin_block_part m)
      in if 6 + length tail > length part then None
         else Some (m\<lparr>emwin_block_part := memcpy_at part 6 tail,
                      emwin_block_part_size := length tail + 6\<rparr>))"

text \<open>
  The number of bytes missing is computed as an unsigned 64-bit number and stored in an
  \<open>int\<close>: when there are already more than 1116 it is negative.
\<close>

definition find_emwin_block_end :: "wx14_msg_st \<Rightarrow> bool \<times> wx14_msg_st" where
  "find_emwin_block_end m =
     (if emwin_block_part_size m + dataN m < EMWIN_BLOCK_SIZE then (False, m)
      else (True, m\<lparr>emwin_block_index := int EMWIN_BLOCK_SIZE - int (emwin_block_part_size m)\<rparr>))"

definition end_emwin_block :: "wx14_msg_st \<Rightarrow> wx14_msg_st option" where
  "end_emwin_block m =
     (let index = emwin_block_index m; start = emwin_block_part_size m in
      if index < 0 \<or> nat index > dataN m \<or> start + nat index > length (emwin_block_part m)
        \<or> start + nat index > length (emwin_block m)
      then None
      else
        let part = memcpy_at (emwin_block_part m) start (take (nat index) (wx14_data m));
            m = m\<lparr>emwin_block_part := part, emwin_block_part_size := start + nat index,
                  emwin_block := memcpy_at (emwin_block m) 0 (take (start + nat index) part),
                  emwin_block_size := start + nat index\<rparr>
        in case find_emwin_block_start m of
            (found, m) \<Rightarrow> if found then start_emwin_block m else Some m)"

definition append_emwin_block :: "wx14_msg_st \<Rightarrow> wx14_msg_st option" where
  "append_emwin_block m =
     (if emwin_block_part_size m + dataN m > length (emwin_block_part m) then None
      else Some (m\<lparr>emwin_block_part := memcpy_at (emwin_block_part m) (emwin_block_part_size m) (wx14_data m),
                   emwin_block_part_size := emwin_block_part_size m + dataN m\<rparr>))"

lemma wx14_read1_data_msg_emwin_pending:
  "wx14_read1_data_msg_emwin retry clk c m = Some (0, m', c') \<Longrightarrow> length (pending c') < length (pending c)"
proof (induction retry clk c m rule: wx14_read1_data_msg_emwin.induct)
  case (1 retry clk c m)
  obtain st m1 c1 where r: "wx14_read1_data_msg retry c m = Some (st, m1, c1)"
    using "1.prems" by (subst (asm) wx14_read1_data_msg_emwin.simps) (auto split: option.splits)
  show ?case
  proof (cases "st \<noteq> 0 \<or> msg_type m1 = WX14_MSG_EMWIN")
    case True
    with "1.prems" r show ?thesis
      by (subst (asm) wx14_read1_data_msg_emwin.simps) (auto dest: wx14_read1_data_msg_pending)
  next
    case False
    then have "wx14_read1_data_msg_emwin retry clk c m =
        wx14_read1_data_msg_emwin retry clk c1 (wx14_signalstatus_process (clk c1) m1)"
      by (subst wx14_read1_data_msg_emwin.simps) (simp add: r)
    with "1.IH" [OF r refl refl False] "1.prems" False r show ?thesis
      using wx14_read1_data_msg_pending [of retry c m m1 c1] by simp
  qed
qed

function init_emwin_block_loop ::
  "int \<Rightarrow> (chan \<Rightarrow> nat) \<Rightarrow> chan \<Rightarrow> wx14_msg_st \<Rightarrow> (int \<times> wx14_msg_st \<times> chan) option" where
  "init_emwin_block_loop retry clk c m =
     (case wx14_read1_data_msg_emwin retry clk c m of
        None \<Rightarrow> None
      | Some (status, m', c') \<Rightarrow>
          if status \<noteq> 0 then Some (status, m', c')
          else case find_emwin_block_start m' of
              (True, m'') \<Rightarrow> map_option (\<lambda>m. (status, m, c')) (start_emwin_block m'')
            | (False, m'') \<Rightarrow> init_emwin_block_loop retry clk c' m'')"
  by pat_completeness auto
termination
  by (relation "measure (\<lambda>(retry, clk, c, m). length (pending c))")
     (auto dest: wx14_read1_data_msg_emwin_pending)

declare init_emwin_block_loop.simps [simp del]

definition wx14_init_emwin_block ::
  "int \<Rightarrow> (chan \<Rightarrow> nat) \<Rightarrow> chan \<Rightarrow> wx14_msg_st \<Rightarrow> (int \<times> wx14_msg_st \<times> chan) option" where
  "wx14_init_emwin_block retry clk c m = init_emwin_block_loop retry clk c (m\<lparr>emwin_block_index := 0\<rparr>)"

function wx14_read_emwin_block ::
  "int \<Rightarrow> (chan \<Rightarrow> nat) \<Rightarrow> chan \<Rightarrow> wx14_msg_st \<Rightarrow> (int \<times> wx14_msg_st \<times> chan) option" where
  "wx14_read_emwin_block retry clk c m =
     (case wx14_read1_data_msg_emwin retry clk c m of
        None \<Rightarrow> None
      | Some (status, m', c') \<Rightarrow>
          if status \<noteq> 0 then Some (status, m', c')
          else case find_emwin_block_end m' of
              (True, m'') \<Rightarrow>
                (case end_emwin_block m'' of
                   None \<Rightarrow> None
                 | Some m \<Rightarrow>
                     (case find_emwin_block_start m of
                        (True, m) \<Rightarrow> map_option (\<lambda>m. (status, m, c')) (start_emwin_block m)
                      | (False, m) \<Rightarrow> wx14_init_emwin_block retry clk c' m))
            | (False, m'') \<Rightarrow>
                (case find_emwin_block_start m'' of
                   (True, m) \<Rightarrow> Some (WX14_ERROR_EMWIN_INCOMPLETEBLOCK, m, c')
                 | (False, m) \<Rightarrow>
                     (case append_emwin_block m of
                        None \<Rightarrow> None
                      | Some m \<Rightarrow> wx14_read_emwin_block retry clk c' m)))"
  by pat_completeness auto
termination
  by (relation "measure (\<lambda>(retry, clk, c, m). length (pending c))")
     (auto dest: wx14_read1_data_msg_emwin_pending)

declare wx14_read_emwin_block.simps [simp del]

definition wx14_get_emwin_block :: "wx14_msg_st \<Rightarrow> byte list" where
  "wx14_get_emwin_block m = emwin_block m"

definition wx14_memcpy_emwin_block :: "nat \<Rightarrow> wx14_msg_st \<Rightarrow> int \<times> byte list" where
  "wx14_memcpy_emwin_block room m =
     (if room < emwin_block_size m then (WX14_ERROR_EMWIN_BUF, [])
      else (0, take (emwin_block_size m) (emwin_block m)))"

section \<open>Correctness of the reassembly\<close>

text \<open>The buffers have their sizes, and there is room for the block being put together.\<close>

definition wx14_ok :: "wx14_msg_st \<Rightarrow> bool" where
  "wx14_ok m \<longleftrightarrow> length (message m) = 1121 \<and> length (emwin_block m) = 1116
     \<and> length (emwin_block_part m) = 1122 \<and> emwin_block_part_size m \<le> 1116"

text \<open>What there is of the current block, and an EMWIN message as the receiver sends it.\<close>

definition collected :: "wx14_msg_st \<Rightarrow> byte list" where
  "collected m = take (emwin_block_part_size m) (emwin_block_part m)"

definition emwin_msg :: "byte list \<Rightarrow> byte list" where
  "emwin_msg d = [0xbb, 0xd2, of_nat (Suc (length d) div 256), of_nat (Suc (length d) mod 256), 0x0b] @ d"

lemma wx14_readn_deliver:
  assumes "flowing retry c" "pending c = blk @ rest" "blk \<noteq> []"
  shows "\<exists>c'. wx14_readn (length blk) retry c = (0, blk, c') \<and> flowing retry c' \<and> pending c' = rest"
proof -
  obtain c' where "readn (length blk) retry c = (int (length blk), blk, c')" "flowing retry c'" "pending c' = rest"
    using rdn.deliver_block [OF assms(1,2)] by blast
  with assms(3) show ?thesis by (simp add: wx14_readn_def)
qed

lemma wx14_read_emwin_msg:
  assumes "flowing retry c" "pending c = emwin_msg d @ rest" "d \<noteq> []" "length d \<le> 1116" "length (message m) = 1121"
  shows "\<exists>c' msg. wx14_read1_data_msg_emwin retry clk c m =
      Some (0, m\<lparr>message := msg, msg_type := WX14_MSG_EMWIN, dataN := length d, data_set := True\<rparr>, c')
    \<and> length msg = 1121 \<and> take (length d) (drop 5 msg) = d \<and> flowing retry c' \<and> pending c' = rest"
proof -
  let ?n = "Suc (length d)"
  let ?hdr = "[0xbb, 0xd2, of_nat (?n div 256), of_nat (?n mod 256), 0x0b] :: byte list"
  have "pending c = ?hdr @ (d @ rest)" using assms(2) by (simp add: emwin_msg_def)
  moreover have five: "length ?hdr = 5" by simp
  ultimately obtain c1 where
    c1: "wx14_readn 5 retry c = (0, ?hdr, c1)" "flowing retry c1" "pending c1 = d @ rest"
    using wx14_readn_deliver [OF assms(1), of ?hdr "d @ rest"] unfolding five by blast
  from wx14_readn_deliver [OF c1(2,3) assms(3)] obtain c2 where
    c2: "wx14_readn (length d) retry c1 = (0, d, c2)" "flowing retry c2" "pending c2 = rest" by auto
  have size: "unat (of_nat (?n div 256) :: byte) * 256 + unat (of_nat (?n mod 256) :: byte) = ?n"
    using assms(4) by (simp add: unat_of_nat)
  have decr: "decr_size ?n = length d" using assms(4) by (simp add: decr_size_def)
  let ?m1 = "m\<lparr>message := memcpy_at (message m) 0 ?hdr, msg_type := WX14_MSG_EMWIN, dataN := length d\<rparr>"
  have h: "wx14_read_msg_header retry c m = (0, ?m1, c1)"
    using c1(1) size decr
    by (simp add: wx14_read_msg_header_def Let_def memcpy_at_def wx14_consts)
  let ?msg = "memcpy_at (memcpy_at (message m) 0 ?hdr) 5 d"
  have "wx14_read1_data_msg retry c m =
      Some (0, m\<lparr>message := ?msg, msg_type := WX14_MSG_EMWIN, dataN := length d, data_set := True\<rparr>, c2)"
    using h c2(1) assms(4,5)
    by (simp add: wx14_read1_data_msg_def wx14_read_msg_def wx14_read_msg_data_def wx14_consts)
  moreover have "length ?msg = 1121" "take (length d) (drop 5 ?msg) = d"
    using assms(4,5) by simp_all
  ultimately show ?thesis
    using c2(2,3) by (subst wx14_read1_data_msg_emwin.simps) auto
qed

text \<open>A piece that neither completes the block nor starts one is appended.\<close>

lemma append_emwin_block_ok:
  assumes "wx14_ok m" "emwin_block_part_size m + dataN m < 1116" "length (wx14_data m) = dataN m"
  obtains m' where "append_emwin_block m = Some m'" "wx14_ok m'" "collected m' = collected m @ wx14_data m"
    "emwin_block_part_size m' = emwin_block_part_size m + dataN m"
  using assms
  by (auto simp: append_emwin_block_def wx14_ok_def collected_def memcpy_at_def min_def take_Cons')

text \<open>A start mark opens a new block: six zero bytes and the payload from the mark on.\<close>

lemma start_emwin_block_ok:
  assumes "wx14_ok m" "emwin_block_index m = int i" "length (wx14_data m) \<le> 1110 + i"
  obtains m' where "start_emwin_block m = Some m'" "wx14_ok m'"
    "collected m' = replicate 6 0 @ drop i (wx14_data m)" "emwin_block m' = emwin_block m"
    "emwin_block_size m' = emwin_block_size m" "message m' = message m" "dataN m' = dataN m"
proof -
  let ?part = "replicate 6 0 @ drop i (wx14_data m) @ drop (length (drop i (wx14_data m))) (replicate 1110 0 @ drop 1116 (emwin_block_part m))"
  let ?m' = "m\<lparr>emwin_block_part := ?part, emwin_block_part_size := length (drop i (wx14_data m)) + 6\<rparr>"
  have "start_emwin_block m = Some ?m'"
    using assms by (simp add: start_emwin_block_def wx14_ok_def memcpy_at_def Let_def EMWIN_BLOCK_SIZE_def)
  moreover have "wx14_ok ?m'" "collected ?m' = replicate 6 0 @ drop i (wx14_data m)"
    using assms by (auto simp: wx14_ok_def collected_def)
  ultimately show thesis by (intro that [of ?m']) simp_all
qed

lemma wx14_data_cong: "message m = message m' \<Longrightarrow> dataN m = dataN m' \<Longrightarrow> wx14_data m = wx14_data m'"
  by (simp add: wx14_data_def)

lemma length_collected [simp]: "wx14_ok m \<Longrightarrow> length (collected m) = emwin_block_part_size m"
  by (simp add: wx14_ok_def collected_def)

text \<open>A piece that completes the block and starts the next one.\<close>

lemma end_emwin_block_ok:
  assumes "wx14_ok m" "emwin_block_index m = 1116 - int (emwin_block_part_size m)"
    "1116 \<le> emwin_block_part_size m + dataN m" "dataN m \<le> 1110" "length (wx14_data m) = dataN m"
    "block_start (wx14_data m) = Some i"
  obtains m' where "end_emwin_block m = Some m'" "wx14_ok m'" "wx14_data m' = wx14_data m" "dataN m' = dataN m"
    "emwin_block m' = take 1116 (collected m @ wx14_data m)" "emwin_block_size m' = 1116"
proof -
  let ?ps = "emwin_block_part_size m" and ?d = "wx14_data m"
  let ?part = "memcpy_at (emwin_block_part m) ?ps (take (1116 - ?ps) ?d)"
  let ?m1 = "m\<lparr>emwin_block_part := ?part, emwin_block_part_size := 1116,
      emwin_block := memcpy_at (emwin_block m) 0 (take 1116 ?part), emwin_block_size := 1116\<rparr>"
  let ?m2 = "?m1\<lparr>emwin_block_index := int i\<rparr>"
  have ps: "?ps \<le> 1116" "length (emwin_block_part m) = 1122" "length (emwin_block m) = 1116"
    using assms(1) by (auto simp: wx14_ok_def)
  have idx: "nat (1116 - int ?ps) = 1116 - ?ps" "?ps + (1116 - ?ps) = 1116" using ps by auto
  have plen: "length ?part = 1122" using ps assms(3,5) by simp
  have block: "take 1116 ?part = take 1116 (collected m @ ?d)"
    using ps assms(3,5) by (simp add: memcpy_at_def collected_def)
  have full: "memcpy_at (emwin_block m) 0 (take 1116 ?part) = take 1116 ?part"
    using ps plen by (simp add: memcpy_at_def)
  have d: "wx14_data ?m1 = ?d" "wx14_data ?m2 = ?d" by (rule wx14_data_cong; simp)+
  have start: "find_emwin_block_start ?m1 = (True, ?m2)" using assms(6) d by (simp add: find_emwin_block_start_def)
  have e: "end_emwin_block m = start_emwin_block ?m2"
    using assms(2,3) ps idx start by (simp add: end_emwin_block_def Let_def)
  have ok: "wx14_ok ?m2" using assms(1) plen full by (simp add: wx14_ok_def)
  have "length (wx14_data ?m2) \<le> 1110 + i" using assms(4,5) d by simp
  then obtain m' where m': "start_emwin_block ?m2 = Some m'" "wx14_ok m'" "emwin_block m' = emwin_block ?m2"
      "emwin_block_size m' = emwin_block_size ?m2" "message m' = message ?m2" "dataN m' = dataN ?m2"
    using start_emwin_block_ok [OF ok, of i] by auto
  have "wx14_data m' = ?d" using m'(5,6) by (simp add: wx14_data_def)
  moreover have "emwin_block m' = take 1116 (collected m @ ?d)" using m'(3) full block by simp
  ultimately show thesis using m' e by (intro that [of m']) simp_all
qed

lemma wx14_read_emwin_block_end:
  assumes "wx14_ok m" "flowing retry c" "pending c = emwin_msg d @ rest" "d \<noteq> []" "length d \<le> 1110"
    "1116 \<le> emwin_block_part_size m + length d" "block_start d = Some i"
  shows "\<exists>m' c'. wx14_read_emwin_block retry clk c m = Some (0, m', c') \<and> wx14_ok m'
    \<and> take (emwin_block_size m') (emwin_block m') = take 1116 (collected m @ d) \<and> emwin_block_size m' = 1116
    \<and> collected m' = replicate 6 0 @ drop i d \<and> flowing retry c' \<and> pending c' = rest"
proof -
  obtain c' msg where r: "wx14_read1_data_msg_emwin retry clk c m =
      Some (0, m\<lparr>message := msg, msg_type := WX14_MSG_EMWIN, dataN := length d, data_set := True\<rparr>, c')"
      "length msg = 1121" "take (length d) (drop 5 msg) = d" "flowing retry c'" "pending c' = rest"
    using wx14_read_emwin_msg [OF assms(2-4), of m clk] assms(1,5) by (auto simp: wx14_ok_def)
  define m1 where "m1 = m\<lparr>message := msg, msg_type := WX14_MSG_EMWIN, dataN := length d, data_set := True,
      emwin_block_index := 1116 - int (emwin_block_part_size m)\<rparr>"
  have d: "wx14_data m1 = d" using r(3) by (simp add: m1_def wx14_data_def)
  have ok: "wx14_ok m1" using assms(1) r(2) by (simp add: m1_def wx14_ok_def)
  have col: "collected m1 = collected m" by (simp add: m1_def collected_def)
  obtain m2 where m2: "end_emwin_block m1 = Some m2" "wx14_ok m2" "wx14_data m2 = d" "dataN m2 = length d"
      "emwin_block m2 = take 1116 (collected m @ d)" "emwin_block_size m2 = 1116"
    by (rule end_emwin_block_ok [OF ok, of i]) (use assms d col in \<open>simp_all add: m1_def\<close>)
  let ?m3 = "m2\<lparr>emwin_block_index := int i\<rparr>"
  have d3: "wx14_data ?m3 = d" using m2(3) by (simp add: wx14_data_def)
  have "wx14_ok ?m3" using m2(2) by (simp add: wx14_ok_def)
  then obtain m' where m': "start_emwin_block ?m3 = Some m'" "wx14_ok m'"
      "collected m' = replicate 6 0 @ drop i d" "emwin_block m' = emwin_block m2" "emwin_block_size m' = 1116"
    using start_emwin_block_ok [of ?m3 i] d3 assms(5) m2(6) by auto
  have "find_emwin_block_start m2 = (True, ?m3)" using assms(7) m2(3) by (simp add: find_emwin_block_start_def)
  then have "wx14_read_emwin_block retry clk c m = Some (0, m', c')"
    using r(1) assms(6) m2(1) m'(1)
    by (subst wx14_read_emwin_block.simps) (simp add: find_emwin_block_end_def wx14_consts m1_def)
  moreover have "take (emwin_block_size m') (emwin_block m') = take 1116 (collected m @ d)"
    unfolding m'(4,5) m2(5) by (simp only: take_take min.idem)
  ultimately show ?thesis using m' r(4,5) by blast
qed

lemma wx14_read_emwin_block_append:
  assumes "wx14_ok m" "flowing retry c" "pending c = emwin_msg d @ rest" "d \<noteq> []"
    "emwin_block_part_size m + length d < 1116" "block_start d = None"
  shows "\<exists>m' c'. wx14_read_emwin_block retry clk c m = wx14_read_emwin_block retry clk c' m' \<and> wx14_ok m'
    \<and> collected m' = collected m @ d \<and> flowing retry c' \<and> pending c' = rest"
proof -
  have "length d \<le> 1116" using assms(5) by simp
  from wx14_read_emwin_msg [OF assms(2-4) this, of m clk] assms(1) obtain c' msg where
    r: "wx14_read1_data_msg_emwin retry clk c m =
      Some (0, m\<lparr>message := msg, msg_type := WX14_MSG_EMWIN, dataN := length d, data_set := True\<rparr>, c')"
      "length msg = 1121" "take (length d) (drop 5 msg) = d" "flowing retry c'" "pending c' = rest"
    by (auto simp: wx14_ok_def)
  define m1 where "m1 = m\<lparr>message := msg, msg_type := WX14_MSG_EMWIN, dataN := length d, data_set := True\<rparr>"
  have d: "wx14_data m1 = d" "dataN m1 = length d" using r(3) by (simp_all add: m1_def wx14_data_def)
  have ok: "wx14_ok m1" using assms(1) r(2) by (simp add: m1_def wx14_ok_def)
  have col: "collected m1 = collected m" by (simp add: m1_def collected_def)
  obtain m2 where m2: "append_emwin_block m1 = Some m2" "wx14_ok m2" "collected m2 = collected m @ d"
    using append_emwin_block_ok [OF ok] assms(5) d col by (auto simp: m1_def)
  have "find_emwin_block_start m1 = (False, m1)" "find_emwin_block_end m1 = (False, m1)"
    using assms(5,6) d by (simp_all add: find_emwin_block_start_def find_emwin_block_end_def m1_def wx14_consts)
  then have "wx14_read_emwin_block retry clk c m = wx14_read_emwin_block retry clk c' m2"
    using r(1) m2(1) by (subst wx14_read_emwin_block.simps) (simp add: m1_def)
  then show ?thesis using m2 r(4,5) by auto
qed

text \<open>
  C19. However the receiver cuts the feed into messages, the packets come out whole: if the
  messages that follow each other are pieces of the feed, with no status messages in between, the
  pieces \<open>ds\<close> carry no start mark and do not fill up the current block, and the next piece, of at
  most 1110 bytes, does and carries the start of the next block, then the function returns the
  first 1116 bytes of the block, and has begun the next block with six zero bytes and the
  payload from the mark on.
\<close>

theorem wx14_block_reassembled:
  assumes "wx14_ok m" "flowing retry c"
    and "pending c = concat (map emwin_msg ds) @ emwin_msg d @ rest"
    and "\<forall>p \<in> set ds. p \<noteq> [] \<and> block_start p = None" "block_start d = Some i" "length d \<le> 1110"
    and "length (collected m) + length (concat ds) < 1116"
      "1116 \<le> length (collected m) + length (concat ds) + length d"
  shows "\<exists>m' c'. wx14_read_emwin_block retry clk c m = Some (0, m', c')
    \<and> wx14_memcpy_emwin_block 1116 m' = (0, take 1116 (collected m @ concat ds @ d))
    \<and> collected m' = replicate 6 0 @ drop i d \<and> wx14_ok m' \<and> flowing retry c' \<and> pending c' = rest"
  using assms
proof (induction ds arbitrary: c m)
  case Nil
  then have "d \<noteq> []" by auto
  with Nil wx14_read_emwin_block_end [of m retry c d rest i clk] obtain m' c' where
    "wx14_read_emwin_block retry clk c m = Some (0, m', c')" "wx14_ok m'" "emwin_block_size m' = 1116"
    "take (emwin_block_size m') (emwin_block m') = take 1116 (collected m @ d)"
    "collected m' = replicate 6 0 @ drop i d" "flowing retry c'" "pending c' = rest"
    by auto
  then show ?case by (auto simp: wx14_memcpy_emwin_block_def)
next
  case (Cons p ds)
  have p: "pending c = emwin_msg p @ (concat (map emwin_msg ds) @ emwin_msg d @ rest)" "p \<noteq> []"
    "block_start p = None" "emwin_block_part_size m + length p < 1116"
    using Cons.prems by auto
  obtain m1 c1 where m1: "wx14_read_emwin_block retry clk c m = wx14_read_emwin_block retry clk c1 m1" "wx14_ok m1"
      "collected m1 = collected m @ p" "flowing retry c1"
      "pending c1 = concat (map emwin_msg ds) @ emwin_msg d @ rest"
    using wx14_read_emwin_block_append [OF Cons.prems(1,2) p(1,2,4,3), of clk] by blast
  have len: "length (collected m1) = length (collected m) + length p" by (simp only: m1(3) length_append)
  have "\<exists>m' c'. wx14_read_emwin_block retry clk c1 m1 = Some (0, m', c')
    \<and> wx14_memcpy_emwin_block 1116 m' = (0, take 1116 (collected m1 @ concat ds @ d))
    \<and> collected m' = replicate 6 0 @ drop i d \<and> wx14_ok m' \<and> flowing retry c' \<and> pending c' = rest"
    using Cons.prems(4-8) m1(2,4,5) len by (intro Cons.IH) auto
  then show ?case using m1(1,3) by simp
qed

text \<open>A signal status to evaluate with.\<close>

definition ss0 :: wx14_signalstatus_st where
  "ss0 = \<lparr>f_freq = False, f_viterbi = False, f_frame = False, f_mode = False, level = 0, data_quality = 0, gain = 0,
     signal_quality = 0, loss_frame = 0, freq_error = 0, unixseconds = 0, unixseconds_lastlog = 0\<rparr>"

theorem wx14_block_reassembled_witness:
  "\<exists>m' c'. wx14_read_emwin_block 0 (\<lambda>_. 0)
      \<lparr>ch_rx = [Rx_data (emwin_msg [1, 2] @ emwin_msg ([3, 4, 5, 6] @ cstr ''/PF''))], ch_tx = [], ch_intr = [], ch_out = []\<rparr>
      \<lparr>message = replicate 1121 0, msg_type = 0, dataN = 0, data_set = False, emwin_block_index = 0,
       emwin_block = replicate 1116 0, emwin_block_size = 0, emwin_block_part = replicate 1122 9,
       emwin_block_part_size = 1110, wx14ss = ss0\<rparr> = Some (0, m', c')
    \<and> snd (wx14_memcpy_emwin_block 1116 m') = replicate 1110 9 @ [1, 2, 3, 4, 5, 6]"
proof -
  let ?m = "\<lparr>message = replicate 1121 0, msg_type = 0, dataN = 0, data_set = False, emwin_block_index = 0,
       emwin_block = replicate 1116 0, emwin_block_size = 0, emwin_block_part = replicate 1122 9,
       emwin_block_part_size = 1110, wx14ss = ss0\<rparr>"
  have s: "block_start [1, 2] = None" "block_start ([3, 4, 5, 6] @ cstr ''/PF'') = Some 4" by code_simp+
  have c: "collected ?m = replicate 1110 9" by (simp add: collected_def min_def)
  then have t: "take 1116 (collected ?m @ concat [[1, 2]] @ ([3, 4, 5, 6] @ cstr ''/PF''))
      = replicate 1110 9 @ [1, 2, 3, 4, 5, 6]"
    by (simp add: cstr_def)
  show ?thesis
    using wx14_block_reassembled [where m = ?m and retry = 0 and ds = "[[1, 2]]" and rest = "[]"
        and d = "[3, 4, 5, 6] @ cstr ''/PF''" and i = 4 and clk = "\<lambda>_. 0" and
        c = "\<lparr>ch_rx = [Rx_data (emwin_msg [1, 2] @ emwin_msg ([3, 4, 5, 6] @ cstr ''/PF''))], ch_tx = [], ch_intr = [], ch_out = []\<rparr>"]
      s c unfolding t
    by (auto simp: wx14_ok_def flowing_def pending_def emwin_msg_def cstr_def)
qed

text \<open>
  The size in the header of a message is not checked against the buffer: a message with
  more than 1116 bytes of payload is stored past the end of \<open>message\<close>.
\<close>

theorem wx14_long_message_overflows:
  assumes "flowing retry c" "pending c = emwin_msg d @ rest" "1116 < length d" "length d < 65535" "wx14_ok m"
  shows "wx14_read_emwin_block retry clk c m = None"
proof -
  let ?n = "Suc (length d)"
  let ?hdr = "[0xbb, 0xd2, of_nat (?n div 256), of_nat (?n mod 256), 0x0b] :: byte list"
  have "pending c = ?hdr @ (d @ rest)" using assms(2) by (simp add: emwin_msg_def)
  moreover have five: "length ?hdr = 5" by simp
  ultimately obtain c1 where
    c1: "wx14_readn 5 retry c = (0, ?hdr, c1)" "flowing retry c1" "pending c1 = d @ rest"
    using wx14_readn_deliver [OF assms(1), of ?hdr "d @ rest"] unfolding five by blast
  have "d \<noteq> []" using assms(3) by auto
  from wx14_readn_deliver [OF c1(2,3) this] obtain c2 where c2: "wx14_readn (length d) retry c1 = (0, d, c2)" by auto
  have size: "unat (of_nat (?n div 256) :: byte) * 256 + unat (of_nat (?n mod 256) :: byte) = ?n"
    using assms(4) by (simp add: unat_of_nat less_mult_imp_div_less)
  have decr: "decr_size ?n = length d" using assms(4) by (simp add: decr_size_def)
  have "wx14_read1_data_msg retry c m = None"
    using c1(1) c2 size decr assms(3,5)
    by (simp add: wx14_read1_data_msg_def wx14_read_msg_def wx14_read_msg_header_def wx14_read_msg_data_def
        Let_def memcpy_at_def wx14_consts wx14_ok_def)
  then show ?thesis
    by (subst wx14_read_emwin_block.simps, subst wx14_read1_data_msg_emwin.simps) simp
qed

theorem wx14_long_message_overflows_witness:
  "wx14_read_emwin_block 0 (\<lambda>_. 0)
     \<lparr>ch_rx = [Rx_data (emwin_msg (replicate 2000 7))], ch_tx = [], ch_intr = [], ch_out = []\<rparr>
     \<lparr>message = replicate 1121 0, msg_type = 0, dataN = 0, data_set = False, emwin_block_index = 0,
      emwin_block = replicate 1116 0, emwin_block_size = 0, emwin_block_part = replicate 1122 0,
      emwin_block_part_size = 6, wx14ss = ss0\<rparr> = None"
  by (rule wx14_long_message_overflows [where d = "replicate 2000 7" and rest = "[]"])
     (simp_all add: flowing_def pending_def wx14_ok_def emwin_msg_def)

end
