(* ===== verification/Strsplit.thy ===== *)
theory Strsplit
  imports Npemwin_Prelude
begin

text \<open>
  \<open>src/strsplit.c\<close>, splitting a string at the characters of a delimiter set, and the settings
  parser of \<open>src/ser.c\<close>, which uses it. \<open>sp\<close> is the buffer of the structure, whose
  delimiters \<open>strsep\<close> overwrites with NULs; \<open>argv\<close> are the strings its pointers point to.
  Memory is always available. A failed assertion is \<open>None\<close>.
\<close>

section \<open>Splitting\<close>

record strsplit_st =
  sp :: "byte list"
  argc :: nat
  argv :: "byte list list"

text \<open>The counting loop of \<open>strsplit_recreate\<close>; \<open>inc\<close> is \<open>STRSPLIT_FLAG_INCEMPTY\<close>.\<close>

fun count_fields :: "byte list \<Rightarrow> bool \<Rightarrow> nat \<Rightarrow> nat \<Rightarrow> byte list \<Rightarrow> nat" where
  "count_fields delim inc n b [] = (if b \<noteq> 0 \<or> inc then n + 1 else n)"
| "count_fields delim inc n b (c # cs) =
     (if c \<in> set delim then count_fields delim inc (if b \<noteq> 0 \<or> inc then n + 1 else n) 0 cs
      else count_fields delim inc n (b + 1) cs)"

text \<open>The loop over \<open>strsep\<close>: the strings between the delimiters; at the end, the last one.\<close>

fun strsep_fields :: "byte list \<Rightarrow> byte list \<Rightarrow> byte list \<Rightarrow> byte list list" where
  "strsep_fields delim acc [] = [acc]"
| "strsep_fields delim acc (c # cs) =
     (if c \<in> set delim then acc # strsep_fields delim [] cs else strsep_fields delim (acc @ [c]) cs)"

definition kept_fields :: "byte list \<Rightarrow> bool \<Rightarrow> byte list \<Rightarrow> byte list list" where
  "kept_fields delim inc s = filter (\<lambda>p. p \<noteq> [] \<or> inc) (strsep_fields delim [] s)"

definition strsplit :: "byte list \<Rightarrow> bool \<Rightarrow> strsplit_st \<Rightarrow> strsplit_st option" where
  "strsplit delim inc st =
     (let s = cstring (sp st);
          fs = kept_fields delim inc s;
          sp' = map (\<lambda>c. if c \<in> set delim then 0 else c) s @ drop (length s) (sp st)
      in if argc st = length fs then Some (st\<lparr>sp := sp', argv := fs\<rparr>) else None)"

definition strsplit_init :: "nat \<Rightarrow> byte list \<Rightarrow> strsplit_st" where
  "strsplit_init n s = \<lparr>sp = s @ [0], argc = n, argv = replicate n []\<rparr>"

text \<open>\<open>Some None\<close> is the null pointer returned for an empty string.\<close>

definition strsplit_recreate ::
  "byte list \<Rightarrow> byte list \<Rightarrow> bool \<Rightarrow> strsplit_st option \<Rightarrow> strsplit_st option option" where
  "strsplit_recreate s delim inc strp =
     (if s = [] then Some None
      else
        let n = count_fields delim inc 0 0 s;
            new_strp = (case strp of
                Some st \<Rightarrow> if argc st \<ge> n \<and> length (cstring (sp st)) \<ge> length s then st else strsplit_init n s
              | None \<Rightarrow> strsplit_init n s)
        in map_option Some (strsplit delim inc new_strp))"

definition strsplit_create :: "byte list \<Rightarrow> byte list \<Rightarrow> bool \<Rightarrow> strsplit_st option option" where
  "strsplit_create s delim inc = strsplit_recreate s delim inc None"

section \<open>Serial port settings\<close>

text \<open>Speeds are written by their rate (0 is \<open>B0\<close>), flag words as lists of flags.\<close>

datatype tcflag = PARENB | PARODD | CS5 | CS6 | CS7 | CS8 | CSTOPB | CLOCAL | CREAD

record ser_settings_st =
  speed :: nat
  parity :: "tcflag list"
  bits :: "tcflag list"
  stopbits :: "tcflag list"

definition ser_speed :: "(byte list \<times> nat) list" where
  "ser_speed = map (\<lambda>(s, v). (cstr s, v))
     [(''50'', 50), (''75'', 75), (''110'', 110), (''134'', 134), (''150'', 150), (''200'', 200),
      (''300'', 300), (''600'', 600), (''1200'', 1200), (''1800'', 1800), (''2400'', 2400),
      (''4800'', 4800), (''9600'', 9600), (''19200'', 19200), (''38400'', 38400)]"

definition ser_parity :: "(byte list \<times> tcflag list) list" where
  "ser_parity = map (\<lambda>(s, v). (cstr s, v))
     [(''N'', []), (''n'', []), (''E'', [PARENB]), (''e'', [PARENB]),
      (''O'', [PARENB, PARODD]), (''o'', [PARENB, PARODD])]"

definition ser_bits :: "(byte list \<times> tcflag list) list" where
  "ser_bits = map (\<lambda>(s, v). (cstr s, v)) [(''5'', [CS5]), (''6'', [CS6]), (''7'', [CS7]), (''8'', [CS8])]"

definition ser_stopbits :: "(byte list \<times> tcflag list) list" where
  "ser_stopbits = map (\<lambda>(s, v). (cstr s, v)) [(''1'', []), (''2'', [CSTOPB])]"

fun lookup_tab :: "(byte list \<times> 'v) list \<Rightarrow> 'v \<Rightarrow> byte list \<Rightarrow> 'v" where
  "lookup_tab [] r s = r"
| "lookup_tab ((k, v) # tab) r s = (if s = k then v else lookup_tab tab r s)"

definition str2speed :: "byte list \<Rightarrow> nat" where "str2speed s = lookup_tab ser_speed 0 s"
definition str2parity :: "byte list \<Rightarrow> tcflag list" where "str2parity s = lookup_tab ser_parity [] s"
definition str2bits :: "byte list \<Rightarrow> tcflag list" where "str2bits s = lookup_tab ser_bits [] s"
definition str2stopbits :: "byte list \<Rightarrow> tcflag list" where "str2stopbits s = lookup_tab ser_stopbits [] s"

text \<open>The status and, when it is 0, the settings; \<open>None\<close> would be a failed assertion.\<close>

definition ser_get_settings :: "byte list \<Rightarrow> (int \<times> ser_settings_st option) option" where
  "ser_get_settings str =
     (case strsplit_create str (cstr '','') False of
        None \<Rightarrow> None
      | Some None \<Rightarrow> Some (-1, None)
      | Some (Some strp) \<Rightarrow>
          if argc strp \<noteq> 4 then Some (-2, None)
          else Some (0, Some \<lparr>speed = str2speed (argv strp ! 0), parity = str2parity (argv strp ! 1),
                              bits = str2bits (argv strp ! 2), stopbits = str2stopbits (argv strp ! 3)\<rparr>))"

section \<open>Correctness\<close>

lemma count_fields_strsep:
  "count_fields delim inc n (length acc) s = n + length (filter (\<lambda>p. p \<noteq> [] \<or> inc) (strsep_fields delim acc s))"
proof (induction s arbitrary: n acc)
  case (Cons c s)
  show ?case
  proof (cases "c \<in> set delim")
    case True
    then show ?thesis using Cons [of _ "[]"] by auto
  next
    case False
    then show ?thesis using Cons [of n "acc @ [c]"] by simp
  qed
qed auto

lemma cstring_nul [simp]: "cstring (0 # s) = []"
  by (simp add: cstring_def)

lemma strsplit_create_eq:
  assumes "s \<noteq> []" "0 \<notin> set s"
  shows "strsplit_create s delim inc = Some (Some
    \<lparr>sp = map (\<lambda>c. if c \<in> set delim then 0 else c) s @ [0], argc = length (kept_fields delim inc s),
     argv = kept_fields delim inc s\<rparr>)"
  using assms count_fields_strsep [of delim inc 0 "[]" s]
  by (simp add: strsplit_create_def strsplit_recreate_def strsplit_init_def strsplit_def kept_fields_def
      Let_def)

lemma strsep_fields_plain: "set s \<inter> set delim = {} \<Longrightarrow> strsep_fields delim acc s = [acc @ s]"
  by (induction s arbitrary: acc) auto

lemma strsep_fields_join:
  "set t \<inter> set delim = {} \<Longrightarrow> d \<in> set delim \<Longrightarrow>
     strsep_fields delim acc (t @ d # s) = (acc @ t) # strsep_fields delim [] s"
  by (induction t arbitrary: acc) auto

text \<open>
  Splitting a fresh string never fails the assertion and never stores a pointer past the
  vector: the number of fields counted first is the number the second pass finds, which are
  the strings between the delimiters, the empty ones left out unless they were asked for.
\<close>

theorem strsplit_create_fields:
  assumes "s \<noteq> []" "0 \<notin> set s"
  shows "\<exists>st. strsplit_create s delim inc = Some (Some st) \<and> argc st = length (argv st)
    \<and> argv st = filter (\<lambda>p. p \<noteq> [] \<or> inc) (strsep_fields delim [] s)"
  using strsplit_create_eq [OF assms] by (simp add: kept_fields_def)

theorem strsplit_create_fields_witness:
  "\<exists>st. strsplit_create [65, 44, 44, 66] [44] False = Some (Some st) \<and> argv st = [[65], [66]]"
  using strsplit_create_fields [of "[65, 44, 44, 66]" "[44]" False] by auto

text \<open>
  The structure is reused for a new string only when it is large enough, but the new
  string is then never copied into it: the result still has the old string.
\<close>

theorem strsplit_recreate_stale:
  assumes "s0 \<noteq> []" "0 \<notin> set s0" "set s0 \<inter> set delim = {}"
    and "s \<noteq> []" "set s \<inter> set delim = {}" "length s \<le> length s0"
  shows "\<exists>st. strsplit_create s0 delim False = Some (Some st)
    \<and> (\<exists>st'. strsplit_recreate s delim False (Some st) = Some (Some st') \<and> argv st' = [s0])"
proof -
  have m: "map (\<lambda>c. if c \<in> set delim then 0 else c) s0 = s0"
    using assms(3) by (intro map_idI) auto
  have k: "kept_fields delim False s0 = [s0]" "kept_fields delim False s = [s]"
    using assms strsep_fields_plain [of s0 delim "[]"] strsep_fields_plain [of s delim "[]"]
    by (simp_all add: kept_fields_def)
  have n: "count_fields delim False 0 0 s = 1"
    using count_fields_strsep [of delim False 0 "[]" s] k(2) by (simp add: kept_fields_def)
  show ?thesis
    using strsplit_create_eq [OF assms(1,2), of delim False] m k n assms(2,4,6)
    by (simp add: strsplit_recreate_def strsplit_def Let_def)
qed

theorem strsplit_recreate_stale_witness:
  "\<exists>st. strsplit_create [65, 66] [44] False = Some (Some st)
    \<and> (\<exists>st'. strsplit_recreate [67] [44] False (Some st) = Some (Some st') \<and> argv st' = [[65, 66]])"
  using strsplit_recreate_stale [of "[65, 66]" "[44]" "[67]"] by simp

lemma ser_get_settings_fields:
  assumes "\<forall>f \<in> {a, b, c, d}. f \<noteq> [] \<and> 0 \<notin> set f \<and> 44 \<notin> set f"
  shows "ser_get_settings (a @ [44] @ b @ [44] @ c @ [44] @ d) =
    Some (0, Some \<lparr>speed = str2speed a, parity = str2parity b, bits = str2bits c, stopbits = str2stopbits d\<rparr>)"
proof -
  let ?s = "a @ [44] @ b @ [44] @ c @ [44] @ d"
  have "kept_fields [44] False ?s = [a, b, c, d]"
    using assms by (simp add: kept_fields_def strsep_fields_join strsep_fields_plain)
  moreover have "?s \<noteq> []" "0 \<notin> set ?s" using assms by auto
  moreover have "cstr '','' = [44]" by (simp add: cstr_def)
  ultimately show ?thesis
    using strsplit_create_eq [of ?s "[44]" False] by (simp add: ser_get_settings_def)
qed

lemma lookup_tab_in: "distinct (map fst tab) \<Longrightarrow> (k, v) \<in> set tab \<Longrightarrow> lookup_tab tab r k = v"
  by (induction tab) (auto simp: image_iff)

lemma ser_tables_distinct:
  "distinct (map fst ser_speed)" "distinct (map fst ser_parity)" "distinct (map fst ser_bits)"
  "distinct (map fst ser_stopbits)"
  by (simp_all add: ser_speed_def ser_parity_def ser_bits_def ser_stopbits_def cstr_def)

lemma ser_tables_keys:
  "\<forall>p \<in> set ser_speed. fst p \<noteq> [] \<and> 0 \<notin> set (fst p) \<and> 44 \<notin> set (fst p)"
  "\<forall>p \<in> set ser_parity. fst p \<noteq> [] \<and> 0 \<notin> set (fst p) \<and> 44 \<notin> set (fst p)"
  "\<forall>p \<in> set ser_bits. fst p \<noteq> [] \<and> 0 \<notin> set (fst p) \<and> 44 \<notin> set (fst p)"
  "\<forall>p \<in> set ser_stopbits. fst p \<noteq> [] \<and> 0 \<notin> set (fst p) \<and> 44 \<notin> set (fst p)"
  by (simp_all add: ser_speed_def ser_parity_def ser_bits_def ser_stopbits_def cstr_def)

lemmas ser_tables = ser_tables_distinct [THEN lookup_tab_in]

text \<open>
  The settings of a serial port are read back from their text: for every speed, parity,
  bits and stop bits of the tables, \<open>speed,parity,bits,stopbits\<close> gives the corresponding
  values; but four fields that are in none of the tables are accepted too, as zeros.
\<close>

theorem ser_settings_tables:
  "(\<forall>a va b vb c vc d vd. (a, va) \<in> set ser_speed \<longrightarrow> (b, vb) \<in> set ser_parity \<longrightarrow> (c, vc) \<in> set ser_bits \<longrightarrow>
      (d, vd) \<in> set ser_stopbits \<longrightarrow>
      ser_get_settings (a @ [44] @ b @ [44] @ c @ [44] @ d)
        = Some (0, Some \<lparr>speed = va, parity = vb, bits = vc, stopbits = vd\<rparr>))
   \<and> ser_get_settings (cstr ''x,x,x,x'') = Some (0, Some \<lparr>speed = 0, parity = [], bits = [], stopbits = []\<rparr>)"
proof (intro conjI allI impI)
  fix a va b vb c vc d vd
  assume t: "(a, va) \<in> set ser_speed" "(b, vb) \<in> set ser_parity" "(c, vc) \<in> set ser_bits" "(d, vd) \<in> set ser_stopbits"
  then have "\<forall>f \<in> {a, b, c, d}. f \<noteq> [] \<and> 0 \<notin> set f \<and> 44 \<notin> set f"
    using ser_tables_keys [THEN bspec] by fastforce
  from ser_get_settings_fields [OF this] t
  show "ser_get_settings (a @ [44] @ b @ [44] @ c @ [44] @ d)
      = Some (0, Some \<lparr>speed = va, parity = vb, bits = vc, stopbits = vd\<rparr>)"
    by (simp add: ser_tables str2speed_def str2parity_def str2bits_def str2stopbits_def)
next
  show "ser_get_settings (cstr ''x,x,x,x'') = Some (0, Some \<lparr>speed = 0, parity = [], bits = [], stopbits = []\<rparr>)"
    using ser_get_settings_fields [of "[120]" "[120]" "[120]" "[120]"]
    by (simp add: str2speed_def str2parity_def str2bits_def str2stopbits_def ser_speed_def ser_parity_def
        ser_bits_def ser_stopbits_def cstr_def)
qed

theorem ser_settings_tables_witness:
  "ser_get_settings (cstr ''9600'' @ [44] @ cstr ''n'' @ [44] @ cstr ''8'' @ [44] @ cstr ''1'')
     = Some (0, Some \<lparr>speed = 9600, parity = [], bits = [CS8], stopbits = []\<rparr>)"
proof -
  have t: "(cstr ''9600'', 9600) \<in> set ser_speed" "(cstr ''n'', []) \<in> set ser_parity"
    "(cstr ''8'', [CS8]) \<in> set ser_bits" "(cstr ''1'', []) \<in> set ser_stopbits"
    by (simp_all add: ser_speed_def ser_parity_def ser_bits_def ser_stopbits_def)
  show ?thesis using ser_settings_tables t by blast
qed

end
