(* ===== verification/Emwin_Read.thy ===== *)
theory Emwin_Read
  imports Emwin_Packet Wx14 Servers Strsplit "HOL-Library.Sublist"
begin

text \<open>
  The reading half of \<open>src/emwin.c\<close>: getting one packet from each kind of source, and the
  synchronisation with a byte stream. The state is the channel, the packet structure, the
  globals, and the WX14 structure \<open>g.wx14msg\<close>; a memory fault of the WX14 functions is \<open>None\<close>.
  The assertion that the time limit for reading is not negative is left out, since the check of
  the configuration (\<open>Config\<close>) establishes it before the main loop is entered.
\<close>

section \<open>Getting a packet\<close>

text \<open>The status, the packet structure, the globals, the channel.\<close>

type_synonym pkt_result = "int \<times> emwin_packet \<times> emwin_globals \<times> chan"

definition get_emwin_packet_bb ::
  "fill_env \<Rightarrow> int \<Rightarrow> chan \<Rightarrow> emwin_packet \<Rightarrow> emwin_globals \<Rightarrow> pkt_result" where
  "get_emwin_packet_bb env retry c ep g =
     (case bb_readn 1 retry c of
        (status, b1, c) \<Rightarrow>
          if status \<noteq> 0 then (status, ep, g, c)
          else
            let ep = ep\<lparr>bbtype := BB_PACKET_TYPE_UNKNOWN\<rparr>;
                sz = EMWIN_PACKET_SIZE - 1
            in if bb_is_emwin_data_packet (hd b1) then
                 let ep = ep\<lparr>bbtype := BB_PACKET_TYPE_DATA\<rparr> in
                 case bb_readn sz retry c of
                   (status, bs, c) \<Rightarrow>
                     if status \<noteq> 0 then (status, ep, g, c)
                     else case fill_packet_struct_bb env ep (b1 @ bs) g of (status, ep, g) \<Rightarrow> (status, ep, g, c)
               else if bb_is_srvlist_packet (hd b1) then
                 let ep = ep\<lparr>bbtype := BB_PACKET_TYPE_SRVLIST\<rparr> in
                 case bb_read_srvlist sz retry c of
                   (status, bs, c) \<Rightarrow>
                     if status \<noteq> 0 then (status, ep, g, c)
                     else case try_serverlist ep (b1 @ bs) of (status, ep) \<Rightarrow> (status, ep, g, c)
               else (2, ep\<lparr>bbdata := hd b1 # tl (bbdata ep)\<rparr>, g, c))"

definition get_emwin_packet_serial ::
  "fill_env \<Rightarrow> int \<Rightarrow> chan \<Rightarrow> emwin_packet \<Rightarrow> emwin_globals \<Rightarrow> pkt_result" where
  "get_emwin_packet_serial env retry c ep g =
     (let ep = ep\<lparr>bbtype := BB_PACKET_TYPE_UNKNOWN\<rparr> in
      case readn EMWIN_PACKET_SIZE retry c of
        (n, bs, c) \<Rightarrow>
          let status = (if n \<noteq> int EMWIN_PACKET_SIZE then
                          (if n = -1 then -1 else if n = -2 then -2 else if n = 0 then -3 else 1)
                        else 0)
          in if status = 0 then
               (case fill_packet_struct_serial env (ep\<lparr>bbtype := BB_PACKET_TYPE_DATA\<rparr>) bs g of
                  (status, ep, g) \<Rightarrow> (status, ep, g, c))
             else (status, ep, g, c))"

definition get_emwin_packet_wx14_raw ::
  "fill_env \<Rightarrow> int \<Rightarrow> chan \<Rightarrow> emwin_packet \<Rightarrow> emwin_globals \<Rightarrow> pkt_result" where
  "get_emwin_packet_wx14_raw = get_emwin_packet_serial"

definition get_emwin_packet_infeed ::
  "fill_env \<Rightarrow> int \<Rightarrow> chan \<Rightarrow> emwin_packet \<Rightarrow> emwin_globals \<Rightarrow> pkt_result" where
  "get_emwin_packet_infeed = get_emwin_packet_serial"

text \<open>The WX14 message port is read with no retries.\<close>

definition get_emwin_packet_wx14_msg ::
  "fill_env \<Rightarrow> (chan \<Rightarrow> nat) \<Rightarrow> chan \<Rightarrow> emwin_packet \<Rightarrow> emwin_globals \<Rightarrow> wx14_msg_st
     \<Rightarrow> (int \<times> emwin_packet \<times> emwin_globals \<times> chan \<times> wx14_msg_st) option" where
  "get_emwin_packet_wx14_msg env clk c ep g m =
     (let ep = ep\<lparr>bbtype := BB_PACKET_TYPE_UNKNOWN\<rparr> in
      case wx14_read_emwin_block 0 clk c m of
        None \<Rightarrow> None
      | Some (status, m, c) \<Rightarrow>
          if status \<noteq> 0 then Some (status, ep, g, c, m)
          else
            let ep = ep\<lparr>bbtype := BB_PACKET_TYPE_DATA\<rparr> in
            case wx14_memcpy_emwin_block EMWIN_PACKET_SIZE m of
              (status, data) \<Rightarrow>
                if status \<noteq> 0 then Some (status, ep, g, c, m)
                else case fill_packet_struct_wx14 env ep data g of
                    (status, ep, g) \<Rightarrow> Some (status, ep, g, c, m))"

section \<open>Synchronisation\<close>

text \<open>The automaton that looks for a zero byte and \<open>/PF\<close>; it has found them at stage 3.\<close>

definition sync_stage :: "int \<Rightarrow> byte \<Rightarrow> int" where
  "sync_stage stage c =
     (if c = 0 then 0
      else if c = 47 then (if stage = 0 then stage + 1 else -1)
      else if c = 80 then (if stage = 1 then stage + 1 else -1)
      else if c = 70 then (if stage = 2 then stage + 1 else -1)
      else -1)"

text \<open>The loop with at most \<open>left\<close> rounds; \<open>None\<close> is a read that failed.\<close>

fun sync_loop :: "nat \<Rightarrow> int \<Rightarrow> chan \<Rightarrow> int option \<times> chan" where
  "sync_loop 0 stage c = (Some stage, c)"
| "sync_loop (Suc left) stage c =
     (if stage = 3 then (Some stage, c)
      else case readn 1 0 c of
          (n, bs, c) \<Rightarrow> if n \<noteq> 1 then (None, c) else sync_loop left (sync_stage stage (hd bs)) c)"

definition emwin_sync_device :: "chan \<Rightarrow> int \<times> chan" where
  "emwin_sync_device c =
     (case sync_loop (EMWIN_PACKET_SIZE * 4) (-1) c of
        (None, c) \<Rightarrow> (-1, c)
      | (Some stage, c) \<Rightarrow>
          if stage \<noteq> 3 then (-1, c)
          else case readn (EMWIN_PACKET_SIZE - 9) 0 c of
              (n, _, c) \<Rightarrow> (if n \<noteq> int (EMWIN_PACKET_SIZE - 9) then -1 else 0, c))"

text \<open>
  The retry loop of \<open>emwin_sync_serial\<close> and \<open>emwin_sync_wx14_raw\<close>: it runs while
  \<open>i <= readtimeout_retry\<close> and the status is 0.
\<close>

fun sync_serial_loop ::
  "nat \<Rightarrow> int \<Rightarrow> fill_env \<Rightarrow> int \<Rightarrow> chan \<Rightarrow> emwin_packet \<Rightarrow> emwin_globals \<Rightarrow> int \<times> emwin_globals \<times> chan" where
  "sync_serial_loop 0 status env retry c ep g = (status, g, c)"
| "sync_serial_loop (Suc k) status env retry c ep g =
     (if status \<noteq> 0 then (status, g, c)
      else case get_emwin_packet_serial env retry c ep g of
          (status, ep, g, c) \<Rightarrow>
            if status < 2 then (status, g, c)
            else case emwin_sync_device c of (status, c) \<Rightarrow> sync_serial_loop k status env retry c ep g)"

definition emwin_sync_serial ::
  "fill_env \<Rightarrow> int \<Rightarrow> chan \<Rightarrow> emwin_packet \<Rightarrow> emwin_globals \<Rightarrow> int \<times> emwin_globals \<times> chan" where
  "emwin_sync_serial env retry c ep g =
     (case emwin_sync_device c of (status, c) \<Rightarrow> sync_serial_loop (nat (retry + 1)) status env retry c ep g)"

definition emwin_sync_wx14_raw ::
  "fill_env \<Rightarrow> int \<Rightarrow> chan \<Rightarrow> emwin_packet \<Rightarrow> emwin_globals \<Rightarrow> wx14_msg_st
     \<Rightarrow> int \<times> emwin_globals \<times> chan \<times> wx14_msg_st" where
  "emwin_sync_wx14_raw env retry c ep g m =
     (case emwin_sync_device c of
        (status, c) \<Rightarrow>
          case sync_serial_loop (nat (retry + 1)) status env retry c ep g of (status, g, c) \<Rightarrow> (status, g, c, wx14_init m))"

fun sync_msg_loop ::
  "nat \<Rightarrow> int \<Rightarrow> fill_env \<Rightarrow> int \<Rightarrow> (chan \<Rightarrow> nat) \<Rightarrow> chan \<Rightarrow> emwin_packet \<Rightarrow> emwin_globals \<Rightarrow> wx14_msg_st
     \<Rightarrow> (int \<times> emwin_globals \<times> chan \<times> wx14_msg_st) option" where
  "sync_msg_loop 0 status env retry clk c ep g m = Some (status, g, c, m)"
| "sync_msg_loop (Suc k) status env retry clk c ep g m =
     (if status \<noteq> 0 then Some (status, g, c, m)
      else case get_emwin_packet_wx14_msg env clk c ep g m of
          None \<Rightarrow> None
        | Some (status, ep, g, c, m) \<Rightarrow>
            if status \<noteq> WX14_ERROR_EMWIN_FILL_PACKET then Some (status, g, c, m)
            else case wx14_init_emwin_block retry clk c (wx14_init m) of
                None \<Rightarrow> None
              | Some (status, m, c) \<Rightarrow> sync_msg_loop k status env retry clk c ep g m)"

definition emwin_sync_wx14_msg ::
  "fill_env \<Rightarrow> int \<Rightarrow> (chan \<Rightarrow> nat) \<Rightarrow> chan \<Rightarrow> emwin_packet \<Rightarrow> emwin_globals \<Rightarrow> wx14_msg_st
     \<Rightarrow> (int \<times> emwin_globals \<times> chan \<times> wx14_msg_st) option" where
  "emwin_sync_wx14_msg env retry clk c ep g m =
     (case wx14_init_emwin_block retry clk c (wx14_init m) of
        None \<Rightarrow> None
      | Some (status, m, c) \<Rightarrow> sync_msg_loop (nat (retry + 1)) status env retry clk c ep g m)"

section \<open>Framing\<close>

lemma get_emwin_packet_serial_deliver:
  assumes "flowing retry c" "pending c = p @ rest" "length p = EMWIN_PACKET_SIZE"
  shows "\<exists>c'. get_emwin_packet_serial env retry c ep g =
      (case fill_packet_struct_serial env (ep\<lparr>bbtype := BB_PACKET_TYPE_DATA\<rparr>) p g of (s, ep, g) \<Rightarrow> (s, ep, g, c'))
    \<and> flowing retry c' \<and> pending c' = rest"
proof -
  obtain c' where "readn (length p) retry c = (int (length p), p, c')" "flowing retry c'" "pending c' = rest"
    using rdn.deliver_block [OF assms(1,2)] by blast
  then show ?thesis by (auto simp: get_emwin_packet_serial_def assms(3) Let_def)
qed

lemma get_emwin_packet_bb_deliver:
  assumes "flowing retry c" "pending c = p @ rest" "length p = EMWIN_PACKET_SIZE"
    and "bb_is_emwin_data_packet (hd p)"
    and "fill_packet_struct_bb env (ep\<lparr>bbtype := BB_PACKET_TYPE_DATA\<rparr>) p g = (status, ep', g')"
  shows "\<exists>c'. get_emwin_packet_bb env retry c ep g = (status, ep', g', c') \<and> flowing retry c' \<and> pending c' = rest"
proof -
  obtain b bs where p: "p = [b] @ bs" "length bs = 1115" using assms(3) by (cases p) (auto simp: emwin_consts)
  have "pending c = [b] @ (bs @ rest)" using assms(2) p by simp
  from bb_readn_deliver [OF assms(1) this] obtain c1 where
    c1: "bb_readn 1 retry c = (0, [b], c1)" "flowing retry c1" "pending c1 = bs @ rest" by auto
  have "bs \<noteq> []" using p(2) by auto
  from bb_readn_deliver [OF c1(2,3) this] p(2) obtain c2 where
    c2: "bb_readn 1115 retry c1 = (0, bs, c2)" "flowing retry c2" "pending c2 = rest" by auto
  have "get_emwin_packet_bb env retry c ep g = (status, ep', g', c2)"
    using c1(1) c2(1) p assms(4,5) by (simp add: get_emwin_packet_bb_def emwin_consts Let_def)
  with c2 show ?thesis by blast
qed

text \<open>
  C21. The packets of a ByteBlaster stream are read one by one without loss of framing: when
  the next packet of 1116 bytes starts with an encoded zero byte, exactly its bytes are
  decoded, whatever pieces the network delivers, and the next read starts after it, also when
  the decoder rejects the packet.
\<close>

theorem bb_stream_framing:
  assumes "flowing retry c" "pending c = p @ rest" "length p = EMWIN_PACKET_SIZE"
    and "bb_is_emwin_data_packet (hd p)"
    and "fill_packet_struct_bb env (ep\<lparr>bbtype := BB_PACKET_TYPE_DATA\<rparr>) p g = (status, ep', g')"
  shows "\<exists>c'. get_emwin_packet_bb env retry c ep g = (status, ep', g', c') \<and> flowing retry c' \<and> pending c' = rest"
  by (rule get_emwin_packet_bb_deliver [OF assms])

theorem bb_stream_framing_witness:
  "\<exists>status ep' g' c'. get_emwin_packet_bb env0 0
      \<lparr>ch_rx = [Rx_data (replicate 600 255), Rx_data (replicate 517 255)], ch_tx = [], ch_intr = [], ch_out = []\<rparr> ep0 g0
      = (status, ep', g', c') \<and> pending c' = [255]"
proof -
  let ?c = "\<lparr>ch_rx = [Rx_data (replicate 600 255), Rx_data (replicate 517 255)], ch_tx = [], ch_intr = [], ch_out = []\<rparr>"
  obtain st ep' g' where f: "fill_packet_struct_bb env0 (ep0\<lparr>bbtype := BB_PACKET_TYPE_DATA\<rparr>) (replicate 1116 255) g0 = (st, ep', g')"
    by (metis prod_cases3)
  have "replicate 1116 255 @ [255] = replicate (Suc 1116) (255 :: byte)"
    by (simp only: replicate_append_same replicate_Suc)
  then have "pending ?c = replicate 1116 255 @ [255]"
    by (simp add: pending_def replicate_add [symmetric])
  then show ?thesis
    using bb_stream_framing [where retry = 0 and c = ?c, OF _ _ _ _ f, of "[255]"]
    by (auto simp: flowing_def emwin_consts bb_is_emwin_data_packet_def)
qed

section \<open>Synchronisation finds the packet boundary\<close>

lemma sync_loop_run:
  assumes "flowing 0 c" "pending c = bs @ rest" "length bs \<le> left"
    and "\<forall>i < length bs. foldl sync_stage stage (take i bs) \<noteq> 3"
  shows "\<exists>c'. sync_loop left stage c = sync_loop (left - length bs) (foldl sync_stage stage bs) c'
    \<and> flowing 0 c' \<and> pending c' = rest"
  using assms
proof (induction bs arbitrary: stage c left)
  case Nil
  then show ?case by auto
next
  case (Cons b bs)
  obtain k where k: "left = Suc k" "length bs \<le> k" using Cons.prems(3) by (cases left) auto
  have "pending c = [b] @ (bs @ rest)" using Cons.prems(2) by simp
  from rdn.deliver_block [OF Cons.prems(1) this] obtain c1 where
    c1: "readn 1 0 c = (1, [b], c1)" "flowing 0 c1" "pending c1 = bs @ rest" by auto
  have free: "\<forall>i < length bs. foldl sync_stage (sync_stage stage b) (take i bs) \<noteq> 3"
  proof (intro allI impI)
    fix i assume "i < length bs"
    then show "foldl sync_stage (sync_stage stage b) (take i bs) \<noteq> 3"
      using Cons.prems(4) [rule_format, of "Suc i"] by simp
  qed
  have "stage \<noteq> 3" using Cons.prems(4) [rule_format, of 0] by simp
  then have "sync_loop left stage c = sync_loop k (sync_stage stage b) c1" using k c1(1) by simp
  with Cons.IH [OF c1(2,3) k(2) free] k(1) show ?case by simp
qed

text \<open>What the automaton knows about the bytes it has passed.\<close>

definition stage_means :: "int \<Rightarrow> byte list \<Rightarrow> bool" where
  "stage_means stage pre \<longleftrightarrow>
     (stage = 0 \<longrightarrow> suffix [0] pre) \<and> (stage = 1 \<longrightarrow> suffix [0, 47] pre)
     \<and> (stage = 2 \<longrightarrow> suffix [0, 47, 80] pre) \<and> (stage = 3 \<longrightarrow> suffix [0, 47, 80, 70] pre)"

lemma stage_means_step: "stage_means stage pre \<Longrightarrow> stage_means (sync_stage stage b) (pre @ [b])"
  by (auto simp: stage_means_def sync_stage_def suffix_def)

lemma stage_means_foldl: "stage_means (foldl sync_stage (-1) pre) pre"
proof (induction pre rule: rev_induct)
  case Nil
  show ?case by (simp add: stage_means_def)
next
  case (snoc b pre)
  from stage_means_step [OF this, of b] show ?case by simp
qed

lemma no_mark_free:
  assumes "\<not> sublist [0, 47, 80, 70] junk" shows "foldl sync_stage (-1) (take i junk) \<noteq> 3"
proof
  assume "foldl sync_stage (-1) (take i junk) = 3"
  with stage_means_foldl [of "take i junk"] have "suffix [0, 47, 80, 70] (take i junk)" by (simp add: stage_means_def)
  then have "sublist [0, 47, 80, 70] junk"
    by (metis append_take_drop_id append_assoc suffix_def sublist_appendI)
  with assms show False ..
qed

lemma sync_mark:
  assumes "stage \<noteq> 3"
  shows "foldl sync_stage stage ([0, 0, 0, 0, 0, 0] @ cstr ''/PF'') = 3"
    "\<forall>i < 9. foldl sync_stage stage (take i ([0, 0, 0, 0, 0, 0] @ cstr ''/PF'')) \<noteq> 3"
proof -
  show "foldl sync_stage stage ([0, 0, 0, 0, 0, 0] @ cstr ''/PF'') = 3" by (simp add: sync_stage_def cstr_def)
  show "\<forall>i < 9. foldl sync_stage stage (take i ([0, 0, 0, 0, 0, 0] @ cstr ''/PF'')) \<noteq> 3"
  proof (intro allI impI)
    fix i :: nat assume "i < 9"
    then consider "i = 0" | "i = 1" | "i = 2" | "i = 3" | "i = 4" | "i = 5" | "i = 6" | "i = 7" | "i = 8" by linarith
    then show "foldl sync_stage stage (take i ([0, 0, 0, 0, 0, 0] @ cstr ''/PF'')) \<noteq> 3"
      by cases (use assms in \<open>simp_all add: sync_stage_def cstr_def\<close>)
  qed
qed

text \<open>
  C12. Synchronisation works: if a stream starts anywhere, with bytes in which the mark (a zero
  byte and \<open>/PF\<close>) does not occur, followed by a whole packet, and the mark comes within the
  length of four packets, then the function reports success and has consumed the stream up to
  the end of that packet, so that the next read is aligned.
\<close>

theorem sync_device_aligns:
  assumes "flowing 0 c" "pending c = junk @ ([0, 0, 0, 0, 0, 0] @ cstr ''/PF'' @ body) @ rest"
    and "length body = EMWIN_PACKET_SIZE - 9" "\<not> sublist [0, 47, 80, 70] junk"
    and "length junk + 9 \<le> EMWIN_PACKET_SIZE * 4"
  shows "\<exists>c'. emwin_sync_device c = (0, c') \<and> flowing 0 c' \<and> pending c' = rest"
proof -
  let ?mark = "[0, 0, 0, 0, 0, 0] @ cstr ''/PF''" and ?n = "EMWIN_PACKET_SIZE * 4"
  have ml: "length ?mark = 9" by (simp add: cstr_def)
  obtain c1 where c1: "sync_loop ?n (-1) c = sync_loop (?n - length junk) (foldl sync_stage (-1) junk) c1"
      "flowing 0 c1" "pending c1 = ?mark @ (body @ rest)"
    using sync_loop_run [OF assms(1,2), of ?n "-1"] no_mark_free [OF assms(4)] assms(5) by auto
  have nine: "9 \<le> ?n - length junk" using assms(5) by linarith
  have st: "foldl sync_stage (-1) junk \<noteq> 3" using no_mark_free [OF assms(4), of "length junk"] by simp
  obtain c2 where c2: "sync_loop (?n - length junk) (foldl sync_stage (-1) junk) c1 = sync_loop (?n - length junk - 9) 3 c2"
      "flowing 0 c2" "pending c2 = body @ rest"
    using sync_loop_run [OF c1(2,3), of "?n - length junk" "foldl sync_stage (-1) junk"] sync_mark [OF st] nine
    unfolding ml by metis
  have "sync_loop k 3 c2 = (Some 3, c2)" for k by (cases k) auto
  with c1(1) c2(1) have s: "sync_loop ?n (-1) c = (Some 3, c2)" by simp
  obtain c3 where c3: "readn (length body) 0 c2 = (int (length body), body, c3)" "flowing 0 c3" "pending c3 = rest"
    using rdn.deliver_block [OF c2(2,3)] by blast
  have "emwin_sync_device c = (0, c3)" using s c3(1) assms(3) by (simp add: emwin_sync_device_def)
  with c3 show ?thesis by blast
qed

theorem sync_device_aligns_witness:
  "\<exists>c'. emwin_sync_device
      \<lparr>ch_rx = [Rx_data ([65, 0, 47, 66] @ ([0, 0, 0, 0, 0, 0] @ cstr ''/PF'' @ replicate 1107 7) @ [9])],
       ch_tx = [], ch_intr = [], ch_out = []\<rparr> = (0, c') \<and> pending c' = [9]"
proof -
  have "\<not> sublist [0, 47, 80, 70] [65, 0, 47, 66 :: byte]" by code_simp
  then show ?thesis
    using sync_device_aligns [where c = "\<lparr>ch_rx = [Rx_data ([65, 0, 47, 66] @ ([0, 0, 0, 0, 0, 0] @ cstr ''/PF''
        @ replicate 1107 7) @ [9])], ch_tx = [], ch_intr = [], ch_out = []\<rparr>" and junk = "[65, 0, 47, 66]"
        and body = "replicate 1107 7" and rest = "[9]"]
    by (auto simp: flowing_def pending_def emwin_consts)
qed

end
