(* ===== verification/Spool.thy ===== *)
theory Spool
  imports Emwin_Packet
begin

text \<open>
  The spooling half of \<open>src/emwin.c\<close> and \<open>src/file.c\<close>: saving the data of a packet as a file
  of the spool directory, the queue files that tell which file a block belongs to and that
  hand a finished file to the queue runner, and saving a server list. The file system is a
  map from path names to contents. Which system calls fail is an argument (\<open>save_os\<close>); a
  failed assertion is \<open>None\<close>.
\<close>

section \<open>Data\<close>

record emwin_file_qinfo =
  q_filename :: "byte list"
  q_seqnumkey :: "byte list"
  q_numblocks :: int
  q_rcvblocks :: int

text \<open>A file holds bytes, or the image of a \<open>struct emwin_file_qinfo\<close>.\<close>

datatype fcontent = FBytes "byte list" | FQinfo emwin_file_qinfo

type_synonym fsys = "byte list \<rightharpoonup> fcontent"

record spool_conf =
  spooldir :: "byte list"
  datadir :: "byte list"
  tmpdir :: "byte list"
  qfilesdir :: "byte list"

record emwin_qfiles_st =
  datafn_size :: nat
  tmpfn_size :: nat
  qfn_size :: nat

definition init_emwin_qfiles :: "spool_conf \<Rightarrow> emwin_qfiles_st" where
  "init_emwin_qfiles cf =
     \<lparr>datafn_size = length (spooldir cf) + length (datadir cf) + 1 + SEQNUM_SIZE + 4 + 4,
      tmpfn_size = length (spooldir cf) + length (tmpdir cf) + 1 + 12 + 4,
      qfn_size = length (spooldir cf) + length (qfilesdir cf) + 1 + 12 + 4\<rparr>"

text \<open>
  What \<open>write\<close> does with the structure that \<open>write_qinfo\<close> writes: all of it, an error, or only
  the first bytes of it, those given, which \<open>write_qinfo\<close> does not take for an error.
\<close>

datatype qwrite = Qw_all | Qw_error | Qw_short "byte list"

text \<open>
  The answers of the system calls: \<open>os_write\<close> is the most bytes \<open>write\<close> takes (\<open>None\<close> an
  error), \<open>os_fprintf\<close> is \<open>None\<close> when the line of the queue file is written and the bytes written before
  an error otherwise, \<open>os_stack\<close> is what the structure on the stack holds where it was not
  read, or was read from a file that does not hold all of it.
\<close>

record save_os =
  os_stat :: bool
  os_open_r :: bool
  os_read :: bool
  os_open_tmp :: bool
  os_write :: "nat option"
  os_rename_data :: bool
  os_open_qtmp :: bool
  os_write_qtmp :: qwrite
  os_unlink :: bool
  os_fopen :: bool
  os_fprintf :: "nat option"
  os_rename_q :: bool
  os_stack :: emwin_file_qinfo

definition file_exists :: "save_os \<Rightarrow> fsys \<Rightarrow> byte list \<Rightarrow> int" where
  "file_exists os fs fname = (if \<not> os_stat os then -1 else if fs fname = None then 1 else 0)"

section \<open>Queue files\<close>

definition read_qinfo :: "save_os \<Rightarrow> fsys \<Rightarrow> byte list \<Rightarrow> int \<times> emwin_file_qinfo" where
  "read_qinfo os fs qfilename =
     (let status = file_exists os fs qfilename in
      if status \<noteq> 0 then (status, os_stack os)
      else if \<not> os_open_r os then (-1, os_stack os)
      else if \<not> os_read os then (-1, os_stack os)
      else (0, case fs qfilename of Some (FQinfo q) \<Rightarrow> q | _ \<Rightarrow> os_stack os))"

definition write_qinfo :: "save_os \<Rightarrow> fsys \<Rightarrow> byte list \<Rightarrow> emwin_file_qinfo \<Rightarrow> int \<times> fsys" where
  "write_qinfo os fs qfilename q =
     (if \<not> os_open_qtmp os then (-1, fs)
      else case os_write_qtmp os of
          Qw_error \<Rightarrow> (-1, fs(qfilename \<mapsto> FBytes []))
        | Qw_short bs \<Rightarrow> (0, fs(qfilename \<mapsto> FBytes bs))
        | Qw_all \<Rightarrow> (0, fs(qfilename \<mapsto> FQinfo q)))"

section \<open>Saving a block\<close>

definition spool_path :: "spool_conf \<Rightarrow> byte list \<Rightarrow> byte list \<Rightarrow> byte list" where
  "spool_path cf dir f = spooldir cf @ [47] @ dir @ [47] @ f"

definition data_file :: "spool_conf \<Rightarrow> byte list \<Rightarrow> int \<Rightarrow> byte list" where
  "data_file cf key b = spool_path cf (datadir cf) (key @ [46] @ printf_d b)"
definition tmp_file :: "spool_conf \<Rightarrow> byte list \<Rightarrow> byte list" where
  "tmp_file cf name = spool_path cf (tmpdir cf) (name @ cstr ''.t'')"
definition qtmp_file :: "spool_conf \<Rightarrow> byte list \<Rightarrow> byte list" where
  "qtmp_file cf name = spool_path cf (qfilesdir cf) (name @ cstr ''.t'')"
definition q_file :: "spool_conf \<Rightarrow> byte list \<Rightarrow> byte list" where
  "q_file cf name = spool_path cf (qfilesdir cf) (name @ cstr ''.q'')"

text \<open>Writing from the start of a file that was opened without \<open>O_TRUNC\<close>.\<close>

definition overwrite :: "fcontent option \<Rightarrow> byte list \<Rightarrow> fcontent" where
  "overwrite old bs = FBytes (case old of Some (FBytes b) \<Rightarrow> bs @ drop (length bs) b | _ \<Rightarrow> bs)"

definition fs_rename :: "byte list \<Rightarrow> byte list \<Rightarrow> fsys \<Rightarrow> fsys" where
  "fs_rename a b fs = fs(a := None, b := fs a)"

definition q_line :: "emwin_file_qinfo \<Rightarrow> nat \<Rightarrow> byte list" where
  "q_line q stamp = q_filename q @ [32] @ q_seqnumkey q @ [32] @ printf_d (q_numblocks q) @ [32]
     @ printf_d (q_rcvblocks q) @ [32] @ dec stamp"

text \<open>The last block: the temporary queue file goes, the queue file for the queue runner comes.\<close>

definition finish_file ::
  "save_os \<Rightarrow> nat \<Rightarrow> spool_conf \<Rightarrow> emwin_qfiles_st \<Rightarrow> byte list \<Rightarrow> emwin_file_qinfo \<Rightarrow> fsys \<Rightarrow> (int \<times> fsys) option" where
  "finish_file os stamp cf qf name q fs =
     (let fs = (if os_unlink os then fs(qtmp_file cf name := None) else fs);
          qn = q_file cf name; tn = tmp_file cf name
      in if length qn > qfn_size qf - 1 then None
         else if \<not> os_fopen os then Some (-1, fs)
         else
           let fs = fs(tn \<mapsto> FBytes (case os_fprintf os of None \<Rightarrow> q_line q stamp | Some k \<Rightarrow> take k (q_line q stamp))) in
           if os_fprintf os \<noteq> None then Some (-1, fs)
           else if \<not> os_rename_q os then Some (-1, fs)
           else Some (0, fs_rename tn qn fs))"

text \<open>From the point where the queue information is known: data file, queue file, end of file.\<close>

definition save_block ::
  "save_os \<Rightarrow> nat \<Rightarrow> spool_conf \<Rightarrow> emwin_qfiles_st \<Rightarrow> emwin_packet \<Rightarrow> emwin_file_qinfo \<Rightarrow> fsys \<Rightarrow> (int \<times> fsys) option" where
  "save_block os stamp cf qf ep q fs =
     (let name = filename (header ep);
          dn = data_file cf (q_seqnumkey q) (blockno (header ep));
          tn = tmp_file cf name; qn = qtmp_file cf name
      in if length dn > datafn_size qf - 1 then None
         else if length tn > tmpfn_size qf - 1 then None
         else if \<not> os_open_tmp os then Some (-1, fs)
         else
           let n = (case os_write os of None \<Rightarrow> -1 | Some k \<Rightarrow> int (min k (length (ep_data ep))));
               fs = fs(tn \<mapsto> overwrite (fs tn) (take (nat n) (ep_data ep)))
           in if n < int (length (ep_data ep)) then Some (-1, fs)
              else if \<not> os_rename_data os then Some (-1, fs)
              else
                let fs = fs_rename tn dn fs;
                    q = q\<lparr>q_rcvblocks := q_rcvblocks q + 1\<rparr>
                in case write_qinfo os fs qn q of
                    (status, fs) \<Rightarrow>
                      if status \<noteq> 0 then Some (status, fs)
                      else if blockno (header ep) = numblocks (header ep) then finish_file os stamp cf qf name q fs
                      else Some (0, fs))"

text \<open>The status, the file system and the sequence counter.\<close>

definition save_emwin_packet ::
  "save_os \<Rightarrow> nat \<Rightarrow> spool_conf \<Rightarrow> emwin_qfiles_st \<Rightarrow> emwin_packet \<Rightarrow> fsys \<Rightarrow> nat \<Rightarrow> (int \<times> fsys \<times> nat) option" where
  "save_emwin_packet os stamp cf qf ep fs seq =
     (let name = filename (header ep); qn = qtmp_file cf name in
      if length qn > qfn_size qf - 1 then None
      else if blockno (header ep) \<noteq> 1 then
        (case read_qinfo os fs qn of
           (status, q) \<Rightarrow>
             if status = 1 then Some (0, fs, seq)
             else if status = -1 then Some (-1, fs, seq)
             else map_option (\<lambda>(status, fs). (status, fs, seq)) (save_block os stamp cf qf ep q fs))
      else
        case get_seqnum_key seq of
          (status, key, seq) \<Rightarrow>
            if status \<noteq> 0 then Some (-1, fs, seq)
            else map_option (\<lambda>(status, fs). (status, fs, seq))
                   (save_block os stamp cf qf ep
                      \<lparr>q_filename = name, q_seqnumkey = key, q_numblocks = numblocks (header ep), q_rcvblocks = 0\<rparr> fs))"

section \<open>Saving a server list\<close>

fun server_list_text :: "byte list \<Rightarrow> byte list" where
  "server_list_text [] = []"
| "server_list_text (c # cs) =
     (if c = 0 then [] else if c = 58 then 32 # server_list_text cs
      else if c = 124 then 10 # server_list_text cs
      else if c = 92 then [] else c # server_list_text cs)"

text \<open>\<open>room\<close> is how many characters can be written before \<open>putc\<close> fails.\<close>

definition write_server_list :: "bool \<Rightarrow> nat \<Rightarrow> byte list \<Rightarrow> byte list \<Rightarrow> fsys \<Rightarrow> int \<times> fsys" where
  "write_server_list open_ok room s fname fs =
     (let t = server_list_text (drop 12 s) in
      if \<not> open_ok then (-1, fs)
      else (if length t \<le> room then 0 else -1, fs(fname \<mapsto> FBytes (take room t))))"

definition save_server_list ::
  "bool \<Rightarrow> bool \<Rightarrow> nat \<Rightarrow> byte list \<Rightarrow> byte list \<Rightarrow> emwin_packet \<Rightarrow> fsys \<Rightarrow> int \<times> fsys" where
  "save_server_list raw_ok open_ok room bbserverlist_raw bbserverlist ep fs =
     (if \<not> raw_ok then (-1, fs)
      else write_server_list open_ok room (rawdata ep) bbserverlist
             (fs(bbserverlist_raw \<mapsto> FBytes (cstring (rawdata ep)))))"

section \<open>Path names\<close>

text \<open>The subdirectories of the spool directory are three, and each is one component of a path.\<close>

definition spool_conf_ok :: "spool_conf \<Rightarrow> bool" where
  "spool_conf_ok cf \<longleftrightarrow> 47 \<notin> set (datadir cf) \<and> 47 \<notin> set (tmpdir cf) \<and> 47 \<notin> set (qfilesdir cf)
     \<and> distinct [datadir cf, tmpdir cf, qfilesdir cf]"

lemma takeWhile_until: "x \<notin> set a \<Longrightarrow> takeWhile (\<lambda>c. c \<noteq> x) (a @ x # s) = a"
  by (induction a) auto

lemma split_at_byte:
  assumes "x \<notin> set a" "x \<notin> set b"
  shows "a @ x # s = b @ x # t \<longleftrightarrow> a = b \<and> s = t"
proof
  assume e: "a @ x # s = b @ x # t"
  have "takeWhile (\<lambda>c. c \<noteq> x) (a @ x # s) = a" "takeWhile (\<lambda>c. c \<noteq> x) (b @ x # t) = b"
    using assms by (simp_all add: takeWhile_until)
  with e have "a = b" by metis
  with e show "a = b \<and> s = t" by simp
qed simp

lemma spool_path_inj:
  "47 \<notin> set d \<Longrightarrow> 47 \<notin> set d' \<Longrightarrow> spool_path cf d f = spool_path cf d' f' \<longleftrightarrow> d = d' \<and> f = f'"
  by (simp add: spool_path_def split_at_byte)

lemma printf_d_inj: "printf_d a = printf_d b \<longleftrightarrow> a = b"
proof
  assume e: "printf_d a = printf_d b"
  have h: "hd (dec n) \<noteq> 45" for n
  proof -
    have "isdigit (hd (dec n))" using dec_digits [of n] dec_nonempty [of n] hd_in_set by blast
    then show ?thesis by (auto simp: isdigit_def)
  qed
  have "(a < 0) = (b < 0)"
    using e h [of "nat a"] h [of "nat b"] by (cases "a < 0"; cases "b < 0") (auto simp: printf_d_def dest: arg_cong [of _ _ hd])
  with e show "a = b" by (auto simp: printf_d_def split: if_splits dest!: dec_inject)
qed simp

lemma spool_files_distinct:
  assumes "spool_conf_ok cf"
  shows "data_file cf key b \<noteq> tmp_file cf n" "data_file cf key b \<noteq> qtmp_file cf n" "data_file cf key b \<noteq> q_file cf n"
    "tmp_file cf n \<noteq> data_file cf key b" "qtmp_file cf n \<noteq> data_file cf key b" "q_file cf n \<noteq> data_file cf key b"
    "tmp_file cf m \<noteq> qtmp_file cf n" "tmp_file cf m \<noteq> q_file cf n" "qtmp_file cf n \<noteq> tmp_file cf m"
    "q_file cf n \<noteq> tmp_file cf m" "qtmp_file cf n \<noteq> q_file cf n" "q_file cf n \<noteq> qtmp_file cf n"
  using assms
  by (auto simp: spool_conf_ok_def data_file_def tmp_file_def qtmp_file_def q_file_def spool_path_inj cstr_def)

lemma data_file_inj:
  assumes "spool_conf_ok cf" "46 \<notin> set key" "46 \<notin> set key'"
  shows "data_file cf key b = data_file cf key' b' \<longleftrightarrow> key = key' \<and> b = b'"
  using assms by (simp add: spool_conf_ok_def data_file_def spool_path_inj split_at_byte printf_d_inj)

section \<open>The path names fit their buffers\<close>

lemma length_printf_d:
  assumes "- (2 ^ 31) \<le> b" "b < 2 ^ 31" shows "length (printf_d b) \<le> 11"
proof -
  have "nat (- b) < 10 ^ 10" "nat b < 10 ^ 10" using assms by auto
  then show ?thesis using length_dec_le [of "nat (- b)" 10] length_dec_le [of "nat b" 10] by (simp add: printf_d_def)
qed

definition block_ok :: "byte list \<Rightarrow> emwin_packet \<Rightarrow> bool" where
  "block_ok name ep \<longleftrightarrow> filename (header ep) = name \<and> length name \<le> 12
     \<and> - (2 ^ 31) \<le> blockno (header ep) \<and> blockno (header ep) < 2 ^ 31 \<and> length (ep_data ep) \<le> 1024"

lemma names_fit:
  assumes "block_ok name ep" "length key \<le> 10"
  shows "length (data_file cf key (blockno (header ep))) \<le> datafn_size (init_emwin_qfiles cf) - 1"
    "length (tmp_file cf name) \<le> tmpfn_size (init_emwin_qfiles cf) - 1"
    "length (qtmp_file cf name) \<le> qfn_size (init_emwin_qfiles cf) - 1"
    "length (q_file cf name) \<le> qfn_size (init_emwin_qfiles cf) - 1"
  using assms length_printf_d [of "blockno (header ep)"]
  by (auto simp: block_ok_def data_file_def tmp_file_def qtmp_file_def q_file_def spool_path_def init_emwin_qfiles_def
      SEQNUM_SIZE_def cstr_def)

section \<open>Saving a file block by block\<close>

text \<open>A system on which nothing fails.\<close>

definition good_os :: "save_os \<Rightarrow> bool" where
  "good_os os \<longleftrightarrow> os_stat os \<and> os_open_r os \<and> os_read os \<and> os_open_tmp os \<and> os_rename_data os \<and> os_open_qtmp os
     \<and> os_write_qtmp os = Qw_all \<and> os_unlink os \<and> os_fopen os \<and> os_fprintf os = None \<and> os_rename_q os
     \<and> (case os_write os of None \<Rightarrow> False | Some k \<Rightarrow> 1024 \<le> k)"

lemma save_block_ok:
  assumes "good_os os" "spool_conf_ok cf" "block_ok name ep" "length (q_seqnumkey q) \<le> 10" "fs (tmp_file cf name) = None"
    and "dn = data_file cf (q_seqnumkey q) (blockno (header ep))" "q' = q\<lparr>q_rcvblocks := q_rcvblocks q + 1\<rparr>"
  shows "save_block os stamp cf (init_emwin_qfiles cf) ep q fs =
    Some (0, if blockno (header ep) = numblocks (header ep)
      then fs(dn \<mapsto> FBytes (ep_data ep), qtmp_file cf name := None, q_file cf name \<mapsto> FBytes (q_line q' stamp))
      else fs(dn \<mapsto> FBytes (ep_data ep), qtmp_file cf name \<mapsto> FQinfo q'))"
proof -
  obtain k where k: "os_write os = Some k" "1024 \<le> k" using assms(1) by (auto simp: good_os_def split: option.splits)
  have len: "length (ep_data ep) \<le> 1024" "filename (header ep) = name" using assms(3) by (auto simp: block_ok_def)
  note fit = names_fit [OF assms(3,4), of cf] names_fit [OF assms(3,4), of cf, THEN leD]
  note dis = spool_files_distinct [OF assms(2)]
  have w: "min k (length (ep_data ep)) = length (ep_data ep)" using k len by simp
  have fs1: "fs_rename (tmp_file cf name) dn (fs(tmp_file cf name \<mapsto> FBytes (ep_data ep))) = fs(dn \<mapsto> FBytes (ep_data ep))"
    using assms(5,6) dis by (auto simp: fs_rename_def fun_eq_iff)
  have fin: "finish_file os stamp cf (init_emwin_qfiles cf) name q' (fs(dn \<mapsto> FBytes (ep_data ep), qtmp_file cf name \<mapsto> FQinfo q'))
      = Some (0, fs(dn \<mapsto> FBytes (ep_data ep), qtmp_file cf name := None, q_file cf name \<mapsto> FBytes (q_line q' stamp)))"
    using assms(1,5,6) fit(4,8) dis by (auto simp: finish_file_def good_os_def fs_rename_def fun_eq_iff)
  show ?thesis
    using assms(1) k(1) w len fs1 fin fit(5,6) assms(5)
    by (simp add: save_block_def Let_def good_os_def write_qinfo_def overwrite_def assms(6,7) [symmetric] linorder_not_le)
qed

text \<open>Saving several packets, up to the first error.\<close>

fun save_all ::
  "save_os \<Rightarrow> nat \<Rightarrow> spool_conf \<Rightarrow> emwin_qfiles_st \<Rightarrow> emwin_packet list \<Rightarrow> fsys \<Rightarrow> nat \<Rightarrow> (int \<times> fsys \<times> nat) option" where
  "save_all os stamp cf qf [] fs seq = Some (0, fs, seq)"
| "save_all os stamp cf qf (ep # eps) fs seq =
     (case save_emwin_packet os stamp cf qf ep fs seq of
        None \<Rightarrow> None
      | Some (status, fs, seq) \<Rightarrow> if status \<noteq> 0 then Some (status, fs, seq) else save_all os stamp cf qf eps fs seq)"

definition save_data :: "spool_conf \<Rightarrow> byte list \<Rightarrow> emwin_packet list \<Rightarrow> fsys \<Rightarrow> fsys" where
  "save_data cf key eps fs =
     foldl (\<lambda>fs ep. fs(data_file cf key (blockno (header ep)) \<mapsto> FBytes (ep_data ep))) fs eps"

lemma save_data_simps [simp]:
  "save_data cf key [] fs = fs"
  "save_data cf key (ep # eps) fs =
     save_data cf key eps (fs(data_file cf key (blockno (header ep)) \<mapsto> FBytes (ep_data ep)))"
  by (simp_all add: save_data_def)

lemma save_data_upd:
  "(\<And>b. p \<noteq> data_file cf key b) \<Longrightarrow> save_data cf key eps (fs(p := v)) = (save_data cf key eps fs)(p := v)"
proof (induction eps arbitrary: fs)
  case (Cons e eps)
  let ?d = "data_file cf key (blockno (header e))"
  have "fs(p := v, ?d \<mapsto> FBytes (ep_data e)) = fs(?d \<mapsto> FBytes (ep_data e), p := v)"
    using Cons.prems by (intro fun_upd_twist) auto
  then show ?case unfolding save_data_simps by (simp only: Cons.IH [OF Cons.prems])
qed simp

lemma save_data_other:
  "\<forall>e \<in> set eps. p \<noteq> data_file cf key (blockno (header e)) \<Longrightarrow> save_data cf key eps fs p = fs p"
  by (induction eps arbitrary: fs) simp_all

lemma save_data_unsaved:
  assumes "spool_conf_ok cf" "46 \<notin> set key" "b \<notin> (\<lambda>ep. blockno (header ep)) ` set eps"
  shows "save_data cf key eps fs (data_file cf key b) = fs (data_file cf key b)"
  using assms by (induction eps arbitrary: fs) (auto simp: data_file_inj)

lemma save_data_saved:
  assumes "spool_conf_ok cf" "46 \<notin> set key" "distinct (map (\<lambda>ep. blockno (header ep)) eps)" "ep \<in> set eps"
  shows "save_data cf key eps fs (data_file cf key (blockno (header ep))) = Some (FBytes (ep_data ep))"
  using assms by (induction eps arbitrary: fs) (auto simp: save_data_unsaved image_iff)

text \<open>The blocks after the first, up to the last one.\<close>

lemma save_all_rest:
  assumes "good_os os" "spool_conf_ok cf" "\<forall>ep \<in> set eps. block_ok name ep \<and> blockno (header ep) \<noteq> 1"
    and "eps \<noteq> []" "\<forall>ep \<in> set (butlast eps). blockno (header ep) \<noteq> numblocks (header ep)"
    and "blockno (header (last eps)) = numblocks (header (last eps))"
    and "length (q_seqnumkey q) \<le> 10" "fs (tmp_file cf name) = None" "fs (qtmp_file cf name) = Some (FQinfo q)"
  shows "save_all os stamp cf (init_emwin_qfiles cf) eps fs seq =
    Some (0, (save_data cf (q_seqnumkey q) eps fs)(qtmp_file cf name := None,
      q_file cf name \<mapsto> FBytes (q_line (q\<lparr>q_rcvblocks := q_rcvblocks q + int (length eps)\<rparr>) stamp)), seq)"
  using assms
proof (induction eps arbitrary: q fs)
  case Nil
  then show ?case by simp
next
  case (Cons ep eps)
  let ?q = "q\<lparr>q_rcvblocks := q_rcvblocks q + 1\<rparr>" and ?dn = "data_file cf (q_seqnumkey q) (blockno (header ep))"
  note dis = spool_files_distinct [OF assms(2)]
  have ep: "block_ok name ep" "blockno (header ep) \<noteq> 1" "filename (header ep) = name"
    using Cons.prems(3) by (auto simp: block_ok_def)
  note fit = names_fit(3) [OF ep(1), of "[]" cf]
  have r: "read_qinfo os fs (qtmp_file cf name) = (0, q)"
    using Cons.prems(1,9) by (simp add: read_qinfo_def file_exists_def good_os_def)
  note b = save_block_ok [where q = q and fs = fs, OF assms(1,2) ep(1) Cons.prems(7,8) refl refl, of stamp]
  have s: "save_emwin_packet os stamp cf (init_emwin_qfiles cf) ep fs seq = Some (0, if blockno (header ep) = numblocks (header ep)
      then fs(?dn \<mapsto> FBytes (ep_data ep), qtmp_file cf name := None, q_file cf name \<mapsto> FBytes (q_line ?q stamp))
      else fs(?dn \<mapsto> FBytes (ep_data ep), qtmp_file cf name \<mapsto> FQinfo ?q), seq)"
    using r fit ep b by (simp add: save_emwin_packet_def linorder_not_le)
  show ?case
  proof (cases eps)
    case Nil
    with s Cons.prems(6) show ?thesis by (simp add: fun_eq_iff)
  next
    case c: (Cons e es)
    let ?fs = "fs(?dn \<mapsto> FBytes (ep_data ep), qtmp_file cf name \<mapsto> FQinfo ?q)"
    have "save_all os stamp cf (init_emwin_qfiles cf) eps ?fs seq =
      Some (0, (save_data cf (q_seqnumkey ?q) eps ?fs)(qtmp_file cf name := None,
        q_file cf name \<mapsto> FBytes (q_line (?q\<lparr>q_rcvblocks := q_rcvblocks ?q + int (length eps)\<rparr>) stamp)), seq)"
      using Cons.prems c dis by (intro Cons.IH) auto
    moreover have u: "save_data cf (q_seqnumkey q) eps ?fs =
        (save_data cf (q_seqnumkey q) eps (fs(?dn \<mapsto> FBytes (ep_data ep))))(qtmp_file cf name \<mapsto> FQinfo ?q)"
      by (rule save_data_upd) (rule dis)
    moreover have "save_all os stamp cf (init_emwin_qfiles cf) (ep # eps) fs seq =
        save_all os stamp cf (init_emwin_qfiles cf) eps ?fs seq"
      using s c Cons.prems(5) by simp
    ultimately show ?thesis by (simp add: u add.assoc fun_eq_iff)
  qed
qed

lemma save_all_file:
  assumes "good_os os" "spool_conf_ok cf" "seqnum_ok seq" "fs (tmp_file cf name) = None"
    and "\<forall>e \<in> set (ep # eps). block_ok name e"
    and "blockno (header ep) = 1" "\<forall>e \<in> set eps. blockno (header e) \<noteq> 1"
    and "\<forall>e \<in> set (butlast (ep # eps)). blockno (header e) \<noteq> numblocks (header e)"
    and "blockno (header (last (ep # eps))) = numblocks (header (last (ep # eps)))"
    and "key = dec (seqnum_next seq)"
  shows "save_all os stamp cf (init_emwin_qfiles cf) (ep # eps) fs seq =
    Some (0, (save_data cf key (ep # eps) fs)(qtmp_file cf name := None,
      q_file cf name \<mapsto> FBytes (q_line \<lparr>q_filename = name, q_seqnumkey = key, q_numblocks = numblocks (header ep),
          q_rcvblocks = int (length (ep # eps))\<rparr> stamp)), seqnum_next seq)"
proof -
  note dis = spool_files_distinct [OF assms(2)]
  define q0 where "q0 = \<lparr>q_filename = name, q_seqnumkey = key, q_numblocks = numblocks (header ep), q_rcvblocks = 0\<rparr>"
  let ?q = "q0\<lparr>q_rcvblocks := q_rcvblocks q0 + 1\<rparr>" and ?dn = "data_file cf (q_seqnumkey q0) (blockno (header ep))"
  have ep: "block_ok name ep" "filename (header ep) = name" using assms(5) by (auto simp: block_ok_def)
  have k6: "length key \<le> 6"
    using seqnum_next_ok [OF assms(3)] by (auto simp: assms(10) seqnum_ok_def seqnum_consts intro!: length_dec_le)
  then have "length (q_seqnumkey q0) \<le> 10" by (simp add: q0_def)
  note b = save_block_ok [where q = q0 and fs = fs, OF assms(1,2) ep(1) this assms(4) refl refl, of stamp]
  have "save_emwin_packet os stamp cf (init_emwin_qfiles cf) ep fs seq =
      map_option (\<lambda>(status, fs). (status, fs, seqnum_next seq)) (save_block os stamp cf (init_emwin_qfiles cf) ep q0 fs)"
    using get_seqnum_key_ok [OF assms(3)] ep names_fit(3) [OF ep(1), of "[]" cf] assms(6,10)
    by (simp add: save_emwin_packet_def linorder_not_le q0_def)
  then have s: "save_emwin_packet os stamp cf (init_emwin_qfiles cf) ep fs seq = Some (0, if blockno (header ep) = numblocks (header ep)
      then fs(?dn \<mapsto> FBytes (ep_data ep), qtmp_file cf name := None, q_file cf name \<mapsto> FBytes (q_line ?q stamp))
      else fs(?dn \<mapsto> FBytes (ep_data ep), qtmp_file cf name \<mapsto> FQinfo ?q), seqnum_next seq)"
    using b by simp
  show ?thesis
  proof (cases "eps = []")
    case True
    with s assms(9) show ?thesis by (simp add: fun_eq_iff q0_def)
  next
    case False
    let ?fs = "fs(?dn \<mapsto> FBytes (ep_data ep), qtmp_file cf name \<mapsto> FQinfo ?q)"
    have "save_all os stamp cf (init_emwin_qfiles cf) eps ?fs (seqnum_next seq) =
      Some (0, (save_data cf (q_seqnumkey ?q) eps ?fs)(qtmp_file cf name := None,
        q_file cf name \<mapsto> FBytes (q_line (?q\<lparr>q_rcvblocks := q_rcvblocks ?q + int (length eps)\<rparr>) stamp)), seqnum_next seq)"
      using assms False k6 dis by (intro save_all_rest) (auto simp: q0_def)
    moreover have u: "save_data cf (q_seqnumkey q0) eps ?fs =
        (save_data cf (q_seqnumkey q0) eps (fs(?dn \<mapsto> FBytes (ep_data ep))))(qtmp_file cf name \<mapsto> FQinfo ?q)"
      by (rule save_data_upd) (rule dis)
    moreover have "save_all os stamp cf (init_emwin_qfiles cf) (ep # eps) fs seq =
        save_all os stamp cf (init_emwin_qfiles cf) eps ?fs (seqnum_next seq)"
      using s assms(8) False by simp
    ultimately show ?thesis by (simp add: u fun_eq_iff) (simp add: q0_def)
  qed
qed

lemma key_no_dot: "46 \<notin> set (dec n)"
  using dec_digits [of n] by (auto simp: isdigit_def)

text \<open>
  C11. Receiving a file block by block, as the decoder gives the blocks, on a system whose calls do
  not fail and where no temporary file of its name was left behind: when its first block and then any of its other
  blocks, each at most once, are saved and the last one closes it, every block received is in
  the spool as its own file with exactly its data, the temporary queue file is gone, and the
  queue file for the queue runner names the file, its key, the number of blocks announced and
  the number received, so that a missing block is visible there. Every other file, the data
  files of blocks that were not received included, is as it was.
\<close>

theorem spool_received_blocks:
  assumes "good_os os" "spool_conf_ok cf" "seqnum_ok seq" "fs (tmp_file cf name) = None"
    and "\<forall>e \<in> set (ep # eps). block_ok name e"
    and "blockno (header ep) = 1" "\<forall>e \<in> set eps. blockno (header e) \<noteq> 1"
    and "\<forall>e \<in> set (butlast (ep # eps)). blockno (header e) \<noteq> numblocks (header e)"
    and "blockno (header (last (ep # eps))) = numblocks (header (last (ep # eps)))"
    and "distinct (map (\<lambda>e. blockno (header e)) eps)" "key = dec (seqnum_next seq)"
  shows "\<exists>fs'. save_all os stamp cf (init_emwin_qfiles cf) (ep # eps) fs seq = Some (0, fs', seqnum_next seq)
    \<and> (\<forall>e \<in> set (ep # eps). fs' (data_file cf key (blockno (header e))) = Some (FBytes (ep_data e)))
    \<and> fs' (q_file cf name) = Some (FBytes (q_line
         \<lparr>q_filename = name, q_seqnumkey = key, q_numblocks = numblocks (header ep),
          q_rcvblocks = int (length (ep # eps))\<rparr> stamp))
    \<and> fs' (qtmp_file cf name) = None
    \<and> (\<forall>p. p \<noteq> q_file cf name \<and> p \<noteq> qtmp_file cf name 
         \<and> (\<forall>e \<in> set (ep # eps). p \<noteq> data_file cf key (blockno (header e))) \<longrightarrow> fs' p = fs p)"
proof -
  note dis = spool_files_distinct [OF assms(2)]
  have dot: "46 \<notin> set key" by (simp add: assms(11) key_no_dot)
  have d: "distinct (map (\<lambda>e. blockno (header e)) (ep # eps))" using assms(6,7,10) by auto
  show ?thesis
    using save_all_file [where fs = fs, OF assms(1-9,11), of stamp] save_data_saved [OF assms(2) dot d] dis
    by (auto simp: save_data_other simp del: save_data_simps)
qed

section \<open>Witnesses and error paths\<close>

definition os0 :: save_os where
  "os0 = \<lparr>os_stat = True, os_open_r = True, os_read = True, os_open_tmp = True, os_write = Some 2000,
     os_rename_data = True, os_open_qtmp = True, os_write_qtmp = Qw_all, os_unlink = True, os_fopen = True,
     os_fprintf = None, os_rename_q = True,
     os_stack = \<lparr>q_filename = [], q_seqnumkey = [], q_numblocks = 0, q_rcvblocks = 0\<rparr>\<rparr>"

definition cf0 :: spool_conf where
  "cf0 = \<lparr>spooldir = cstr ''/var/spool'', datadir = cstr ''data'', tmpdir = cstr ''tmp'', qfilesdir = cstr ''qfiles''\<rparr>"

definition block0 :: "int \<Rightarrow> int \<Rightarrow> byte list \<Rightarrow> emwin_packet" where
  "block0 b n data = ep0\<lparr>header := \<lparr>filename = cstr ''a.txt'', blockno = b, numblocks = n, hdr_checksum = 0, dtstamp = []\<rparr>,
     rawdata := replicate 80 32 @ data, data_size := length data\<rparr>"

lemma cf0_ok: "spool_conf_ok cf0" "good_os os0"
  by (simp_all add: spool_conf_ok_def cf0_def cstr_def good_os_def os0_def)

lemma block0_simps [simp]:
  "header (block0 b n d) = \<lparr>filename = cstr ''a.txt'', blockno = b, numblocks = n, hdr_checksum = 0, dtstamp = []\<rparr>"
  "ep_data (block0 b n d) = d"
  by (simp_all add: block0_def ep_data_def emwin_consts)

theorem spool_received_blocks_witness:
  "\<exists>fs'. save_all os0 7 cf0 (init_emwin_qfiles cf0) [block0 1 2 [72], block0 2 2 [105]] Map.empty 123456
     = Some (0, fs', 123457) \<and> fs' (data_file cf0 (dec 123457) 2) = Some (FBytes [105])"
proof -
  have b: "block_ok (cstr ''a.txt'') (block0 1 2 [72])" "block_ok (cstr ''a.txt'') (block0 2 2 [105])"
    by (simp_all add: block_ok_def cstr_def)
  have s: "seqnum_next 123456 = 123457" by (simp add: seqnum_next_eq)
  show ?thesis
    using spool_received_blocks [where os = os0 and cf = cf0 and seq = 123456 and name = "cstr ''a.txt''" and fs = Map.empty
        and ep = "block0 1 2 [72]" and eps = "[block0 2 2 [105]]" and stamp = 7 and key = "dec 123457"] cf0_ok b s
    by (auto simp: seqnum_ok_def seqnum_consts)
qed

lemma write_qinfo_status: "write_qinfo os fs p q = (st, fs') \<Longrightarrow> st \<in> {0, -1}"
  by (auto simp: write_qinfo_def split: if_splits qwrite.splits)

lemma save_block_total:
  assumes "block_ok name ep" "length (q_seqnumkey q) \<le> 10"
  shows "\<exists>status fs'. save_block os stamp cf (init_emwin_qfiles cf) ep q fs = Some (status, fs') \<and> status \<in> {0, -1}"
proof -
  note fit = names_fit [OF assms, of cf]
  let ?n = "filename (header ep)"
  let ?tn = "tmp_file cf ?n" and ?dn = "data_file cf (q_seqnumkey q) (blockno (header ep))"
  obtain st1 fs1 where w: "write_qinfo os (fs_rename ?tn ?dn (fs(?tn \<mapsto> overwrite (fs ?tn) (ep_data ep))))
      (qtmp_file cf ?n) (q\<lparr>q_rcvblocks := q_rcvblocks q + 1\<rparr>) = (st1, fs1)" "st1 \<in> {0, -1}"
    using write_qinfo_status by (metis surj_pair)
  have "\<exists>st f'. finish_file os stamp cf (init_emwin_qfiles cf) name q' f = Some (st, f') \<and> st \<in> {0, -1}" for q' f
    using fit(4) by (auto simp: finish_file_def Let_def linorder_not_le)
  then show ?thesis
    using fit(1,2) w assms(1)
    by (auto simp: save_block_def Let_def block_ok_def linorder_not_le)
qed

text \<open>
  C24. Whatever system calls fail, saving a block with a name and a number as the decoder lets them
  pass (at most twelve characters, an int) ends with status 0 or -1: the path names
  always fit the buffers that were sized at the start, so that no assertion fails. The one
  condition is on a block other than the first, whose temporary queue file is read: the key in
  the structure that \<open>read_qinfo\<close> gives has at most ten characters, as every key the program
  writes has. It is not met when that file was left empty or cut by a failed write, since
  \<open>read_qinfo\<close> then succeeds and the key is whatever the stack held. A block
  other than the first of a file that is not being received is discarded without an error
  and without touching the spool.
\<close>

theorem save_emwin_packet_total:
  assumes "block_ok (filename (header ep)) ep" "seqnum_ok seq"
    and "blockno (header ep) \<noteq> 1 \<and> fst (read_qinfo os fs (qtmp_file cf (filename (header ep)))) = 0 \<longrightarrow>
      length (q_seqnumkey (snd (read_qinfo os fs (qtmp_file cf (filename (header ep)))))) \<le> 10"
  shows "(\<exists>status fs' seq'. save_emwin_packet os stamp cf (init_emwin_qfiles cf) ep fs seq = Some (status, fs', seq')
      \<and> status \<in> {0, -1})
    \<and> (blockno (header ep) \<noteq> 1 \<and> os_stat os \<and> fs (qtmp_file cf (filename (header ep))) = None \<longrightarrow>
         save_emwin_packet os stamp cf (init_emwin_qfiles cf) ep fs seq = Some (0, fs, seq))"
proof (intro conjI impI)
  let ?n = "filename (header ep)" and ?qf = "init_emwin_qfiles cf"
  note fit = names_fit(3) [OF assms(1), of "[]" cf]
  show "\<exists>status fs' seq'. save_emwin_packet os stamp cf ?qf ep fs seq = Some (status, fs', seq') \<and> status \<in> {0, -1}"
  proof (cases "blockno (header ep) = 1")
    case True
    let ?q = "\<lparr>q_filename = ?n, q_seqnumkey = dec (seqnum_next seq), q_numblocks = numblocks (header ep), q_rcvblocks = 0\<rparr>"
    have "length (dec (seqnum_next seq)) \<le> 6"
      using seqnum_next_ok [OF assms(2)] by (auto simp: seqnum_ok_def seqnum_consts intro!: length_dec_le)
    then show ?thesis
      using save_block_total [OF assms(1), of ?q os stamp cf fs] True fit get_seqnum_key_ok [OF assms(2)]
      by (auto simp: save_emwin_packet_def Let_def linorder_not_le)
  next
    case False
    obtain st q where r: "read_qinfo os fs (qtmp_file cf ?n) = (st, q)" by fastforce
    then have "st \<in> {0, 1, -1}" "st = 0 \<Longrightarrow> length (q_seqnumkey q) \<le> 10"
      using assms(3) False by (auto simp: read_qinfo_def file_exists_def Let_def split: if_splits)
    then show ?thesis
      using save_block_total [OF assms(1), of q os stamp cf fs] False fit r
      by (auto simp: save_emwin_packet_def Let_def linorder_not_le)
  qed
  assume "blockno (header ep) \<noteq> 1 \<and> os_stat os \<and> fs (qtmp_file cf ?n) = None"
  then show "save_emwin_packet os stamp cf ?qf ep fs seq = Some (0, fs, seq)"
    using fit by (simp add: save_emwin_packet_def read_qinfo_def file_exists_def Let_def linorder_not_le)
qed

theorem save_emwin_packet_total_witness:
  "save_emwin_packet os0 7 cf0 (init_emwin_qfiles cf0) (block0 2 3 [72]) Map.empty 123456 = Some (0, Map.empty, 123456)"
  using save_emwin_packet_total [of "block0 2 3 [72]" 123456 os0 Map.empty cf0 7]
  by (simp add: block_ok_def cstr_def seqnum_ok_def seqnum_consts os0_def read_qinfo_def file_exists_def)

text \<open>
  What happens without the condition on the key: the temporary queue file of a failed write is
  empty, reading it succeeds, and with a long enough key on the stack an assertion fails.
\<close>

lemma unread_key_asserts:
  assumes "good_os os" "fs (qtmp_file cf name) = Some (FBytes bs)" "block_ok name ep" "blockno (header ep) \<noteq> 1"
    and "length (q_seqnumkey (os_stack os)) \<ge> datafn_size (init_emwin_qfiles cf)"
  shows "save_emwin_packet os stamp cf (init_emwin_qfiles cf) ep fs seq = None"
proof -
  have "datafn_size (init_emwin_qfiles cf) - 1 < length (data_file cf (q_seqnumkey (os_stack os)) (blockno (header ep)))"
    using assms(5) by (simp add: data_file_def spool_path_def init_emwin_qfiles_def)
  then show ?thesis
    using assms(1-4) names_fit(3) [OF assms(3), of "[]" cf]
    by (simp add: save_emwin_packet_def read_qinfo_def file_exists_def save_block_def good_os_def block_ok_def Let_def)
qed

text \<open>
  The temporary data file is opened without \<open>O_TRUNC\<close>: when an earlier attempt left a
  longer one behind, its tail ends up in the data file of the new block.
\<close>

theorem stale_tmp_tail:
  assumes "good_os os" "spool_conf_ok cf" "seqnum_ok seq" "block_ok name ep" "blockno (header ep) = 1"
    and "numblocks (header ep) \<noteq> 1" "fs (tmp_file cf name) = Some (FBytes old)"
  shows "\<exists>fs'. save_emwin_packet os stamp cf (init_emwin_qfiles cf) ep fs seq = Some (0, fs', seqnum_next seq)
    \<and> fs' (data_file cf (dec (seqnum_next seq)) 1) = Some (FBytes (ep_data ep @ drop (length (ep_data ep)) old))"
proof -
  obtain k where k: "os_write os = Some k" "1024 \<le> k" using assms(1) by (auto simp: good_os_def split: option.splits)
  have len: "length (ep_data ep) \<le> 1024" "filename (header ep) = name" using assms(4) by (auto simp: block_ok_def)
  have k6: "length (dec (seqnum_next seq)) \<le> 10"
    using seqnum_next_ok [OF assms(3)] length_dec_le [of "seqnum_next seq" 6] by (simp add: seqnum_ok_def seqnum_consts)
  note fit = names_fit [OF assms(4) k6, of cf]
  have w: "min k (length (ep_data ep)) = length (ep_data ep)" using k len by simp
  show ?thesis
    using assms(1,5-7) k(1) w len fit get_seqnum_key_ok [OF assms(3)] spool_files_distinct [OF assms(2)]
    by (simp add: save_emwin_packet_def save_block_def Let_def good_os_def write_qinfo_def overwrite_def fs_rename_def
        linorder_not_le)
qed

theorem stale_tmp_tail_witness:
  "\<exists>fs'. save_emwin_packet os0 7 cf0 (init_emwin_qfiles cf0) (block0 1 2 [72])
      [tmp_file cf0 (cstr ''a.txt'') \<mapsto> FBytes [1, 2, 3]] 123456 = Some (0, fs', 123457)
    \<and> fs' (data_file cf0 (dec 123457) 1) = Some (FBytes [72, 2, 3])"
proof -
  have "seqnum_next 123456 = 123457" by (simp add: seqnum_next_eq)
  then show ?thesis
    using stale_tmp_tail [of os0 cf0 123456 "cstr ''a.txt''" "block0 1 2 [72]"
        "[tmp_file cf0 (cstr ''a.txt'') \<mapsto> FBytes [1, 2, 3]]" "[1, 2, 3]" 7] cf0_ok
    by (auto simp: seqnum_ok_def seqnum_consts block_ok_def cstr_def)
qed

section \<open>The spool whatever arrives\<close>

text \<open>A packet the decoder accepts has names and numbers that fit.\<close>

lemma convs_header_fmt: "convs header_fmt = [SStr 12, SInt, SInt, SInt, SChars 22]"
  by (simp add: header_fmt_def cstr_def)

lemma decode_header_block_ok:
  assumes "decode_header env ep = (0, ep')" "length (rawdata ep) \<le> 1104" "data_size ep \<le> 1024"
  shows "block_ok (filename (header ep')) ep'"
proof -
  define vals where "vals = sscanf header_fmt (cstring (rawdata ep))"
  have "\<not> length vals < 5" using assms(1) by (auto simp: decode_header_def vals_def Let_def split: if_splits)
  moreover have "list_all2 fits (take (length vals) [SStr 12, SInt, SInt, SInt, SChars 22]) vals"
    using sscanf_fits [of header_fmt] by (simp add: vals_def convs_header_fmt)
  ultimately have "list_all2 fits [SStr 12, SInt, SInt, SInt, SChars 22] vals"
    by (simp add: take_all linorder_not_less)
  then obtain n b t k d where v: "vals = [VStr n, VInt b, VInt t, VInt k, VStr d]"
    and r: "length n \<le> 12" "- (2 ^ 31) \<le> b" "b < 2 ^ 31"
    by (auto simp: list_all2_Cons1 elim!: fits.elims)
  let ?h = "assign_header 0 vals (header ep)"
  have h: "filename ?h = n" "blockno ?h = b" using v by simp_all
  have l: "length (ep_data (ep\<lparr>header := x, data_size := y\<rparr>)) \<le> 1024" "length (ep_data (ep\<lparr>header := x\<rparr>)) \<le> 1024" for x y
    using assms(2,3) by (simp_all add: ep_data_def emwin_consts)
  obtain st name where c: "checkfilename (fe_below env) n = (st, name)" by fastforce
  have "st = 0 \<Longrightarrow> length name \<le> 12" using checkfilename_ok [of "fe_below env" n name] c r(1) by auto
  then show ?thesis
    using assms(1) c h r l
    by (auto simp: decode_header_def vals_def [symmetric] Let_def block_ok_def split: if_splits)
qed

lemma fill_packet_block_ok:
  assumes "fill_packet_struct_bb env ep bb g = (0, ep', g') \<or> fill_packet_struct_serial env ep bb g = (0, ep', g')"
    and "length bb \<le> EMWIN_PACKET_SIZE"
  shows "block_ok (filename (header ep')) ep'"
proof -
  obtain ep1 where f: "fill_packet_rest env ep1 g = (0, ep', g')" "length (rawdata ep1) \<le> 1104" "data_size ep1 \<le> 1024"
    using assms by (auto simp: fill_packet_struct_bb_def fill_serial_rest Let_def emwin_consts)
  from fill_packet_restE [OF f(1)] obtain epq gq where q: "build_queues env ep1 g = (epq, gq)" "decode_header env epq = (0, ep')"
    by metis
  then show ?thesis using build_queues_frame [OF q(1)] f(2,3) by (intro decode_header_block_ok [OF q(2)]) auto
qed

text \<open>
  The invariant of the spool directory: a temporary queue file holds the image of a structure
  with a key of the generator.
\<close>

definition spool_ready :: "spool_conf \<Rightarrow> fsys \<Rightarrow> bool" where
  "spool_ready cf fs \<longleftrightarrow>
     (\<forall>name c. fs (qtmp_file cf name) = Some c \<longrightarrow> (\<exists>q. c = FQinfo q \<and> length (q_seqnumkey q) \<le> 10))"

lemma spool_ready_upd:
  "spool_ready cf fs \<Longrightarrow> (\<And>name. p \<noteq> qtmp_file cf name) \<Longrightarrow> spool_ready cf (fs(p := v))"
  "spool_ready cf fs \<Longrightarrow> spool_ready cf (fs(p := None))"
  "spool_ready cf fs \<Longrightarrow> length (q_seqnumkey q) \<le> 10 \<Longrightarrow> spool_ready cf (fs(p \<mapsto> FQinfo q))"
  by (auto simp: spool_ready_def)

lemma q_file_not_qtmp: "q_file cf m \<noteq> qtmp_file cf n"
  by (auto simp: q_file_def qtmp_file_def spool_path_def cstr_def dest!: arg_cong [where f = last])

lemma save_block_keeps:
  assumes "spool_conf_ok cf" "spool_ready cf fs" "os_write_qtmp os = Qw_all" "length (q_seqnumkey q) \<le> 10"
    and "save_block os stamp cf qf ep q fs = Some (st, fs')"
  shows "spool_ready cf fs'"
proof -
  note dis = spool_files_distinct [OF assms(1)]
  have fin: "spool_ready cf f'" if "spool_ready cf f" "finish_file os stamp cf qf name q1 f = Some (st, f')" for f f' st name q1
    using that dis(7) q_file_not_qtmp [of cf name]
    by (auto simp: finish_file_def fs_rename_def Let_def split: if_splits intro!: spool_ready_upd)
  have wr: "spool_ready cf f'" if "spool_ready cf f" "write_qinfo os f p (q\<lparr>q_rcvblocks := r\<rparr>) = (st, f')" for f f' st p r
    using that assms(3,4) by (auto simp: write_qinfo_def split: if_splits intro!: spool_ready_upd(3))
  have r: "spool_ready cf (fs(tmp_file cf m \<mapsto> v))" "spool_ready cf (fs(tmp_file cf m := None, data_file cf k b \<mapsto> v))" for m v k b
    using assms(2) dis(2,7) by (auto intro!: spool_ready_upd(1))
  show ?thesis
    using assms(2,5) r
    by (auto simp: save_block_def fs_rename_def Let_def split: if_splits prod.splits dest!: wr [rotated])
       (auto dest: fin)
qed

lemma save_emwin_packet_keeps:
  assumes "spool_conf_ok cf" "spool_ready cf fs" "seqnum_ok seq" "os_write_qtmp os = Qw_all" "block_ok (filename (header ep)) ep"
  shows "\<exists>status fs' seq'. save_emwin_packet os stamp cf (init_emwin_qfiles cf) ep fs seq = Some (status, fs', seq')
    \<and> status \<in> {0, -1} \<and> spool_ready cf fs' \<and> seqnum_ok seq'"
proof -
  let ?n = "filename (header ep)" and ?qf = "init_emwin_qfiles cf"
  note fit = names_fit(3) [OF assms(5), of "[]" cf]
  have blk: "\<exists>st fs'. save_block os stamp cf ?qf ep q fs = Some (st, fs') \<and> st \<in> {0, -1} \<and> spool_ready cf fs'"
    if "length (q_seqnumkey q) \<le> 10" for q
    using save_block_total [OF assms(5) that, of os stamp cf fs] save_block_keeps [OF assms(1,2,4) that] by blast
  show ?thesis
  proof (cases "blockno (header ep) = 1")
    case True
    have "length (dec (seqnum_next seq)) \<le> 10"
      using seqnum_next_ok [OF assms(3)] length_dec_le [of "seqnum_next seq" 6] by (simp add: seqnum_ok_def seqnum_consts)
    then obtain st fs' where "save_block os stamp cf ?qf ep \<lparr>q_filename = ?n, q_seqnumkey = dec (seqnum_next seq),
        q_numblocks = numblocks (header ep), q_rcvblocks = 0\<rparr> fs = Some (st, fs')" "st \<in> {0, -1}" "spool_ready cf fs'"
      using blk [of "\<lparr>q_filename = ?n, q_seqnumkey = dec (seqnum_next seq), q_numblocks = numblocks (header ep), q_rcvblocks = 0\<rparr>"]
      by auto
    then show ?thesis
      using True fit get_seqnum_key_ok [OF assms(3)] assms(3)
      by (simp add: save_emwin_packet_def Let_def linorder_not_le)
  next
    case False
    obtain st q where r: "read_qinfo os fs (qtmp_file cf ?n) = (st, q)" by fastforce
    show ?thesis
    proof (cases "st = 0")
      case True
      then have "length (q_seqnumkey q) \<le> 10"
        using r assms(2) by (auto simp: read_qinfo_def file_exists_def spool_ready_def Let_def split: if_splits option.splits fcontent.splits)
      from blk [OF this] show ?thesis
        using r True False fit assms(3) by (auto simp: save_emwin_packet_def Let_def linorder_not_le)
    next
      case st: False
      then have "st \<in> {1, -1}" using r by (auto simp: read_qinfo_def file_exists_def Let_def split: if_splits)
      then show ?thesis using r False fit assms(2,3) by (auto simp: save_emwin_packet_def Let_def linorder_not_le)
    qed
  qed
qed

end
