(* ===== verification/Npemwin.thy ===== *)
theory Npemwin
  imports Server Servers Emwin_Read Spool
begin

text \<open>
  \<open>src/npemwin.c\<close>: the main thread, which reads packets from a source, hands them to the
  clients and saves them; \<open>src/per.c\<close>: its periodic tasks and the queue runner;
  \<open>bb_send_clientid\<close> of \<open>src/bb.c\<close>. What the operating system answers is in the record
  \<open>np_env\<close>. The variables of the program the functions change are the record \<open>np_st\<close>; the
  state of the server is there when it is enabled.
\<close>

section \<open>The state\<close>

record np_env =
  ne_fill :: fill_env
  ne_retry :: int
  ne_clk :: "chan \<Rightarrow> nat"
  ne_min_consecutive :: int
  ne_stats_ok :: "nat option"
  ne_wx14_ok :: bool
  ne_os :: save_os
  ne_stamp :: nat
  ne_conf :: spool_conf
  ne_list_ok :: "bool \<times> bool \<times> nat"
  ne_bbserverlist_raw :: "byte list"
  ne_bbserverlist :: "byte list"
  ne_uninit :: emwin_packet

record 'db np_st =
  np_es :: emwin_server_list
  np_g :: emwin_globals
  np_wx14msg :: wx14_msg_st
  np_sv :: "'db server_st option"
  np_fs :: fsys
  np_seq :: nat
  packet_count :: nat
  np_statusfile :: "byte list"
  np_wx14_statusfile :: "byte list"
  np_wx14_logfile :: "byte list"

section \<open>One packet\<close>

text \<open>The function for the type of the source; \<open>ep\<close> is not initialised.\<close>

definition get_packet ::
  "np_env \<Rightarrow> emwin_server \<Rightarrow> chan \<Rightarrow> 'db np_st \<Rightarrow> (int \<times> emwin_packet \<times> chan \<times> 'db np_st) option" where
  "get_packet ne es c np =
     (let ep = ne_uninit ne; env = ne_fill ne;
          done = (\<lambda>(status, ep, g, c). Some (status, ep, c, np\<lparr>np_g := g\<rparr>)) in
      if server_type_wx14_msg_device es then
        map_option (\<lambda>(status, ep, g, c, m). (status, ep, c, np\<lparr>np_g := g, np_wx14msg := m\<rparr>))
          (get_emwin_packet_wx14_msg env (ne_clk ne) c ep (np_g np) (np_wx14msg np))
      else if server_type_wx14_raw_device es then done (get_emwin_packet_wx14_raw env (ne_retry ne) c ep (np_g np))
      else if server_type_serial_device es then done (get_emwin_packet_serial env (ne_retry ne) c ep (np_g np))
      else if server_type_infeed es then done (get_emwin_packet_infeed env (ne_retry ne) c ep (np_g np))
      else done (get_emwin_packet_bb env (ne_retry ne) c ep (np_g np)))"

text \<open>The statistics of the source and, for the WX14, the signal status.\<close>

definition packet_stats :: "np_env \<Rightarrow> emwin_server \<Rightarrow> int \<Rightarrow> 'db np_st \<Rightarrow> 'db np_st" where
  "packet_stats ne es status np =
     (let np = np\<lparr>np_es := update_emwin_server_stats (ne_min_consecutive ne) status (np_es np)\<rparr>;
          np = (case write_emwin_server_stats (ne_stats_ok ne) (np_es np) of
                  (_, text) \<Rightarrow> np\<lparr>np_statusfile := (case text of None \<Rightarrow> np_statusfile np | Some t \<Rightarrow> t)\<rparr>)
      in if server_type_wx14_msg_device es \<and> status = 0 then
           (case wx14_signalstatus_write (ne_wx14_ok ne) (np_wx14msg np) of
              (_, line1) \<Rightarrow> case wx14_signalstatus_log (ne_wx14_ok ne) (np_wx14msg np) of
                (_, m, line2) \<Rightarrow>
                  np\<lparr>np_wx14msg := m, np_wx14_statusfile := (if line1 = [] then np_wx14_statusfile np else line1),
                     np_wx14_logfile := np_wx14_logfile np @ line2\<rparr>)
         else np)"

text \<open>The prefilter is not implemented: no file is skipped.\<close>

definition exec_filter :: "byte list \<Rightarrow> int" where
  "exec_filter name = 0"

definition process_packets ::
  "'db dbops \<Rightarrow> np_env \<Rightarrow> emwin_server \<Rightarrow> chan \<Rightarrow> 'db np_st \<Rightarrow> (int \<times> chan \<times> 'db np_st) option" where
  "process_packets ops ne es c np =
     (case get_packet ne es c np of
        None \<Rightarrow> None
      | Some (status, ep, c, np) \<Rightarrow>
          let np = packet_stats ne es status np in
          if status \<noteq> 0 then Some (status, c, np)
          else
            Option.bind (case np_sv np of
                None \<Rightarrow> Some np
              | Some sv \<Rightarrow> map_option (\<lambda>(_, ct). np\<lparr>np_sv := Some (sv\<lparr>sv_ct := ct\<rparr>)\<rparr>)
                             (server_send_client_queues ops ep (sv_ct sv))) (\<lambda>np.
            if bbtype ep = BB_PACKET_TYPE_SRVLIST then
              (case ne_list_ok ne of (raw_ok, open_ok, room) \<Rightarrow>
                 case save_server_list raw_ok open_ok room (ne_bbserverlist_raw ne) (ne_bbserverlist ne) ep (np_fs np) of
                   (_, fs) \<Rightarrow> Some (0, c, np\<lparr>np_fs := fs\<rparr>))
            else if blockno (header ep) = 1 \<and> exec_filter (filename (header ep)) = 1 then Some (0, c, np)
            else
              map_option (\<lambda>(status, fs, seq).
                  (status, c, np\<lparr>np_fs := fs, np_seq := seq, packet_count := (if status = 0 then packet_count np + 1 else packet_count np)\<rparr>))
                (save_emwin_packet (ne_os ne) (ne_stamp ne) (ne_conf ne) (init_emwin_qfiles (ne_conf ne)) ep (np_fs np) (np_seq np))))"

section \<open>The identification sent to a server\<close>

text \<open>
  The encoded text is made the first time and kept. The value is what \<open>n\<close> is at the end, if the
  function does not return before.
\<close>

definition bb_send_clientid ::
  "bool \<Rightarrow> byte list option \<Rightarrow> emwin_server \<Rightarrow> byte list option \<Rightarrow> chan \<Rightarrow> int option \<times> byte list option \<times> chan" where
  "bb_send_clientid mem_ok bbclientid es xor_id c =
     (if \<not> server_type_bbserver es \<or> \<not> valid_str bbclientid then (None, xor_id, c)
      else
        case (case xor_id of Some x \<Rightarrow> Some x
              | None \<Rightarrow> if mem_ok then Some (bb_xor (cstring (the bbclientid))) else None) of
          None \<Rightarrow> (Some (-1), None, c)
        | Some x \<Rightarrow> (case writen x 0 c of (n, c) \<Rightarrow> (Some n, Some x, c)))"

section \<open>The main loop\<close>

text \<open>
  Reading the list of servers again, after the signal: the program exits when the file cannot be
  read. \<open>fl\<close> and \<open>e\<close> are what reading the file gives.
\<close>

definition reload_servers_list ::
  "byte list option \<Rightarrow> list_env \<Rightarrow> tsv_st \<Rightarrow> emwin_server_list \<Rightarrow> bool \<times> emwin_server_list \<times> int list" where
  "reload_servers_list fl e st l =
     (case release_server_list l of
        (l, closed) \<Rightarrow> case get_server_list fl e st l of (status, l) \<Rightarrow> (status = -1 \<or> status = 1, l, closed))"

text \<open>
  A turn of the loop: the server, the flags, and a packet. The entry \<open>es\<close> of the list of
  servers is used to the end of the turn, also when the list has been released.
\<close>

datatype 'a turn_result = Exits | Uses_freed | Stuck | Turned 'a

record 'db turn_env =
  te_net :: "'db spawn_env \<times> (int \<Rightarrow> chan) \<times> poll_env \<times> bool \<times> bool"
  te_reload :: bool
  te_list :: "byte list option \<times> list_env \<times> tsv_st"
  te_send :: bool
  te_mem :: bool
  te_ne :: np_env

record np_conf =
  nc_server :: server_conf
  nc_bbclientid :: "byte list option"

definition npemwin_turn ::
  "'db dbops \<Rightarrow> np_conf \<Rightarrow> 'db turn_env \<Rightarrow> emwin_server \<Rightarrow> byte list option \<Rightarrow> chan \<Rightarrow> 'db np_st
     \<Rightarrow> (int \<times> byte list option \<times> chan \<times> 'db np_st) turn_result" where
  "npemwin_turn ops cf te es xor_id c np =
     (case (case np_sv np of
              None \<Rightarrow> Some np
            | Some sv \<Rightarrow> (case te_net te of (spe, chans, pe, st_ok, ac_ok) \<Rightarrow>
                map_option (\<lambda>(_, sv). np\<lparr>np_sv := Some sv\<rparr>) (network_server_loop ops (nc_server cf) spe chans pe st_ok ac_ok sv))) of
        None \<Rightarrow> Stuck
      | Some np \<Rightarrow>
          if te_reload te then
            (case te_list te of (fl, e, st) \<Rightarrow> if fst (reload_servers_list fl e st (np_es np)) then Exits else Uses_freed)
          else
            case (if te_send te then bb_send_clientid (te_mem te) (nc_bbclientid cf) es xor_id c else (None, xor_id, c)) of
              (_, xor_id, c) \<Rightarrow>
                case process_packets ops (te_ne te) es c np of
                  None \<Rightarrow> Stuck
                | Some (status, c, np) \<Rightarrow> Turned (status, xor_id, c, np))"

text \<open>
  The turns until the program quits (no turn is left) or the status is not 0. Before them a
  source is opened; \<open>chan_of\<close> is the channel of its descriptor.
\<close>

fun npemwin_turns ::
  "'db dbops \<Rightarrow> np_conf \<Rightarrow> 'db turn_env list \<Rightarrow> emwin_server \<Rightarrow> byte list option \<Rightarrow> chan \<Rightarrow> 'db np_st
     \<Rightarrow> (int \<times> byte list option \<times> chan \<times> 'db np_st) turn_result" where
  "npemwin_turns ops cf [] es xor_id c np = Turned (0, xor_id, c, np)"
| "npemwin_turns ops cf (te # tes) es xor_id c np =
     (case npemwin_turn ops cf te es xor_id c np of
        Turned (status, xor_id, c, np) \<Rightarrow>
          if status = 0 then npemwin_turns ops cf tes es xor_id c np else Turned (status, xor_id, c, np)
      | r \<Rightarrow> r)"

definition npemwin_loop ::
  "'db dbops \<Rightarrow> np_conf \<Rightarrow> int \<Rightarrow> int \<Rightarrow> (emwin_server \<Rightarrow> int \<times> int) \<Rightarrow> (int \<Rightarrow> chan) \<Rightarrow> 'db turn_env list \<Rightarrow> byte list option
     \<Rightarrow> 'db np_st \<Rightarrow> (int \<times> byte list option \<times> chan option \<times> 'db np_st) turn_result" where
  "npemwin_loop ops cf now max_bad open_server chan_of tes xor_id np =
     (case get_next_server now max_bad open_server (np_es np) of
        (None, l, _) \<Rightarrow> Turned (1, xor_id, None, np\<lparr>np_es := l\<rparr>)
      | (Some i, l, _) \<Rightarrow>
          let es = server l ! i in
          if es_fd es = -1 \<or> es_fd es = -2 then Turned (1, xor_id, None, np\<lparr>np_es := l\<rparr>)
          else case npemwin_turns ops cf tes es xor_id (chan_of (es_fd es)) (np\<lparr>np_es := l\<rparr>) of
              Exits \<Rightarrow> Exits | Uses_freed \<Rightarrow> Uses_freed | Stuck \<Rightarrow> Stuck
            | Turned (status, xor_id, c, np) \<Rightarrow> Turned (status, xor_id, Some c, np))"

text \<open>
  After the signal that makes the program read its list of servers again, the turn does not end
  well: the program exits, or it goes on with an entry of the list it has released.
\<close>

theorem reload_uses_freed_entry:
  "te_reload te \<Longrightarrow> npemwin_turn ops cf te es xor_id c np \<in> {Exits, Uses_freed, Stuck}"
  by (auto simp: npemwin_turn_def split: option.splits prod.splits)

section \<open>The queue runner\<close>

record runner_st =
  qrunner_pid :: int
  qrun_count :: int
  runq_last_time :: int
  rn_packet_count :: int
  children :: "int list"

text \<open>
  \<open>children\<close> are the processes started and not waited for yet, which the kernel keeps. \<open>fork_pid\<close>
  is what \<open>fork\<close> gives the parent.
\<close>

definition exec_qrunner :: "int \<Rightarrow> runner_st \<Rightarrow> runner_st" where
  "exec_qrunner fork_pid r =
     (let r = r\<lparr>qrun_count := qrun_count r + 1\<rparr> in if fork_pid = -1 then r else r\<lparr>qrunner_pid := fork_pid, children := fork_pid # children r\<rparr>)"

definition runq :: "int \<Rightarrow> int \<Rightarrow> runner_st \<Rightarrow> runner_st" where
  "runq qrunreportperiod fork_pid r =
     (if qrunner_pid r > 0 then r
      else exec_qrunner fork_pid
        (if qrunreportperiod > 0 \<and> qrun_count r \<ge> qrunreportperiod then r\<lparr>qrun_count := 0\<rparr> else r))"

text \<open>\<open>wait_pid\<close>: the answer of \<open>waitpid\<close> for the runner.\<close>

definition wait_qrunner :: "int \<Rightarrow> runner_st \<Rightarrow> int \<times> runner_st" where
  "wait_qrunner wait_pid r =
     (if qrunner_pid r < 0 then (-1, r)
      else if wait_pid \<le> 0 then (wait_pid, r)
      else
        let r = r\<lparr>children := removeAll wait_pid (children r)\<rparr>
        in (wait_pid, if wait_pid = qrunner_pid r then r\<lparr>qrunner_pid := -1\<rparr> else r))"

section \<open>Periodic tasks\<close>

text \<open>An event with its period, the next time, and how often its function was called.\<close>

record periodic_event_st =
  pe_period :: int
  pe_next :: int
  pe_calls :: nat

record minutely_event_st =
  last_minute :: int
  me_calls :: nat

record per_st =
  gevents :: "periodic_event_st list"
  gmevents :: "minutely_event_st list"
  per_runner :: runner_st
  greload_servers_list_flag :: bool

definition init_periodic :: "int list \<Rightarrow> int \<Rightarrow> int \<Rightarrow> per_st \<Rightarrow> per_st" where
  "init_periodic periods now minute_now s =
     s\<lparr>gevents := map (\<lambda>p. \<lparr>pe_period = p, pe_next = now + p, pe_calls = 0\<rparr>) periods,
       gmevents := map (\<lambda>e. e\<lparr>last_minute := minute_now\<rparr>) (gmevents s)\<rparr>"

definition run_event :: "int \<Rightarrow> periodic_event_st \<Rightarrow> periodic_event_st" where
  "run_event now ev =
     (if now \<ge> pe_next ev then ev\<lparr>pe_next := pe_next ev + pe_period ev, pe_calls := pe_calls ev + 1\<rparr> else ev)"

definition run_mevent :: "int \<Rightarrow> minutely_event_st \<Rightarrow> minutely_event_st" where
  "run_mevent minute_now ev =
     (if minute_now \<noteq> last_minute ev then ev\<lparr>last_minute := minute_now, me_calls := me_calls ev + 1\<rparr> else ev)"

text \<open>The times \<open>now\<close> and \<open>later\<close> are the two calls of \<open>time\<close>.\<close>

definition periodic ::
  "int \<Rightarrow> int \<Rightarrow> int \<Rightarrow> int \<Rightarrow> bool \<Rightarrow> int \<Rightarrow> int \<Rightarrow> int \<Rightarrow> per_st \<Rightarrow> per_st" where
  "periodic qrunperiod qrunreportperiod now minute_now hup wait_pid fork_pid later s =
     (let s = s\<lparr>gevents := map (run_event now) (gevents s), gmevents := map (run_mevent minute_now) (gmevents s)\<rparr>;
          s = (if hup then s\<lparr>greload_servers_list_flag := True\<rparr> else s)
      in case wait_qrunner wait_pid (per_runner s) of
          (pid, r) \<Rightarrow>
            if pid \<ge> 0 then s\<lparr>per_runner := r\<rparr>
            else if now - runq_last_time r \<ge> qrunperiod then
              s\<lparr>per_runner := (runq qrunreportperiod fork_pid r)\<lparr>rn_packet_count := 0, runq_last_time := later\<rparr>\<rparr>
            else s\<lparr>per_runner := r\<rparr>)"

text \<open>
  The states the calls of \<open>periodic\<close> reach, with the answers the kernel can give: \<open>waitpid\<close> for a
  process gives that process, 0 or -1; \<open>fork\<close> gives -1 or a positive number.
\<close>

inductive periodic_reachable :: "int \<Rightarrow> int \<Rightarrow> per_st \<Rightarrow> per_st \<Rightarrow> bool" for qp rp s0 where
  start: "periodic_reachable qp rp s0 s0"
| call: "periodic_reachable qp rp s0 s \<Longrightarrow> wait_pid \<in> {qrunner_pid (per_runner s), 0, -1} \<Longrightarrow> fork_pid = -1 \<or> fork_pid > 0 \<Longrightarrow>
    periodic_reachable qp rp s0 (periodic qp rp now minute_now hup wait_pid fork_pid later s)"

definition one_runner :: "runner_st \<Rightarrow> bool" where
  "one_runner r \<longleftrightarrow> children r = [] \<and> qrunner_pid r = -1 \<or> children r = [qrunner_pid r] \<and> qrunner_pid r > 0"

lemma one_runner_wait:
  assumes "one_runner r" "wait_pid \<in> {qrunner_pid r, 0, -1}" "wait_qrunner wait_pid r = (pid, r')"
  shows "one_runner r'"
  using assms by (auto simp: one_runner_def wait_qrunner_def Let_def split: if_splits)

lemma one_runner_runq:
  "one_runner r \<Longrightarrow> fork_pid = -1 \<or> fork_pid > 0 \<Longrightarrow> one_runner (runq rp fork_pid r)"
  by (auto simp: one_runner_def runq_def exec_qrunner_def Let_def)

lemma one_runner_more [simp]: "one_runner (r\<lparr>rn_packet_count := x, runq_last_time := y\<rparr>) = one_runner r"
  by (simp add: one_runner_def)

text \<open>
  C25. There is never more than one queue runner: in every state the periodic tasks reach, the
  program has at most one child it has not waited for, and that child is the process it
  remembers, so that it will wait for it.
\<close>

theorem at_most_one_qrunner:
  assumes "periodic_reachable qp rp s0 s" "qrunner_pid (per_runner s0) = -1" "children (per_runner s0) = []"
  shows "length (children (per_runner s)) \<le> 1 \<and> set (children (per_runner s)) \<subseteq> {qrunner_pid (per_runner s)}"
proof -
  have "one_runner (per_runner s)"
    using assms
  proof (induction rule: periodic_reachable.induct)
    case start
    then show ?case by (simp add: one_runner_def)
  next
    case (call s wait_pid fork_pid now minute_now hup later)
    obtain pid r where w: "wait_qrunner wait_pid (per_runner s) = (pid, r)" by fastforce
    with one_runner_wait [OF _ call.hyps(2)] call have "one_runner r" by blast
    then show ?case
      using w one_runner_runq [OF _ call.hyps(3)] by (auto simp: periodic_def Let_def)
  qed
  then show ?thesis by (auto simp: one_runner_def)
qed

definition per0 :: per_st where
  "per0 = \<lparr>gevents = [], gmevents = [], per_runner = \<lparr>qrunner_pid = -1, qrun_count = 0, runq_last_time = 0, rn_packet_count = 0, children = []\<rparr>,
     greload_servers_list_flag = False\<rparr>"

theorem at_most_one_qrunner_witness:
  "children (per_runner (periodic 5 0 100 1 False (-1) 42 100 per0)) = [42]
   \<and> length (children (per_runner (periodic 5 0 105 1 False 0 43 105 (periodic 5 0 100 1 False (-1) 42 100 per0)))) \<le> 1"
proof -
  have 1: "periodic_reachable 5 0 per0 (periodic 5 0 100 1 False (-1) 42 100 per0)"
    by (intro periodic_reachable.intros) simp_all
  have "periodic_reachable 5 0 per0 (periodic 5 0 105 1 False 0 43 105 (periodic 5 0 100 1 False (-1) 42 100 per0))"
    by (rule periodic_reachable.call [OF 1]) simp_all
  from at_most_one_qrunner [OF this] show ?thesis
    by (simp add: per0_def periodic_def wait_qrunner_def runq_def exec_qrunner_def)
qed

text \<open>
  C26. The periodic events do not drift: however late and however often the tasks are looked at,
  the next time of an event is its first time plus a whole number of periods, one for each call,
  and an event is never called before its time.
\<close>

theorem events_do_not_drift:
  assumes "0 < pe_period ev" "\<forall>t \<in> set ts. t \<le> T" and "ev' = fold run_event ts ev"
  shows "pe_calls ev \<le> pe_calls ev' \<and> pe_next ev' = pe_next ev + int (pe_calls ev' - pe_calls ev) * pe_period ev
    \<and> (pe_calls ev < pe_calls ev' \<longrightarrow> pe_next ev' - pe_period ev \<le> T)"
  using assms
proof (induction ts arbitrary: ev)
  case Nil
  then show ?case by simp
next
  case (Cons t ts)
  show ?case
  proof (cases "t \<ge> pe_next ev")
    case True
    define ev1 where "ev1 = ev\<lparr>pe_next := pe_next ev + pe_period ev, pe_calls := pe_calls ev + 1\<rparr>"
    have "pe_calls ev1 \<le> pe_calls ev' \<and> pe_next ev' = pe_next ev1 + int (pe_calls ev' - pe_calls ev1) * pe_period ev1
        \<and> (pe_calls ev1 < pe_calls ev' \<longrightarrow> pe_next ev' - pe_period ev1 \<le> T)"
      using Cons.prems True by (intro Cons.IH) (auto simp: ev1_def run_event_def)
    moreover have e: "pe_calls ev1 = pe_calls ev + 1" "pe_next ev1 = pe_next ev + pe_period ev" "pe_period ev1 = pe_period ev"
      by (simp_all add: ev1_def)
    ultimately have a: "pe_calls ev + 1 \<le> pe_calls ev'"
      "pe_next ev' = pe_next ev + pe_period ev + int (pe_calls ev' - (pe_calls ev + 1)) * pe_period ev"
      "pe_calls ev + 1 < pe_calls ev' \<longrightarrow> pe_next ev' - pe_period ev \<le> T"
      unfolding e by blast+
    have "int (pe_calls ev' - pe_calls ev) = int (pe_calls ev' - (pe_calls ev + 1)) + 1" using a(1) by simp
    then have "pe_next ev' = pe_next ev + int (pe_calls ev' - pe_calls ev) * pe_period ev"
      using a(2) by (simp add: ring_distribs)
    moreover have "pe_next ev' - pe_period ev \<le> T"
      using a True Cons.prems(2) by (cases "pe_calls ev + 1 = pe_calls ev'") auto
    ultimately show ?thesis using a(1) by simp
  next
    case False
    then have "run_event t ev = ev" by (simp add: run_event_def)
    with Cons.prems have "\<forall>t \<in> set ts. t \<le> T" "ev' = fold run_event ts ev" by simp_all
    from Cons.IH [OF Cons.prems(1) this] show ?thesis .
  qed
qed

theorem events_do_not_drift_witness:
  "let ev = \<lparr>pe_period = 60, pe_next = 60, pe_calls = 0\<rparr>; ev' = fold run_event [10, 130, 131] ev
   in pe_next ev' = 60 + int (pe_calls ev' - 0) * 60"
  using events_do_not_drift [of "\<lparr>pe_period = 60, pe_next = 60, pe_calls = 0\<rparr>" "[10, 130, 131]" 131, OF _ _ refl] by (simp add: Let_def)

section \<open>Nothing that arrives stops the program\<close>

lemma packet_stats_frame:
  assumes "\<not> server_type_wx14_msg_device es"
  shows "np_g (packet_stats ne es status np) = np_g np" "np_sv (packet_stats ne es status np) = np_sv np"
    "np_fs (packet_stats ne es status np) = np_fs np" "np_seq (packet_stats ne es status np) = np_seq np"
    "packet_count (packet_stats ne es status np) = packet_count np"
  using assms by (simp_all add: packet_stats_def Let_def split: prod.splits)

lemma readn_length: "readn sz retry c = (int sz, bs, c') \<Longrightarrow> length bs = sz"
  using sreadm_loop_range [of sz retry "[]" c] by (auto simp: readn_def sreadm_def split: prod.splits)

text \<open>A packet that is handed on is a server list, or a data packet that fits the spool.\<close>

lemma get_emwin_packet_bb_ok:
  assumes "get_emwin_packet_bb env retry c ep g = (0, ep', g', c')"
  shows "bbtype ep' = BB_PACKET_TYPE_SRVLIST \<or> block_ok (filename (header ep')) ep'"
proof -
  obtain st b1 c1 where b1: "bb_readn 1 retry c = (st, b1, c1)" by (metis prod_cases3)
  then have s0: "st = 0" and l1: "length b1 = 1"
    using assms bb_readn_outcome [OF b1] by (auto simp: get_emwin_packet_bb_def split: if_splits)
  show ?thesis
  proof (cases "bb_is_emwin_data_packet (hd b1)")
    case True
    obtain st2 bs c2 where bs: "bb_readn (EMWIN_PACKET_SIZE - 1) retry c1 = (st2, bs, c2)" by (metis prod_cases3)
    have s2: "st2 = 0" using assms b1 s0 bs True by (auto simp: get_emwin_packet_bb_def Let_def split: if_splits)
    then have "fill_packet_struct_bb env (ep\<lparr>bbtype := BB_PACKET_TYPE_DATA\<rparr>) (b1 @ bs) g = (0, ep', g')"
      using assms b1 s0 bs True by (auto simp: get_emwin_packet_bb_def Let_def split: prod.splits)
    moreover have "length (b1 @ bs) \<le> EMWIN_PACKET_SIZE"
      using bb_readn_outcome [OF bs] s2 l1 by (simp add: emwin_consts)
    ultimately show ?thesis using fill_packet_block_ok by blast
  next
    case False
    then show ?thesis
      using assms b1 s0
      by (auto simp: get_emwin_packet_bb_def try_serverlist_def Let_def split: if_splits prod.splits)
  qed
qed

lemma get_emwin_packet_serial_ok:
  assumes "get_emwin_packet_serial env retry c ep g = (0, ep', g', c')"
  shows "block_ok (filename (header ep')) ep'"
proof -
  obtain n bs c1 where r: "readn EMWIN_PACKET_SIZE retry c = (n, bs, c1)" by (metis prod_cases3)
  then have n: "n = int EMWIN_PACKET_SIZE" using assms by (auto simp: get_emwin_packet_serial_def Let_def split: if_splits)
  then have "fill_packet_struct_serial env (ep\<lparr>bbtype := BB_PACKET_TYPE_DATA\<rparr>) bs g = (0, ep', g')"
    using assms r by (auto simp: get_emwin_packet_serial_def Let_def split: prod.splits)
  moreover have "length bs = EMWIN_PACKET_SIZE" using r n readn_length by blast
  ultimately show ?thesis using fill_packet_block_ok by (metis order_refl)
qed

lemma get_packet_ok:
  assumes "\<not> server_type_wx14_msg_device es"
  shows "\<exists>status ep c' g. get_packet ne es c np = Some (status, ep, c', np\<lparr>np_g := g\<rparr>)
    \<and> (status = 0 \<longrightarrow> bbtype ep = BB_PACKET_TYPE_SRVLIST \<or> block_ok (filename (header ep)) ep)"
proof -
  obtain st ep g c1 where b: "get_emwin_packet_bb (ne_fill ne) (ne_retry ne) c (ne_uninit ne) (np_g np) = (st, ep, g, c1)"
    by (metis prod_cases4)
  obtain st2 ep2 g2 c2 where s: "get_emwin_packet_serial (ne_fill ne) (ne_retry ne) c (ne_uninit ne) (np_g np) = (st2, ep2, g2, c2)"
    by (metis prod_cases4)
  have "st = 0 \<Longrightarrow> bbtype ep = BB_PACKET_TYPE_SRVLIST \<or> block_ok (filename (header ep)) ep"
      "st2 = 0 \<Longrightarrow> block_ok (filename (header ep2)) ep2"
    using get_emwin_packet_bb_ok get_emwin_packet_serial_ok b s by blast+
  then show ?thesis
    using assms b s
    by (auto simp: get_packet_def get_emwin_packet_wx14_raw_def get_emwin_packet_infeed_def Let_def)
qed

text \<open>The elements after a packet was sent.\<close>

lemma delivered_frame:
  "has_queue ce \<Longrightarrow> has_queue (delivered ops data ce)"
  "conn_element_isnetclient_running (delivered ops data ce) = conn_element_isnetclient_running ce"
  "appdata (delivered ops data ce) = appdata ce"
  by (auto simp: delivered_def has_queue_def conn_element_isnetclient_running_def conn_element_isnetclient_def
      conn_element_get_created_flag_def conn_element_get_finished_flag_def split: ptr.splits list.splits prod.splits)

lemma after_send_frame:
  "has_queue ce \<Longrightarrow> has_queue (after_send ops ep ce)"
  "conn_element_isnetclient_running (after_send ops ep ce) = conn_element_isnetclient_running ce"
  "appdata (after_send ops ep ce) = appdata ce"
  by (simp_all add: after_send_def delivered_frame)

definition clients_ready :: "'db conn_table_st \<Rightarrow> bool" where
  "clients_ready ct \<longleftrightarrow> (\<forall>ce \<in> set (ct_ce ct). conn_element_isnetclient_running ce \<longrightarrow> has_queue ce)
     \<and> nclients ct = int (length (filter conn_element_isnetclient (ct_ce ct)))"

lemma server_send_ok:
  assumes "clients_ready ct"
  shows "\<exists>rs. server_send_client_queues ops ep ct = Some (rs, ct\<lparr>ct_ce := map (after_send ops ep) (ct_ce ct)\<rparr>)"
    and "clients_ready (ct\<lparr>ct_ce := map (after_send ops ep) (ct_ce ct)\<rparr>)"
proof -
  have q: "\<forall>ce \<in> set (ct_ce ct). conn_element_isnetclient_running ce \<longrightarrow> has_queue ce"
    using assms by (simp add: clients_ready_def)
  show "\<exists>rs. server_send_client_queues ops ep ct = Some (rs, ct\<lparr>ct_ce := map (after_send ops ep) (ct_ce ct)\<rparr>)"
  proof (cases "nclients ct = 0")
    case True
    then have "filter conn_element_isnetclient (ct_ce ct) = []" using assms by (simp add: clients_ready_def)
    then have "map (after_send ops ep) (ct_ce ct) = ct_ce ct"
      by (intro map_idI) (auto simp: after_send_def conn_element_isnetclient_running_def filter_empty_conv)
    then show ?thesis using True by (simp add: server_send_client_queues_def)
  next
    case False
    then show ?thesis using send_loop_after [OF q, of ops ep 0 0] by (auto simp: server_send_client_queues_def)
  qed
  have t: "conn_element_isnetclient (after_send ops ep ce) = conn_element_isnetclient ce" for ce
    by (auto simp: after_send_def delivered_def conn_element_isnetclient_def split: ptr.splits list.splits prod.splits)
  show "clients_ready (ct\<lparr>ct_ce := map (after_send ops ep) (ct_ce ct)\<rparr>)"
    using assms by (auto simp: clients_ready_def after_send_frame filter_map comp_def t)
qed

text \<open>The invariant of the main thread, and files that are none of the queue files of the spool.\<close>

definition np_ok :: "spool_conf \<Rightarrow> 'db np_st \<Rightarrow> bool" where
  "np_ok cf np \<longleftrightarrow> spool_ready cf (np_fs np) \<and> seqnum_ok (np_seq np)
     \<and> (case np_sv np of None \<Rightarrow> True | Some sv \<Rightarrow> clients_ready (sv_ct sv))"

definition lists_apart :: "np_env \<Rightarrow> bool" where
  "lists_apart ne \<longleftrightarrow> (\<forall>name. ne_bbserverlist ne \<noteq> qtmp_file (ne_conf ne) name \<and> ne_bbserverlist_raw ne \<noteq> qtmp_file (ne_conf ne) name)"

lemma save_server_list_keeps:
  assumes "spool_ready (ne_conf ne) fs" "lists_apart ne"
    and "save_server_list a b d (ne_bbserverlist_raw ne) (ne_bbserverlist ne) ep fs = (st, fs')"
  shows "spool_ready (ne_conf ne) fs'"
  using assms
  by (auto simp: save_server_list_def write_server_list_def lists_apart_def Let_def split: if_splits intro!: spool_ready_upd(1))

text \<open>What processing a packet does: the packet goes to the clients if it was accepted.\<close>

definition sent_to_clients :: "'db dbops \<Rightarrow> emwin_packet \<Rightarrow> 'db server_st \<Rightarrow> 'db server_st" where
  "sent_to_clients ops ep sv = sv\<lparr>sv_ct := (sv_ct sv)\<lparr>ct_ce := map (after_send ops ep) (ct_ce (sv_ct sv))\<rparr>\<rparr>"

lemma process_packets_step:
  assumes "\<not> server_type_wx14_msg_device es" "np_ok (ne_conf ne) np" "spool_conf_ok (ne_conf ne)" "lists_apart ne"
    and "os_write_qtmp (ne_os ne) = Qw_all"
  shows "\<exists>status ep c' g st np'. get_packet ne es c np = Some (status, ep, c', np\<lparr>np_g := g\<rparr>)
    \<and> process_packets ops ne es c np = Some (st, c', np') \<and> np_ok (ne_conf ne) np'
    \<and> np_sv np' = (if status = 0 then map_option (sent_to_clients ops ep) (np_sv np) else np_sv np)"
proof -
  obtain status ep c' g where p: "get_packet ne es c np = Some (status, ep, c', np\<lparr>np_g := g\<rparr>)"
    "status = 0 \<longrightarrow> bbtype ep = BB_PACKET_TYPE_SRVLIST \<or> block_ok (filename (header ep)) ep"
    using get_packet_ok [OF assms(1)] by blast
  define np1 where "np1 = packet_stats ne es status (np\<lparr>np_g := g\<rparr>)"
  note fr = packet_stats_frame [OF assms(1), of ne status "np\<lparr>np_g := g\<rparr>", folded np1_def]
  have ok1: "np_ok (ne_conf ne) np1" using assms(2) fr by (simp add: np_ok_def)
  obtain np2 where send: "(case np_sv np1 of None \<Rightarrow> Some np1
      | Some sv \<Rightarrow> map_option (\<lambda>(_, ct). np1\<lparr>np_sv := Some (sv\<lparr>sv_ct := ct\<rparr>)\<rparr>) (server_send_client_queues ops ep (sv_ct sv))) = Some np2"
    and ok2: "np_ok (ne_conf ne) np2" and sv2: "np_sv np2 = map_option (sent_to_clients ops ep) (np_sv np)"
  proof (cases "np_sv np1")
    case None
    with ok1 that fr show ?thesis by simp
  next
    case (Some sv)
    then have "clients_ready (sv_ct sv)" using ok1 by (simp add: np_ok_def)
    from server_send_ok [OF this, of ops ep] obtain rs where
      "server_send_client_queues ops ep (sv_ct sv) = Some (rs, (sv_ct sv)\<lparr>ct_ce := map (after_send ops ep) (ct_ce (sv_ct sv))\<rparr>)"
      "clients_ready ((sv_ct sv)\<lparr>ct_ce := map (after_send ops ep) (ct_ce (sv_ct sv))\<rparr>)" by blast
    with Some ok1 that fr show ?thesis by (simp add: np_ok_def sent_to_clients_def)
  qed
  have "\<exists>st np'. process_packets ops ne es c np = Some (st, c', np') \<and> np_ok (ne_conf ne) np'
    \<and> np_sv np' = (if status = 0 then map_option (sent_to_clients ops ep) (np_sv np) else np_sv np)"
  proof (cases "status = 0")
    case False
    with p(1) ok1 fr show ?thesis by (simp add: process_packets_def np1_def [symmetric] Let_def)
  next
    case st: True
    note np1 = np1_def [unfolded st, symmetric]
    show ?thesis
    proof (cases "bbtype ep = BB_PACKET_TYPE_SRVLIST")
      case True
      obtain raw_ok open_ok room where l: "ne_list_ok ne = (raw_ok, open_ok, room)" by (metis prod_cases3)
      obtain st' fs where s: "save_server_list raw_ok open_ok room (ne_bbserverlist_raw ne) (ne_bbserverlist ne) ep (np_fs np2) = (st', fs)"
        by fastforce
      have "spool_ready (ne_conf ne) fs" using save_server_list_keeps [OF _ assms(4) s] ok2 by (simp add: np_ok_def)
      moreover have "process_packets ops ne es c np = Some (0, c', np2\<lparr>np_fs := fs\<rparr>)"
        using p(1) st True send l s by (simp add: process_packets_def np1)
      ultimately show ?thesis using p(1) st ok2 sv2 by (simp add: np_ok_def)
    next
      case False
      then have "block_ok (filename (header ep)) ep" using p(2) st by blast
      from save_emwin_packet_keeps [OF assms(3) _ _ assms(5) this, of "np_fs np2" "np_seq np2" "ne_stamp ne"] ok2
      obtain st' fs seq where "save_emwin_packet (ne_os ne) (ne_stamp ne) (ne_conf ne) (init_emwin_qfiles (ne_conf ne)) ep (np_fs np2) (np_seq np2)
          = Some (st', fs, seq)" "spool_ready (ne_conf ne) fs" "seqnum_ok seq"
        by (auto simp: np_ok_def)
      with p(1) st False send ok2 sv2 show ?thesis
        by (simp add: process_packets_def np1 exec_filter_def np_ok_def)
    qed
  qed
  with p(1) show ?thesis by blast
qed

text \<open>
  C6. Nothing that arrives stops the program: whatever bytes a source delivers (other than the
  message port of a WX14), with whatever errors and timeouts, and whatever system calls fail,
  short of a half-written queue file, processing a packet ends with a status. No assertion
  fails, and the invariants of the spool directory, of the generator of its keys and of the table
  of the clients hold again, so that the next packet can be processed.
\<close>

theorem process_packets_safe:
  assumes "\<not> server_type_wx14_msg_device es" "np_ok (ne_conf ne) np" "spool_conf_ok (ne_conf ne)" "lists_apart ne"
    and "os_write_qtmp (ne_os ne) = Qw_all"
  shows "\<exists>status c' np'. process_packets ops ne es c np = Some (status, c', np') \<and> np_ok (ne_conf ne) np'"
  using process_packets_step [OF assms] by blast

text \<open>An idle server to evaluate on.\<close>

definition ne0 :: np_env where
  "ne0 = \<lparr>ne_fill = env0, ne_retry = 0, ne_clk = (\<lambda>_. 0), ne_min_consecutive = 10, ne_stats_ok = Some 100, ne_wx14_ok = True,
     ne_os = os0, ne_stamp = 7, ne_conf = cf0, ne_list_ok = (True, True, 2000), ne_bbserverlist_raw = cstr ''raw'',
     ne_bbserverlist = cstr ''list'', ne_uninit = ep0\<rparr>"

definition np0 :: "byte list list np_st" where
  "np0 = \<lparr>np_es = two_servers, np_g = g0,
     np_wx14msg = \<lparr>message = replicate 1121 0, msg_type = 0, dataN = 0, data_set = False, emwin_block_index = 0,
       emwin_block = replicate 1116 0, emwin_block_size = 0, emwin_block_part = replicate 1122 9,
       emwin_block_part_size = 1110, wx14ss = ss0\<rparr>,
     np_sv = None, np_fs = Map.empty, np_seq = 123456, packet_count = 0, np_statusfile = [], np_wx14_statusfile = [], np_wx14_logfile = []\<rparr>"

lemma lists_apart0: "lists_apart ne0"
proof -
  have "hd (qtmp_file cf0 name) = hd (spool_path cf0 [] [])" for name
    by (simp add: qtmp_file_def spool_path_def cf0_def cstr_def)
  moreover have "hd (cstr ''raw'') \<noteq> hd (spool_path cf0 [] [])" "hd (cstr ''list'') \<noteq> hd (spool_path cf0 [] [])"
    by (simp_all add: spool_path_def cf0_def cstr_def)
  ultimately show ?thesis unfolding lists_apart_def ne0_def by (metis np_env.select_convs(9,11,12))
qed

lemma np0_ok: "np_ok cf0 np0"
  by (simp add: np_ok_def np0_def spool_ready_def seqnum_ok_def seqnum_consts)

theorem process_packets_safe_witness:
  "\<exists>status c' np'. process_packets list_db ne0 (raw_server\<lparr>es_type := EMWIN_SERVER_TYPE_BB\<rparr>)
      \<lparr>ch_rx = [Rx_data [255, 3]], ch_tx = [], ch_intr = [], ch_out = []\<rparr> np0 = Some (status, c', np') \<and> np_ok cf0 np'"
  using process_packets_safe [of "raw_server\<lparr>es_type := EMWIN_SERVER_TYPE_BB\<rparr>" ne0 np0] lists_apart0 np0_ok cf0_ok
  by (simp add: server_type_wx14_msg_device_def ne0_def os0_def)

end
