(* ===== verification/Relay.thy ===== *)
theory Relay
  imports Delivery Npemwin
begin

text \<open>
  From a ByteBlaster server to a client: the main thread (\<open>process_packets\<close> of \<open>src/npemwin.c\<close>)
  and the thread of a client (\<open>src/serverc.c\<close>) taking turns. They share the queue of the client,
  which is the \<open>ce_cq\<close> of its element in the table and of the copy the thread works with.
\<close>

section \<open>The two threads\<close>

datatype feed_act = Packet np_env | Thread "bool \<times> nat \<times> (nat \<times> nat)"

definition client_at :: "nat \<Rightarrow> 'db np_st \<Rightarrow> 'db conn_element_st" where
  "client_at i np = ct_ce (sv_ct (the (np_sv np))) ! i"

definition put_queue :: "nat \<Rightarrow> 'db connqueue_st ptr \<Rightarrow> 'db np_st \<Rightarrow> 'db np_st" where
  "put_queue i cqp np =
     np\<lparr>np_sv := map_option (\<lambda>sv. sv\<lparr>sv_ct := (sv_ct sv)\<lparr>ct_ce := (ct_ce (sv_ct sv))[i := (ct_ce (sv_ct sv) ! i)\<lparr>ce_cq := cqp\<rparr>]\<rparr>\<rparr>) (np_sv np)\<rparr>"

text \<open>
  The source, the main thread, the element of the thread, and the channel to the client. The main
  thread goes on whatever the status of a packet was, where the loop of the program would leave
  the source after some of them: the runs include those of the program.
\<close>

fun run_feed ::
  "'db dbops \<Rightarrow> emwin_server \<Rightarrow> nat \<Rightarrow> int \<Rightarrow> int \<Rightarrow> int \<Rightarrow> feed_act list
     \<Rightarrow> chan \<times> 'db np_st \<times> 'db conn_element_st \<times> chan \<Rightarrow> (chan \<times> 'db np_st \<times> 'db conn_element_st \<times> chan) option" where
  "run_feed ops es i ms retry lf [] s = Some s"
| "run_feed ops es i ms retry lf (Packet ne # acts) (c, np, ce, d) =
     Option.bind (process_packets ops ne es c np) (\<lambda>(_, c, np).
       run_feed ops es i ms retry lf acts (c, np, ce\<lparr>ce_cq := ce_cq (client_at i np)\<rparr>, d))"
| "run_feed ops es i ms retry lf (Thread (f, now, tv) # acts) (c, np, ce, d) =
     (if f_exit ce then run_feed ops es i ms retry lf acts (c, np, ce, d)
      else Option.bind (client_turn ops ms retry lf (f, now, tv, []) (ce, d)) (\<lambda>(ce, d).
        run_feed ops es i ms retry lf acts (c, put_queue i (ce_cq ce) np, ce, d)))"

text \<open>What the thread sees of it: the packets of the stream put into its queue.\<close>

fun client_acts :: "feed_act list \<Rightarrow> byte list list \<Rightarrow> client_act list" where
  "client_acts (Packet ne # acts) (p # ps) = Put p # client_acts acts ps"
| "client_acts (Thread t # acts) ps = Turn t # client_acts acts ps"
| "client_acts _ _ = []"

definition packets :: "feed_act list \<Rightarrow> np_env list" where
  "packets acts = concat (map (\<lambda>a. case a of Packet ne \<Rightarrow> [ne] | Thread _ \<Rightarrow> []) acts)"

lemma packets_simps [simp]:
  "packets [] = []" "packets (Packet ne # acts) = ne # packets acts" "packets (Thread t # acts) = packets acts"
  "packets (acts @ acts') = packets acts @ packets acts'" "packets (map Thread ts) = []"
  by (simp_all add: packets_def)

lemma puts_client_acts: "length ps = length (packets acts) \<Longrightarrow> puts (client_acts acts ps) = ps"
  by (induction acts ps rule: client_acts.induct) auto

lemma client_acts_Thread: "client_acts (map Thread ts) [] = map Turn ts"
  by (induction ts) auto

lemma client_acts_turns:
  "length ps = length (packets acts) \<Longrightarrow> client_acts (acts @ map Thread ts) ps = client_acts acts ps @ map Turn ts"
  by (induction acts ps rule: client_acts.induct) (auto simp: client_acts_Thread)

section \<open>One packet\<close>

text \<open>An accepted packet is queued byte for byte.\<close>

lemma fill_bb_queue:
  assumes "fill_packet_struct_bb env ep bb g = (status, ep', g')"
  shows "queue_data_v1 ep' = envelope bb"
proof -
  from assms have r: "fill_packet_rest env (ep\<lparr>bbdata := bb,
      rawdata := map (\<lambda>b. b XOR 0xff) (take (length bb - 12) (drop 6 bb)),
      data_size := length bb - 12 - 80\<rparr>) g = (status, ep', g')"
    by (simp add: fill_packet_struct_bb_def Let_def emwin_consts)
  then show ?thesis by (auto elim!: fill_packet_restE dest!: build_queues_frame decode_header_frame)
qed

text \<open>A packet of the stream that every decoder accepts, and the environment of a turn.\<close>

definition good_packet :: "np_env \<Rightarrow> byte list \<Rightarrow> bool" where
  "good_packet ne p \<longleftrightarrow> length p = EMWIN_PACKET_SIZE \<and> bb_is_emwin_data_packet (hd p)
     \<and> (\<forall>ep g. fst (fill_packet_struct_bb (ne_fill ne) ep p g) = 0)"

definition feed_env :: "spool_conf \<Rightarrow> int \<Rightarrow> np_env \<Rightarrow> bool" where
  "feed_env cf retry ne \<longleftrightarrow> ne_conf ne = cf \<and> ne_retry ne = retry \<and> lists_apart ne \<and> os_write_qtmp (ne_os ne) = Qw_all"

text \<open>Client number \<open>i\<close> of the table is served with the first protocol.\<close>

definition served :: "nat \<Rightarrow> 'db np_st \<Rightarrow> bool" where
  "served i np \<longleftrightarrow> (\<exists>sv. np_sv np = Some sv \<and> i < length (ct_ce (sv_ct sv)))
     \<and> conn_element_isnetclient_running (client_at i np) \<and> appdata (client_at i np) = Some 1"

lemma packet_step:
  assumes "server_type_bbserver es" "spool_conf_ok cf" "np_ok cf np" "feed_env cf retry ne" "served i np"
    and "flowing retry c" "pending c = p @ rest" "good_packet ne p"
  shows "\<exists>st c' np'. process_packets ops ne es c np = Some (st, c', np') \<and> np_ok cf np' \<and> served i np'
    \<and> client_at i np' = delivered ops (envelope p) (client_at i np) \<and> flowing retry c' \<and> pending c' = rest"
proof -
  have t: "\<not> server_type_wx14_msg_device es" "\<not> server_type_wx14_raw_device es" "\<not> server_type_serial_device es" "\<not> server_type_infeed es"
    using assms(1) by (simp_all add: server_type_bbserver_def server_type_infeed_def server_type_wx14_msg_device_def
        server_type_wx14_raw_device_def server_type_serial_device_def)
  have e: "ne_conf ne = cf" "ne_retry ne = retry" "lists_apart ne" "os_write_qtmp (ne_os ne) = Qw_all" using assms(4) by (auto simp: feed_env_def)
  have g: "length p = EMWIN_PACKET_SIZE" "bb_is_emwin_data_packet (hd p)"
    "\<And>ep g. fst (fill_packet_struct_bb (ne_fill ne) ep p g) = 0" using assms(8) by (auto simp: good_packet_def)
  obtain ep g' where f: "fill_packet_struct_bb (ne_fill ne) ((ne_uninit ne)\<lparr>bbtype := BB_PACKET_TYPE_DATA\<rparr>) p (np_g np) = (0, ep, g')"
    using g(3) by (metis prod.collapse)
  obtain c' where c': "get_emwin_packet_bb (ne_fill ne) retry c (ne_uninit ne) (np_g np) = (0, ep, g', c')" "flowing retry c'" "pending c' = rest"
    using get_emwin_packet_bb_deliver [OF assms(6,7) g(1,2) f] by blast
  have gp: "get_packet ne es c np = Some (0, ep, c', np\<lparr>np_g := g'\<rparr>)"
    using t c'(1) e(2) by (simp add: get_packet_def Let_def)
  obtain st np' where pp: "process_packets ops ne es c np = Some (st, c', np')" "np_ok cf np'"
    "np_sv np' = map_option (sent_to_clients ops ep) (np_sv np)"
    using process_packets_step [OF t(1), of ne np c ops] assms(2,3) e(1,3,4) gp by auto
  obtain sv where sv: "np_sv np = Some sv" "i < length (ct_ce (sv_ct sv))" using assms(5) by (auto simp: served_def)
  have "client_at i np' = after_send ops ep (client_at i np)"
    using sv pp(3) by (simp add: client_at_def sent_to_clients_def)
  moreover have "after_send ops ep (client_at i np) = delivered ops (envelope p) (client_at i np)"
    using assms(5) fill_bb_queue [OF f] by (simp add: served_def after_send_def)
  ultimately have d: "client_at i np' = delivered ops (envelope p) (client_at i np)" by simp
  have "served i np'" using assms(5) sv pp(3) d by (auto simp: served_def delivered_frame sent_to_clients_def)
  with pp c' d show ?thesis by blast
qed

section \<open>The run\<close>

lemma client_turn_queue:
  assumes "client_turn ops ms retry lf (f, now, tv, []) (ce, d) = Some (ce', d')" "has_queue ce"
  shows "has_queue ce'"
proof -
  have *: "has_queue (ce\<lparr>ce_cq := Ptr cq'\<rparr>)" if "connqueue_rcv ops ms tv evs cq = Some (st, err, data, cq')" "nbspq (cq_qt cq) \<noteq> []"
    for ce :: "'a conn_element_st" and cq cq' st err data evs
    using that by (auto simp: connqueue_rcv_def nbspqt_rcv_def has_queue_def split: if_splits prod.splits)
  have cs: "has_queue (ce\<lparr>ce_cs := x\<rparr>) = has_queue ce" "has_queue (conn_element_set_exit_flag ce) = has_queue ce"
    for ce :: "'a conn_element_st" and x by (simp_all add: has_queue_def conn_element_set_exit_flag_def)
  obtain ce1 where p: "client_periodic f now lf ce = Some ce1" "client_loop ops ms tv [] retry ce1 d = Some (ce', d')"
    using assms(1) by (auto simp: client_turn_def bind_eq_Some_conv)
  have h1: "has_queue ce1"
    using p(1) assms(2) by (auto simp: client_periodic_def conn_element_report_cstats_def cs split: ptr.splits if_splits)
  obtain cq where cq: "ce_cq ce1 = Ptr cq" "nbspq (cq_qt cq) \<noteq> []"
    using h1 by (auto simp: has_queue_def split: ptr.splits)
  obtain st err data cq' where r: "connqueue_rcv ops ms tv [] cq = Some (st, err, data, cq')"
    using p(2) cq(1) by (auto simp: client_loop_def split: option.splits)
  show ?thesis
    using p(2) cq(1) r * [OF r cq(2)]
    by (auto simp: client_loop_def send_emwin_client_def Let_def cs split: option.splits if_splits prod.splits)
qed


lemma length_filter_cong_map:
  assumes "map P xs = map P ys"
  shows "length (filter P xs) = length (filter P ys)"
proof -
  have eq: "length (filter P zs) = length (filter id (map P zs))" for zs by (simp add: filter_map)
  show ?thesis by (simp only: eq assms)
qed

lemma put_queue_ok:
  assumes "np_ok cf np" "served i np" "has_queue ce"
  shows "np_ok cf (put_queue i (ce_cq ce) np)" "served i (put_queue i (ce_cq ce) np)"
    "client_at i (put_queue i (ce_cq ce) np) = (client_at i np)\<lparr>ce_cq := ce_cq ce\<rparr>"
proof -
  obtain sv where sv: "np_sv np = Some sv" "i < length (ct_ce (sv_ct sv))" using assms(2) by (auto simp: served_def)
  show a: "client_at i (put_queue i (ce_cq ce) np) = (client_at i np)\<lparr>ce_cq := ce_cq ce\<rparr>"
    using sv by (simp add: client_at_def put_queue_def)
  have r: "conn_element_isnetclient_running (x\<lparr>ce_cq := y\<rparr>) = conn_element_isnetclient_running x"
    "conn_element_isnetclient (x\<lparr>ce_cq := y\<rparr>) = conn_element_isnetclient x" for x :: "'a conn_element_st" and y
    by (simp_all add: conn_element_isnetclient_running_def conn_element_isnetclient_def conn_element_get_created_flag_def
        conn_element_get_finished_flag_def)
  show "served i (put_queue i (ce_cq ce) np)"
    using assms(2) sv a by (auto simp: served_def r) (simp add: put_queue_def)
  have h: "has_queue (x\<lparr>ce_cq := ce_cq ce\<rparr>)" for x :: "'a conn_element_st" using assms(3) by (simp add: has_queue_def)
  let ?l = "ct_ce (sv_ct sv)"
  have "map conn_element_isnetclient (?l[i := (?l ! i)\<lparr>ce_cq := ce_cq ce\<rparr>]) = map conn_element_isnetclient ?l"
    using sv(2) by (simp add: map_update r list_update_same_conv)
  then have "length (filter conn_element_isnetclient (?l[i := (?l ! i)\<lparr>ce_cq := ce_cq ce\<rparr>])) = length (filter conn_element_isnetclient ?l)"
    by (rule length_filter_cong_map)
  then show "np_ok cf (put_queue i (ce_cq ce) np)"
    using assms(1) sv h by (auto simp: np_ok_def put_queue_def clients_ready_def dest!: set_update_subset_insert [THEN subsetD])
qed

text \<open>The composition of the two threads refines the run of the client on the packets of the stream.\<close>

lemma delivered_put:
  assumes "has_queue x" "ce_cq x = ce_cq ce"
  shows "\<exists>cq st err cq'. ce_cq ce = Ptr cq \<and> connqueue_snd ops data cq = Some (st, err, cq') \<and> ce_cq (delivered ops data x) = Ptr cq'"
proof -
  obtain cq q qs where cq: "ce_cq x = Ptr cq" "nbspq (cq_qt cq) = q # qs"
    using assms(1) by (auto simp: has_queue_def neq_Nil_conv split: ptr.splits)
  obtain st err q' where "queue_snd ops (softlimit (cq_qt cq)) (hardlimit (cq_qt cq)) data q = (st, err, q')" by (metis prod_cases3)
  then show ?thesis using cq assms(2) by (simp add: connqueue_snd_queue [OF cq(2)] delivered_def)
qed

lemma run_feed_simulates:
  assumes "server_type_bbserver es" "spool_conf_ok cf" "np_ok cf np" "served i np" "ce_cq ce = ce_cq (client_at i np)"
    and "\<forall>ne \<in> set (packets acts). feed_env cf r ne \<and> (\<forall>p \<in> set ps. good_packet ne p)" "length ps = length (packets acts)"
    and "flowing r c" "pending c = concat ps @ rest"
    and "run_client ops ms retry lf (client_acts acts ps) (ce, d) = Some (acc, ce', d')"
  shows "\<exists>c' np'. run_feed ops es i ms retry lf acts (c, np, ce, d) = Some (c', np', ce', d') \<and> np_ok cf np' \<and> pending c' = rest"
  using assms(3-)
proof (induction acts arbitrary: ps np ce c d acc)
  case Nil
  then show ?case by simp
next
  case (Cons a acts)
  have hq: "has_queue (client_at i np)"
    using Cons.prems(1,2) by (auto simp: np_ok_def served_def clients_ready_def client_at_def)
  show ?case
  proof (cases a)
    case (Packet ne)
    then obtain p ps' where ps: "ps = p # ps'" using Cons.prems(5) by (cases ps) auto
    obtain st c1 np1 where s: "process_packets ops ne es c np = Some (st, c1, np1)" "np_ok cf np1" "served i np1"
      "client_at i np1 = delivered ops (envelope p) (client_at i np)" "flowing r c1" "pending c1 = concat ps' @ rest"
      using packet_step [OF assms(1,2) Cons.prems(1) _ Cons.prems(2,6), of ne p "concat ps' @ rest" ops] Cons.prems(4,7) Packet ps by auto
    obtain cq st' err cq' where q: "ce_cq ce = Ptr cq" "connqueue_snd ops (envelope p) cq = Some (st', err, cq')"
      "ce_cq (client_at i np1) = Ptr cq'"
      using delivered_put [OF hq Cons.prems(3) [symmetric], of ops "envelope p"] s(4) by auto
    obtain acc' where r: "run_client ops ms retry lf (client_acts acts ps') (ce\<lparr>ce_cq := Ptr cq'\<rparr>, d) = Some (acc', ce', d')"
      using Cons.prems(8) Packet ps q(1,2) by (auto split: if_splits)
    have "\<exists>c' np'. run_feed ops es i ms retry lf acts (c1, np1, ce\<lparr>ce_cq := Ptr cq'\<rparr>, d) = Some (c', np', ce', d')
        \<and> np_ok cf np' \<and> pending c' = rest"
      by (rule Cons.IH [OF s(2,3) _ _ _ s(5,6) r]) (use Cons.prems(4,5) Packet ps q(3) in auto)
    then show ?thesis using Packet s(1) q(3) by simp
  next
    case (Thread t)
    obtain f now tv where t: "t = (f, now, tv)" by (metis prod_cases3)
    show ?thesis
    proof (cases "f_exit ce")
      case True
      then show ?thesis
        using Cons.IH [OF Cons.prems(1-3) _ _ Cons.prems(6,7)] Cons.prems(4,5,8) Thread t by auto
    next
      case False
      obtain ce1 d1 where u: "client_turn ops ms retry lf (f, now, tv, []) (ce, d) = Some (ce1, d1)"
        "run_client ops ms retry lf (client_acts acts ps) (ce1, d1) = Some (acc, ce', d')"
        using Cons.prems(8) Thread t False by (auto simp: bind_eq_Some_conv)
      have "has_queue ce" using hq Cons.prems(3) by (simp add: has_queue_def)
      then have "has_queue ce1" by (rule client_turn_queue [OF u(1)])
      note q = put_queue_ok [OF Cons.prems(1,2) this]
      have "\<exists>c' np'. run_feed ops es i ms retry lf acts (c, put_queue i (ce_cq ce1) np, ce1, d1) = Some (c', np', ce', d')
          \<and> np_ok cf np' \<and> pending c' = rest"
        by (rule Cons.IH [OF q(1,2) _ _ _ Cons.prems(6,7) u(2)]) (use Cons.prems(4,5) Thread q(3) in auto)
      then show ?thesis using Thread t False u(1) by simp
    qed
  qed
qed

end
