(* ===== verification/Daemon.thy ===== *)
theory Daemon
  imports Strsplit Util Scanf
begin

text \<open>
  The process of the server: signals (\<open>src/signal.c\<close>), the lock file (\<open>src/pid.c\<close>, \<open>init_lock\<close> and
  \<open>cleanup\<close> of \<open>src/init.c\<close>), giving up privileges (\<open>src/pw.c\<close>, \<open>drop_privs\<close>), the check of the
  directories, the programs it starts (\<open>src/exec.c\<close>, \<open>src/httpd.c\<close>, \<open>src/bbreg.c\<close>).
\<close>

section \<open>Signals\<close>

datatype signo = SIGALRM | SIGHUP | SIGPIPE | SIGINT | SIGTERM | SIGQUIT | SIGABRT | SIGOTHER nat

record sig_st =
  f_quit :: int
  f_hup :: int
  f_alarm :: int

definition set_quit_flag :: "sig_st \<Rightarrow> sig_st" where "set_quit_flag s = s\<lparr>f_quit := 1\<rparr>"

definition set_hup_flag :: "sig_st \<Rightarrow> sig_st" where "set_hup_flag s = s\<lparr>f_hup := 1\<rparr>"

definition set_alarm_flag :: "sig_st \<Rightarrow> sig_st" where "set_alarm_flag s = s\<lparr>f_alarm := 1\<rparr>"

definition get_quit_flag :: "sig_st \<Rightarrow> int" where "get_quit_flag s = f_quit s"

definition get_hup_flag :: "sig_st \<Rightarrow> int \<times> sig_st" where "get_hup_flag s = (f_hup s, s\<lparr>f_hup := 0\<rparr>)"

definition get_alarm_flag :: "sig_st \<Rightarrow> int \<times> sig_st" where "get_alarm_flag s = (f_alarm s, s\<lparr>f_alarm := 0\<rparr>)"

text \<open>\<open>Inl\<close> is the exit of the process with that status.\<close>

fun signal_handler :: "bool \<Rightarrow> signo \<Rightarrow> sig_st \<Rightarrow> int + sig_st" where
  "signal_handler f_debug SIGALRM s = Inr (set_alarm_flag s)"
| "signal_handler f_debug SIGHUP s = Inr (set_hup_flag s)"
| "signal_handler f_debug SIGPIPE s = Inr s"
| "signal_handler f_debug SIGINT s = Inr (set_quit_flag s)"
| "signal_handler f_debug SIGTERM s = Inr (set_quit_flag s)"
| "signal_handler f_debug SIGQUIT s = Inr (set_quit_flag s)"
| "signal_handler f_debug SIGABRT s = (if f_debug then Inr (set_quit_flag s) else Inl 1)"
| "signal_handler f_debug (SIGOTHER n) s = Inr s"

text \<open>
  What happens to the flags: the signal thread handles what \<open>sigwait\<close> gives (\<open>None\<close>: it failed), until
  the flag to quit is set; other threads ask for the flags, which resets two of them. Each of these
  is atomic, under the mutex of the flags. The answers of the questions, in order.
\<close>

datatype sig_event = Sigwait "signo option" | AskHup | AskAlarm

fun signal_event :: "bool \<Rightarrow> sig_event \<Rightarrow> sig_st \<Rightarrow> int + (int list \<times> sig_st)" where
  "signal_event dbg (Sigwait (Some sig)) s =
     (if get_quit_flag s = 0 then (case signal_handler dbg sig s of Inl c \<Rightarrow> Inl c | Inr s' \<Rightarrow> Inr ([], s'))
      else Inr ([], s))"
| "signal_event dbg (Sigwait None) s = Inr ([], s)"
| "signal_event dbg AskHup s = (case get_hup_flag s of (f, s') \<Rightarrow> Inr ([f], s'))"
| "signal_event dbg AskAlarm s = (case get_alarm_flag s of (f, s') \<Rightarrow> Inr ([f], s'))"

fun signal_events :: "bool \<Rightarrow> sig_event list \<Rightarrow> sig_st \<Rightarrow> int + (int list \<times> sig_st)" where
  "signal_events dbg [] s = Inr ([], s)"
| "signal_events dbg (e # es) s =
     (case signal_event dbg e s of
        Inl c \<Rightarrow> Inl c
      | Inr (a, s1) \<Rightarrow> (case signal_events dbg es s1 of Inl c \<Rightarrow> Inl c | Inr (b, s2) \<Rightarrow> Inr (a @ b, s2)))"

definition sig_init :: sig_st where "sig_init = \<lparr>f_quit = 0, f_hup = 0, f_alarm = 0\<rparr>"

section \<open>The lock file\<close>

text \<open>
  The contents of the file, \<open>None\<close> if it does not exist. The calls of the system that may fail
  besides the exclusive creation of a file that exists.
\<close>

type_synonym pid_file = "byte list option"

record pid_os =
  po_open :: bool
  po_fopen :: bool
  po_print :: bool
  po_unlink :: bool
  po_stat :: bool

text \<open>
  \<open>create_pidfile\<close> has two steps: the exclusive creation, and the writing of the process id. Other
  processes may come in between.
\<close>

definition create_excl :: "pid_os \<Rightarrow> pid_file \<Rightarrow> int \<times> pid_file" where
  "create_excl os f = (if f = None \<and> po_open os then (0, Some []) else (1, f))"

definition write_pid :: "pid_os \<Rightarrow> int \<Rightarrow> pid_file \<Rightarrow> int \<times> pid_file" where
  "write_pid os pid f =
     (if \<not> po_fopen os then (1, f)
      else if po_print os then (0, Some (printf_d pid @ [10]))
      else (2, if po_unlink os then None else Some []))"

definition create_pidfile :: "pid_os \<Rightarrow> int \<Rightarrow> pid_file \<Rightarrow> int \<times> pid_file" where
  "create_pidfile os pid f =
     (case create_excl os f of (status, f) \<Rightarrow> if status \<noteq> 0 then (status, f) else write_pid os pid f)"

text \<open>\<open>None\<close>: the file has no number, and the variable that was not set is used.\<close>

definition read_pid :: "pid_os \<Rightarrow> pid_file \<Rightarrow> int option" where
  "read_pid os f =
     (if \<not> po_stat os then Some (-1)
      else case f of
          None \<Rightarrow> Some 0
        | Some text \<Rightarrow>
            if \<not> po_fopen os then Some (-1)
            else if skip_ws text = [] then Some (-1)
            else (case scan_int text of Some (v, _) \<Rightarrow> Some (c_int_of v) | None \<Rightarrow> None))"

definition remove_pidfile :: "pid_os \<Rightarrow> int \<Rightarrow> pid_file \<Rightarrow> (int \<times> pid_file) option" where
  "remove_pidfile os mypid f =
     (case read_pid os f of
        None \<Rightarrow> None
      | Some pid \<Rightarrow>
          Some (if pid = 0 then (1, f)
                else if pid = -1 then (2, f)
                else if pid = mypid then (if po_unlink os then (0, None) else (2, f))
                else (0, f)))"

text \<open>The variable \<open>g.f_lock\<close> and the file. The status of \<open>init_lock\<close> comes first.\<close>

definition init_lock :: "pid_os \<Rightarrow> int \<Rightarrow> int \<Rightarrow> pid_file \<Rightarrow> int \<times> int \<times> pid_file" where
  "init_lock os pid f_lock f =
     (case create_pidfile os pid f of (st, f) \<Rightarrow> if st \<noteq> 0 then (1, f_lock, f) else (0, 1, f))"

definition cleanup_lock :: "pid_os \<Rightarrow> int \<Rightarrow> int \<Rightarrow> pid_file \<Rightarrow> (int \<times> pid_file) option" where
  "cleanup_lock os pid f_lock f =
     (if f_lock = 1 then map_option (\<lambda>(_, f). (0, f)) (remove_pidfile os pid f) else Some (f_lock, f))"

text \<open>
  Any number of processes that start, run and end at the same time. A process has not started, has
  created the file, runs (after \<open>init_lock\<close>, with the lock or, about to end, without it), or is gone.
\<close>

datatype stage = Idle | Opened | Runs int | Gone

record lock_sys =
  ls_file :: pid_file
  ls_stage :: "int \<Rightarrow> stage"

text \<open>
  The steps: the two of \<open>init_lock\<close>, the clean-up at the exit, an end without clean-up, and the
  use of a process id again.
\<close>

inductive lock_step :: "lock_sys \<Rightarrow> lock_sys \<Rightarrow> bool" where
  opened: "ls_stage s p = Idle \<Longrightarrow> 0 < p \<Longrightarrow> p < 2 ^ 31 \<Longrightarrow> create_excl os (ls_file s) = (0, f) \<Longrightarrow>
    lock_step s \<lparr>ls_file = f, ls_stage = (ls_stage s)(p := Opened)\<rparr>"
| refused: "ls_stage s p = Idle \<Longrightarrow> 0 < p \<Longrightarrow> p < 2 ^ 31 \<Longrightarrow> create_excl os (ls_file s) = (st, f) \<Longrightarrow> st \<noteq> 0 \<Longrightarrow>
    lock_step s \<lparr>ls_file = f, ls_stage = (ls_stage s)(p := Runs 0)\<rparr>"
| locked: "ls_stage s p = Opened \<Longrightarrow> write_pid os p (ls_file s) = (0, f) \<Longrightarrow>
    lock_step s \<lparr>ls_file = f, ls_stage = (ls_stage s)(p := Runs 1)\<rparr>"
| unlocked: "ls_stage s p = Opened \<Longrightarrow> write_pid os p (ls_file s) = (st, f) \<Longrightarrow> st \<noteq> 0 \<Longrightarrow>
    lock_step s \<lparr>ls_file = f, ls_stage = (ls_stage s)(p := Runs 0)\<rparr>"
| ended: "ls_stage s p = Runs l \<Longrightarrow> cleanup_lock os p l (ls_file s) = Some (l', f) \<Longrightarrow>
    lock_step s \<lparr>ls_file = f, ls_stage = (ls_stage s)(p := Gone)\<rparr>"
| killed: "ls_stage s p \<noteq> Idle \<Longrightarrow> lock_step s (s\<lparr>ls_stage := (ls_stage s)(p := Gone)\<rparr>)"
| reused: "ls_stage s p = Gone \<Longrightarrow> lock_step s (s\<lparr>ls_stage := (ls_stage s)(p := Idle)\<rparr>)"

inductive lock_reachable :: "lock_sys \<Rightarrow> bool" where
  start: "lock_reachable \<lparr>ls_file = None, ls_stage = (\<lambda>_. Idle)\<rparr>"
| step: "lock_reachable s \<Longrightarrow> lock_step s t \<Longrightarrow> lock_reachable t"

inductive_cases lock_step_cases: "lock_step s t"

section \<open>Privileges\<close>

text \<open>
  The identity of the process. The kernel lets only the super-user set the groups and take
  another user or group id; \<open>cr_uid\<close> and \<open>cr_gid\<close> find the names in the system's tables.
\<close>

record creds =
  uid :: int
  gid :: int
  sup_groups :: "int list"
  cwd :: "byte list"

record cred_env =
  cr_uid :: "byte list \<Rightarrow> int option"
  cr_gid :: "byte list \<Rightarrow> int option"
  cr_chdir :: "byte list \<Rightarrow> bool"

definition get_user_uid :: "cred_env \<Rightarrow> byte list \<Rightarrow> int option" where "get_user_uid e name = cr_uid e name"

definition get_group_gid :: "cred_env \<Rightarrow> byte list \<Rightarrow> int option" where "get_group_gid e name = cr_gid e name"

definition change_user :: "cred_env \<Rightarrow> byte list \<Rightarrow> creds \<Rightarrow> int \<times> creds" where
  "change_user e name c =
     (case get_user_uid e name of
        None \<Rightarrow> (-1, c)
      | Some u \<Rightarrow> if uid c = 0 \<or> uid c = u then (0, c\<lparr>uid := u\<rparr>) else (-1, c))"

definition change_group :: "cred_env \<Rightarrow> byte list \<Rightarrow> creds \<Rightarrow> int \<times> creds" where
  "change_group e name c =
     (case get_group_gid e name of
        None \<Rightarrow> (-1, c)
      | Some g \<Rightarrow> if uid c = 0 \<or> gid c = g then (0, c\<lparr>gid := g\<rparr>) else (-1, c))"

text \<open>With one group the supplementary groups are not touched. \<open>None\<close>: there is no first group.\<close>

definition change_groups :: "cred_env \<Rightarrow> byte list list \<Rightarrow> creds \<Rightarrow> (int \<times> creds) option" where
  "change_groups e groups c =
     (case groups of
        [] \<Rightarrow> None
      | g # gs \<Rightarrow> Some (case change_group e g c of
            (status, c) \<Rightarrow>
              if status \<noteq> 0 then (-1, c)
              else if gs = [] then (0, c)
              else if list_all (\<lambda>n. get_group_gid e n \<noteq> None) gs then
                (if uid c = 0 then (0, c\<lparr>sup_groups := map (\<lambda>n. the (get_group_gid e n)) gs\<rparr>) else (-1, c))
              else (-1, c)))"

definition change_privs ::
  "cred_env \<Rightarrow> byte list list option \<Rightarrow> byte list option \<Rightarrow> byte list option \<Rightarrow> creds \<Rightarrow> (int \<times> creds) option" where
  "change_privs e groups user home c =
     (case (case groups of None \<Rightarrow> Some (0, c) | Some gs \<Rightarrow> change_groups e gs c) of
        None \<Rightarrow> None
      | Some (status, c) \<Rightarrow>
          Some (if status \<noteq> 0 then (-2, c)
                else case (case user of None \<Rightarrow> (0, c) | Some u \<Rightarrow> change_user e u c) of
                    (status, c) \<Rightarrow>
                      if status \<noteq> 0 then (-1, c)
                      else case home of
                          None \<Rightarrow> (0, c)
                        | Some h \<Rightarrow> if cr_chdir e h then (0, c\<lparr>cwd := h\<rparr>) else (-3, c)))"

definition drop_privs ::
  "cred_env \<Rightarrow> byte list option \<Rightarrow> byte list option \<Rightarrow> byte list option \<Rightarrow> creds \<Rightarrow> (int \<times> creds) option" where
  "drop_privs e g_group g_user g_home c =
     (let opt = (\<lambda>s. if valid_str s then s else None);
          groups = (if valid_str g_group then
              map_option (map_option argv) (strsplit_create (the g_group) (cstr '','') False) else Some None)
      in case groups of
          None \<Rightarrow> None
        | Some None \<Rightarrow>
            if valid_str g_group then Some (-1, c)
            else map_option (\<lambda>(st, c). (if st \<noteq> 0 then -1 else 0, c)) (change_privs e None (opt g_user) (opt g_home) c)
        | Some (Some gs) \<Rightarrow>
            map_option (\<lambda>(st, c). (if st \<noteq> 0 then -1 else 0, c)) (change_privs e (Some gs) (opt g_user) (opt g_home) c))"

section \<open>Directories\<close>

text \<open>What \<open>stat\<close> says of a path: nothing, a directory or something else. \<open>Inl\<close> is the exit of the program.\<close>

definition checkdir :: "(byte list \<Rightarrow> bool option) \<Rightarrow> byte list \<Rightarrow> unit + int" where
  "checkdir stat dirname = (case stat dirname of None \<Rightarrow> Inl () | Some False \<Rightarrow> Inl () | Some True \<Rightarrow> Inr 0)"

definition check_subdir :: "(byte list \<Rightarrow> bool option) \<Rightarrow> byte list \<Rightarrow> byte list \<Rightarrow> unit + int" where
  "check_subdir stat dir subdir = checkdir stat (dir @ [47] @ subdir)"

fun check_subdirs :: "(byte list \<Rightarrow> bool option) \<Rightarrow> byte list \<Rightarrow> byte list list \<Rightarrow> int \<Rightarrow> unit + int" where
  "check_subdirs stat spooldir [] status = Inr status"
| "check_subdirs stat spooldir (d # ds) status =
     (case (if status = 0 then check_subdir stat spooldir d else Inr status) of
        Inl u \<Rightarrow> Inl u
      | Inr st \<Rightarrow> check_subdirs stat spooldir ds st)"

definition init_directories ::
  "(byte list \<Rightarrow> bool option) \<Rightarrow> byte list \<Rightarrow> byte list \<Rightarrow> byte list \<Rightarrow> byte list \<Rightarrow> byte list \<Rightarrow> unit + int" where
  "init_directories stat spooldir datadir lockdir tmpdir qfilesdir =
     (case checkdir stat spooldir of
        Inl u \<Rightarrow> Inl u
      | Inr status \<Rightarrow> check_subdirs stat spooldir [datadir, lockdir, tmpdir, qfilesdir] status)"

section \<open>Programs\<close>

text \<open>
  \<open>httpd.c\<close> and \<open>bbreg.c\<close> are the same code on two variables. The pipe is a process number; the
  pipes that were opened and closed are listed.
\<close>

record pipe_env =
  pe_popen :: "int option"
  pe_print :: bool
  pe_flush :: bool

definition httpd_open :: "pipe_env \<Rightarrow> byte list option \<Rightarrow> int option \<Rightarrow> int \<times> int option \<times> int list \<times> int list" where
  "httpd_open e httpd fp =
     (if \<not> valid_str httpd then (1, fp, [], [])
      else case pe_popen e of
          None \<Rightarrow> (-1, None, [], [])
        | Some p \<Rightarrow>
            if \<not> pe_print e then (-1, None, [p], [p])
            else if \<not> pe_flush e then (-1, None, [p], [p])
            else (0, Some p, [p], []))"

definition httpd_close :: "int option \<Rightarrow> int option \<times> int list" where
  "httpd_close fp = (case fp of None \<Rightarrow> (None, []) | Some p \<Rightarrow> (None, [p]))"

definition bbserver_open :: "pipe_env \<Rightarrow> byte list option \<Rightarrow> int option \<Rightarrow> int \<times> int option \<times> int list \<times> int list" where
  "bbserver_open e bbserver fp =
     (if \<not> valid_str bbserver then (1, fp, [], [])
      else case pe_popen e of
          None \<Rightarrow> (-1, None, [], [])
        | Some p \<Rightarrow>
            if \<not> pe_print e then (-1, None, [p], [p])
            else if \<not> pe_flush e then (-1, None, [p], [p])
            else (0, Some p, [p], []))"

definition bbserver_close :: "int option \<Rightarrow> int option \<times> int list" where
  "bbserver_close fp = (case fp of None \<Rightarrow> (None, []) | Some p \<Rightarrow> (None, [p]))"

text \<open>
  The scripts at the start and at the end, evaluated by the Tcl library, whose status is an argument.
\<close>

definition exec_startscript :: "(byte list \<Rightarrow> int) \<Rightarrow> (byte list \<Rightarrow> int) \<Rightarrow> byte list option \<Rightarrow> int" where
  "exec_startscript exists tcl_eval_file s =
     (if \<not> valid_str s then 0 else if exists (the s) \<noteq> 0 then 1 else tcl_eval_file (the s))"

definition exec_stopscript :: "(byte list \<Rightarrow> int) \<Rightarrow> (byte list \<Rightarrow> int) \<Rightarrow> byte list option \<Rightarrow> int" where
  "exec_stopscript exists tcl_eval_file s =
     (if \<not> valid_str s then 0 else if exists (the s) \<noteq> 0 then 1 else tcl_eval_file (the s))"

text \<open>
  The scheduler is run by a process forked twice. What each process does: \<open>Exit\<close> with a status,
  or become the program. The server waits for the first child only.
\<close>

datatype proc_end = Exit int | Exec "byte list"

record exec_env =
  ex_exists :: "byte list \<Rightarrow> int"
  ex_fork1 :: bool
  ex_fork2 :: bool
  ex_execl :: bool

text \<open>The children, in the order they are made, and how many of them the server waits for.\<close>

definition exec_external_program :: "exec_env \<Rightarrow> byte list \<Rightarrow> proc_end list \<times> nat" where
  "exec_external_program e s =
     (if ex_exists e s \<noteq> 0 then ([], 0)
      else if \<not> ex_fork1 e then ([], 0)
      else if \<not> ex_fork2 e then ([Exit 1], 1)
      else ([Exit 0, if ex_execl e then Exec s else Exit 1], 1))"

definition exec_scheduler :: "exec_env \<Rightarrow> byte list option \<Rightarrow> proc_end list \<times> nat" where
  "exec_scheduler e scheduler = (if \<not> valid_str scheduler then ([], 0) else exec_external_program e (the scheduler))"

section \<open>Signals are not lost\<close>

lemma signal_events_snoc:
  "signal_events dbg (es @ [e]) s =
     (case signal_events dbg es s of
        Inl c \<Rightarrow> Inl c
      | Inr (a, s1) \<Rightarrow> (case signal_event dbg e s1 of Inl c \<Rightarrow> Inl c | Inr (b, s2) \<Rightarrow> Inr (a @ b, s2)))"
  by (induction es arbitrary: s) (auto split: sum.splits prod.splits)

definition ends :: "bool \<Rightarrow> sig_event \<Rightarrow> bool" where
  "ends dbg e \<longleftrightarrow> e \<in> Sigwait ` Some ` ({SIGINT, SIGTERM, SIGQUIT} \<union> (if dbg then {SIGABRT} else {}))"

text \<open>What one event does to the flags.\<close>

lemma signal_event_flags:
  assumes "signal_event dbg e s = Inr (a, s')"
  shows "f_quit s' = (if f_quit s = 0 \<and> ends dbg e then 1 else f_quit s)"
    and "f_hup s' = (if e = AskHup then 0 else if f_quit s = 0 \<and> e = Sigwait (Some SIGHUP) then 1 else f_hup s)"
    and "a = (if e = AskHup then [f_hup s] else if e = AskAlarm then [f_alarm s] else [])"
  using assms
  by (cases "(dbg, e, s)" rule: signal_event.cases; cases "case e of Sigwait (Some x) \<Rightarrow> x | _ \<Rightarrow> SIGPIPE";
      auto simp: ends_def get_quit_flag_def get_hup_flag_def get_alarm_flag_def set_quit_flag_def
        set_hup_flag_def set_alarm_flag_def image_iff split: if_splits)+

lemma ex_split_snoc:
  "(\<exists>a b. es @ [e] = a @ x # b \<and> y \<notin> set b \<and> Q a) \<longleftrightarrow>
     e = x \<and> Q es \<or> e \<noteq> y \<and> (\<exists>a b. es = a @ x # b \<and> y \<notin> set b \<and> Q a)"
proof
  assume "\<exists>a b. es @ [e] = a @ x # b \<and> y \<notin> set b \<and> Q a"
  then obtain a b where "es @ [e] = a @ x # b" "y \<notin> set b" "Q a" by blast
  then show "e = x \<and> Q es \<or> e \<noteq> y \<and> (\<exists>a b. es = a @ x # b \<and> y \<notin> set b \<and> Q a)"
    by (cases b rule: rev_cases) auto
next
  assume "e = x \<and> Q es \<or> e \<noteq> y \<and> (\<exists>a b. es = a @ x # b \<and> y \<notin> set b \<and> Q a)"
  then consider "e = x" "Q es" | a b where "e \<noteq> y" "es = a @ x # b" "y \<notin> set b" "Q a" by blast
  then show "\<exists>a b. es @ [e] = a @ x # b \<and> y \<notin> set b \<and> Q a"
  proof cases
    case 1
    then show ?thesis by (intro exI [of _ es] exI [of _ "[]"]) simp
  next
    case (2 a b)
    then show ?thesis by (intro exI [of _ a] exI [of _ "b @ [e]"]) simp
  qed
qed

text \<open>
  C37. Through every interleaving of arriving signals and questions of the other threads the flags
  say what has happened. The flag to quit is set exactly when a signal that ends the program was
  handled. The flag for a hangup is set exactly when a hangup signal was handled and nobody has
  asked since then, and every question is answered by the flag: no hangup is lost, and none is
  reported twice.
\<close>

theorem signals_not_lost:
  assumes "signal_events dbg es sig_init = Inr (ans, s)"
  shows "get_quit_flag s = (if \<exists>e \<in> set es. ends dbg e then 1 else 0)
    \<and> get_hup_flag s = (if \<exists>a b. es = a @ Sigwait (Some SIGHUP) # b \<and> AskHup \<notin> set b \<and> \<not> (\<exists>e \<in> set a. ends dbg e)
                          then 1 else 0, s\<lparr>f_hup := 0\<rparr>)"
  using assms
proof (induction es arbitrary: ans s rule: rev_induct)
  case Nil
  then show ?case by (auto simp: sig_init_def get_quit_flag_def get_hup_flag_def)
next
  case (snoc e es)
  then obtain a s1 b where p: "signal_events dbg es sig_init = Inr (a, s1)" "signal_event dbg e s1 = Inr (b, s)"
    by (auto simp: signal_events_snoc split: sum.splits prod.splits)
  define Q where "Q es \<longleftrightarrow> (\<exists>e \<in> set es. ends dbg e)" for es
  define H where "H es \<longleftrightarrow> (\<exists>a b. es = a @ Sigwait (Some SIGHUP) # b \<and> AskHup \<notin> set b \<and> \<not> Q a)" for es
  have IH: "f_quit s1 = (if Q es then 1 else 0)" "f_hup s1 = (if H es then 1 else 0)"
    using snoc.IH [OF p(1)] by (simp_all only: get_quit_flag_def get_hup_flag_def Q_def H_def prod.inject)
  have Q: "Q (es @ [e]) \<longleftrightarrow> Q es \<or> ends dbg e" by (auto simp: Q_def)
  have H: "H (es @ [e]) \<longleftrightarrow> e = Sigwait (Some SIGHUP) \<and> \<not> Q es \<or> e \<noteq> AskHup \<and> H es"
    unfolding H_def by (rule ex_split_snoc)
  have "f_quit s = (if Q (es @ [e]) then 1 else 0)"
    using IH signal_event_flags(1) [OF p(2)] by (simp add: Q)
  moreover have "f_hup s = (if H (es @ [e]) then 1 else 0)"
    using IH signal_event_flags(2) [OF p(2)] by (cases "Q es"; cases "H es") (simp_all add: H)
  ultimately show ?case by (simp only: get_quit_flag_def get_hup_flag_def Q_def H_def)
qed

theorem signals_not_lost_witness:
  "get_hup_flag (\<lparr>f_quit = 0, f_hup = 1, f_alarm = 0\<rparr>) = (1, \<lparr>f_quit = 0, f_hup = 0, f_alarm = 0\<rparr>)
   \<and> (\<exists>a b. [Sigwait (Some SIGHUP), AskHup, Sigwait (Some SIGHUP), Sigwait None] = a @ Sigwait (Some SIGHUP) # b
        \<and> AskHup \<notin> set b \<and> \<not> (\<exists>e \<in> set a. ends False e))"
proof -
  let ?es = "[Sigwait (Some SIGHUP), AskHup, Sigwait (Some SIGHUP), Sigwait None]"
  have r: "signal_events False ?es sig_init = Inr ([1], \<lparr>f_quit = 0, f_hup = 1, f_alarm = 0\<rparr>)"
    by (simp add: sig_init_def get_quit_flag_def get_hup_flag_def set_hup_flag_def)
  let ?P = "\<exists>a b. ?es = a @ Sigwait (Some SIGHUP) # b \<and> AskHup \<notin> set b \<and> \<not> (\<exists>e \<in> set a. ends False e)"
  have "(1 :: int) = (if ?P then 1 else 0)"
    using signals_not_lost [OF r] by (simp only: get_hup_flag_def prod.inject sig_st.simps)
  then have ?P by (rule contrapos_pp) simp
  then show ?thesis by (simp only: get_hup_flag_def) simp
qed

section \<open>One lock holder\<close>

definition lock_holder :: "lock_sys \<Rightarrow> int \<Rightarrow> bool" where
  "lock_holder s p \<longleftrightarrow> ls_stage s p \<in> {Opened, Runs 1}"

definition lock_inv :: "lock_sys \<Rightarrow> bool" where
  "lock_inv s \<longleftrightarrow>
     (\<forall>p. ls_stage s p \<in> {Idle, Gone} \<or> 0 < p \<and> p < 2 ^ 31)
   \<and> (\<forall>p q. lock_holder s p \<longrightarrow> lock_holder s q \<longrightarrow> p = q)
   \<and> (\<forall>p. lock_holder s p \<longrightarrow> ls_file s \<noteq> None)
   \<and> (\<forall>p. ls_stage s p = Runs 1 \<longrightarrow> ls_file s = Some (printf_d p @ [10]))"

lemma lock_invI [intro?]:
  assumes "\<And>p. ls_stage s p \<in> {Idle, Gone} \<or> 0 < p \<and> p < 2 ^ 31"
    and "\<And>p q. lock_holder s p \<Longrightarrow> lock_holder s q \<Longrightarrow> p = q"
    and "\<And>p. lock_holder s p \<Longrightarrow> ls_file s \<noteq> None"
    and "\<And>p. ls_stage s p = Runs 1 \<Longrightarrow> ls_file s = Some (printf_d p @ [10])"
  shows "lock_inv s"
  using assms unfolding lock_inv_def by blast

lemma lock_inv_pid: "lock_inv s \<Longrightarrow> ls_stage s p \<notin> {Idle, Gone} \<Longrightarrow> 0 < p \<and> p < 2 ^ 31"
  by (auto simp: lock_inv_def)

lemma lock_inv_alone: "lock_inv s \<Longrightarrow> lock_holder s p \<Longrightarrow> q \<noteq> p \<Longrightarrow> \<not> lock_holder s q"
  by (auto simp: lock_inv_def)

lemma lock_inv_free: "lock_inv s \<Longrightarrow> ls_file s = None \<Longrightarrow> \<not> lock_holder s q"
  by (auto simp: lock_inv_def)

text \<open>A process gives up the lock or never had it; a process takes it when nobody else has it.\<close>

lemma lock_inv_leave:
  assumes "lock_inv s" "x \<notin> {Opened, Runs 1}" "f = ls_file s \<or> lock_holder s p"
    and "x \<in> {Idle, Gone} \<or> 0 < p \<and> p < 2 ^ 31"
  shows "lock_inv \<lparr>ls_file = f, ls_stage = (ls_stage s)(p := x)\<rparr>"
proof
  let ?t = "\<lparr>ls_file = f, ls_stage = (ls_stage s)(p := x)\<rparr>"
  fix q
  have h: "lock_holder ?t q \<longleftrightarrow> q \<noteq> p \<and> lock_holder s q" for q using assms(2) by (auto simp: lock_holder_def)
  have f: "f = ls_file s" if "lock_holder s q" "q \<noteq> p"
    using lock_inv_alone [OF assms(1) that(1), of p] assms(3) that(2) by blast
  show "ls_file ?t = Some (printf_d q @ [10])" if "ls_stage ?t q = Runs 1"
  proof -
    have "q \<noteq> p" "ls_stage s q = Runs 1" using that assms(2) by (auto split: if_splits)
    then show ?thesis using f assms(1) by (simp add: lock_inv_def lock_holder_def)
  qed
  show "ls_stage ?t q \<in> {Idle, Gone} \<or> 0 < q \<and> q < 2 ^ 31"
    using lock_inv_pid [OF assms(1), of q] assms(4) by (cases "q = p") auto
  show "q = r" if "lock_holder ?t q" "lock_holder ?t r" for r
    using that lock_inv_alone [OF assms(1)] unfolding h by blast
  show "ls_file ?t \<noteq> None" if "lock_holder ?t q"
    using that f lock_inv_free [OF assms(1), of q] unfolding h by auto
qed

lemma lock_inv_take:
  assumes "lock_inv s" "\<And>q. q \<noteq> p \<Longrightarrow> \<not> lock_holder s q" "0 < p \<and> p < 2 ^ 31"
    and "f = Some text" "x = Runs 1 \<Longrightarrow> text = printf_d p @ [10]"
  shows "lock_inv \<lparr>ls_file = f, ls_stage = (ls_stage s)(p := x)\<rparr>"
proof
  let ?t = "\<lparr>ls_file = f, ls_stage = (ls_stage s)(p := x)\<rparr>"
  fix q
  have h: "q = p" if "lock_holder ?t q" for q using that assms(2) [of q] by (auto simp: lock_holder_def split: if_splits)
  show "ls_stage ?t q \<in> {Idle, Gone} \<or> 0 < q \<and> q < 2 ^ 31"
    using lock_inv_pid [OF assms(1), of q] assms(3) by (cases "q = p") auto
  show "q = r" if "lock_holder ?t q" "lock_holder ?t r" for r using h that by blast
  show "ls_file ?t \<noteq> None" by (simp add: assms(4))
  show "ls_file ?t = Some (printf_d q @ [10])" if "ls_stage ?t q = Runs 1"
  proof -
    have q: "q = p" by (rule h) (simp only: lock_holder_def that, blast)
    then have "x = Runs 1" using that by simp
    from assms(5) [OF this] show ?thesis by (simp only: q assms(4) lock_sys.simps)
  qed
qed

lemma lock_inv_step:
  assumes "lock_step s t" "lock_inv s"
  shows "lock_inv t"
  using assms(1)
proof (cases rule: lock_step.cases)
  case (opened p os f)
  then have "ls_file s = None" "f = Some []" by (simp_all add: create_excl_def split: if_splits)
  with opened assms(2) show ?thesis by (auto intro!: lock_inv_take dest: lock_inv_free)
next
  case (refused p os st f)
  then have "f = ls_file s" by (auto simp: create_excl_def split: if_splits)
  with refused assms(2) show ?thesis by (auto intro!: lock_inv_leave)
next
  case (locked p os f)
  then have "f = Some (printf_d p @ [10])" "lock_holder s p"
    by (auto simp: write_pid_def lock_holder_def split: if_splits)
  with locked assms(2) show ?thesis
    using lock_inv_alone lock_inv_pid [of s p] by (auto intro!: lock_inv_take)
next
  case (unlocked p os st f)
  then have "lock_holder s p" by (simp add: lock_holder_def)
  with unlocked assms(2) show ?thesis using lock_inv_pid [of s p] by (auto intro!: lock_inv_leave)
next
  case (ended p l os l' f)
  then have "f = ls_file s \<or> lock_holder s p"
    by (cases "l = 1") (auto simp: cleanup_lock_def lock_holder_def)
  with ended assms(2) show ?thesis by (auto intro!: lock_inv_leave)
next
  case (killed p)
  with assms(2) show ?thesis using lock_inv_leave [of s Gone "ls_file s" p] by (cases s) simp
next
  case (reused p)
  with assms(2) show ?thesis using lock_inv_leave [of s Idle "ls_file s" p] by (cases s) simp
qed

lemma lock_reachable_inv: "lock_reachable s \<Longrightarrow> lock_inv s"
proof (induction rule: lock_reachable.induct)
  case start
  show ?case by (simp add: lock_inv_def lock_holder_def)
next
  case (step s t)
  from lock_inv_step [OF step.hyps(2) step.IH] show ?case .
qed

lemma read_pid_own:
  assumes "0 < p" "p < 2 ^ 31" "po_stat os" "po_fopen os"
  shows "read_pid os (Some (printf_d p @ [10])) = Some p"
proof -
  have "printf_d p = dec (nat p)" using assms(1) by (simp add: printf_d_def)
  moreover have "scan_int (dec (nat p) @ [10]) = Some (int (nat p), [10])" by (rule scan_int_dec) (simp add: isdigit_def)
  moreover have "skip_ws (dec (nat p) @ [10]) = dec (nat p) @ [10]"
    using dec_no_space by (intro skip_ws_append) auto
  ultimately show ?thesis using assms by (simp add: read_pid_def c_int_of_id)
qed

text \<open>
  C36. Any number of servers are started, ended and killed at the same time with the same lock file.
  Then at most one of them has the lock, the file has its process id, the clean-up of that server is
  well-defined whatever fails, and when the calls succeed it removes the file, after which another server can
  take the lock.
\<close>

theorem one_server_runs:
  assumes "lock_reachable s" "ls_stage s p = Runs 1"
  shows "(\<forall>q. ls_stage s q = Runs 1 \<longrightarrow> q = p) \<and> ls_file s = Some (printf_d p @ [10])
    \<and> cleanup_lock os p 1 (ls_file s) \<noteq> None
    \<and> (po_stat os \<and> po_fopen os \<and> po_unlink os \<longrightarrow>
         cleanup_lock os p 1 (ls_file s) = Some (0, None)
       \<and> (\<forall>os' q. po_open os' \<and> po_fopen os' \<and> po_print os' \<longrightarrow> init_lock os' q 0 None = (0, 1, Some (printf_d q @ [10]))))"
proof -
  have inv: "lock_inv s" using assms(1) by (rule lock_reachable_inv)
  then have p: "0 < p" "p < 2 ^ 31" and f: "ls_file s = Some (printf_d p @ [10])"
    using assms(2) lock_inv_pid [of s p] by (simp_all add: lock_inv_def)
  have "read_pid os (ls_file s) \<noteq> None"
    using read_pid_own [OF p, of os] f by (cases "po_stat os"; cases "po_fopen os") (auto simp: read_pid_def)
  then have c: "cleanup_lock os p 1 (ls_file s) \<noteq> None"
    by (auto simp: cleanup_lock_def remove_pidfile_def)
  have u: "\<forall>q. ls_stage s q = Runs 1 \<longrightarrow> q = p"
    using lock_inv_alone [OF inv, of p] assms(2) by (auto simp: lock_holder_def)
  have "cleanup_lock os p 1 (ls_file s) = Some (0, None)" if "po_stat os \<and> po_fopen os \<and> po_unlink os"
    using that read_pid_own [OF p, of os] f p by (simp add: cleanup_lock_def remove_pidfile_def)
  with c u f show ?thesis
    by (auto simp: init_lock_def create_pidfile_def create_excl_def write_pid_def)
qed

definition os_fine :: pid_os where
  "os_fine = \<lparr>po_open = True, po_fopen = True, po_print = True, po_unlink = True, po_stat = True\<rparr>"

text \<open>Process 7 takes the lock while process 8 is refused; then 7 ends.\<close>

theorem one_server_runs_witness:
  "cleanup_lock os_fine 7 1 (Some [55, 10]) = Some (0, None)"
proof -
  let ?s0 = "\<lparr>ls_file = None, ls_stage = (\<lambda>_. Idle)\<rparr>"
  let ?s1 = "\<lparr>ls_file = Some [], ls_stage = (\<lambda>_. Idle)(7 := Opened)\<rparr>"
  let ?s2 = "\<lparr>ls_file = Some [], ls_stage = (\<lambda>_. Idle)(7 := Opened, 8 := Runs 0)\<rparr>"
  let ?s3 = "\<lparr>ls_file = Some (printf_d 7 @ [10]), ls_stage = (\<lambda>_. Idle)(7 := Opened, 8 := Runs 0, 7 := Runs 1)\<rparr>"
  have "lock_step ?s0 ?s1"
    using lock_step.opened [of ?s0 7 os_fine "Some []"] by (simp add: create_excl_def os_fine_def)
  moreover have "lock_step ?s1 ?s2"
    using lock_step.refused [of ?s1 8 os_fine 1 "Some []"] by (simp add: create_excl_def)
  moreover have "lock_step ?s2 ?s3"
    using lock_step.locked [of ?s2 7 os_fine] by (simp add: write_pid_def os_fine_def)
  ultimately have "lock_reachable ?s3" by (rule lock_reachable.step [OF lock_reachable.step [OF lock_reachable.step [OF lock_reachable.start]]])
  moreover have "printf_d 7 = [55]" by (simp add: printf_d_def dec.simps)
  ultimately show ?thesis using one_server_runs [of ?s3 7 os_fine] by (simp add: os_fine_def)
qed

text \<open>
  When the file that was just created cannot be opened for writing, it stays behind, empty, and no
  server starts any more.
\<close>

lemma empty_pidfile_stays:
  assumes "po_open os" "\<not> po_fopen os"
  shows "create_pidfile os p None = (1, Some [])" "create_pidfile os' q (Some []) = (1, Some [])"
  using assms by (simp_all add: create_pidfile_def create_excl_def write_pid_def)

section \<open>Privileges are given up\<close>

text \<open>
  C39. Started by the super-user with groups, user and home directory that the system knows, the server
  ends up with that user, the first group and the home directory, and cannot become
  super-user again. The supplementary groups are the other groups of the list, if there are any;
  with one group the supplementary groups of the super-user stay.
\<close>

theorem privileges_dropped:
  assumes "uid c = 0" "grps \<noteq> []" "0 \<notin> set grps" "kept_fields [44] False grps = g # gs"
    and "list_all (\<lambda>n. cr_gid e n \<noteq> None) (g # gs)" "user \<noteq> []" "cr_uid e user = Some u" "u \<noteq> 0" "home \<noteq> []" "cr_chdir e home"
  shows "\<exists>c'. drop_privs e (Some grps) (Some user) (Some home) c = Some (0, c')
    \<and> uid c' = u \<and> Some (gid c') = cr_gid e g \<and> cwd c' = home
    \<and> sup_groups c' = (if gs = [] then sup_groups c else map (\<lambda>n. the (cr_gid e n)) gs)
    \<and> (\<forall>root. cr_uid e root = Some 0 \<longrightarrow> change_user e root c' = (-1, c'))"
proof -
  let ?c1 = "c\<lparr>gid := the (cr_gid e g)\<rparr>"
  let ?c2 = "if gs = [] then ?c1 else ?c1\<lparr>sup_groups := map (\<lambda>n. the (cr_gid e n)) gs\<rparr>"
  have cs: "cstr '','' = [44]" by (simp add: cstr_def)
  have "change_groups e (g # gs) c = Some (0, ?c2)"
    using assms(1,5) by (auto simp: change_groups_def change_group_def get_group_gid_def)
  moreover have "change_user e user ?c2 = (0, ?c2\<lparr>uid := u\<rparr>)"
    using assms(1,7) by (simp add: change_user_def get_user_uid_def)
  ultimately have "drop_privs e (Some grps) (Some user) (Some home) c = Some (0, ?c2\<lparr>uid := u, cwd := home\<rparr>)"
    using assms(2-4,6,9,10) strsplit_create_eq [OF assms(2,3), of "[44]" False]
    by (simp add: drop_privs_def valid_str_def cs change_privs_def)
  with assms(5,8) show ?thesis by (auto simp: change_user_def get_user_uid_def)
qed

definition cred0 :: creds where "cred0 = \<lparr>uid = 0, gid = 0, sup_groups = [0, 5], cwd = [47]\<rparr>"

definition cred_env0 :: cred_env where
  "cred_env0 = \<lparr>cr_uid = (\<lambda>n. if n = [97] then Some 7 else None),
     cr_gid = (\<lambda>n. if n = [98] then Some 8 else if n = [99] then Some 9 else None), cr_chdir = (\<lambda>_. True)\<rparr>"

theorem privileges_dropped_witness:
  "\<exists>c'. drop_privs cred_env0 (Some [98, 44, 99]) (Some [97]) (Some [47, 97]) cred0 = Some (0, c')
     \<and> uid c' = 7 \<and> gid c' = 8 \<and> sup_groups c' = [9]"
  using privileges_dropped [of cred0 "[98, 44, 99]" "[98]" "[[99]]" cred_env0 "[97]" 7 "[47, 97]"]
  by (auto simp: cred0_def cred_env0_def kept_fields_def)

text \<open>A program that is started is remembered, so that it is closed at the end; one that failed is closed at once.\<close>

interpretation httpd_pipe: owned_handle "\<lambda>e. httpd_open e httpd" httpd_close for httpd
  by unfold_locales (auto simp: httpd_open_def httpd_close_def split: option.splits if_splits)

interpretation bbserver_pipe: owned_handle "\<lambda>e. bbserver_open e bbserver" bbserver_close for bbserver
  by unfold_locales (auto simp: bbserver_open_def bbserver_close_def split: option.splits if_splits)

text \<open>Hence a process that starts and stops its programs any number of times closes every pipe it has opened.\<close>

lemma programs_balanced:
  "handle_sessions (\<lambda>e. httpd_open e httpd) httpd_close es None = (fp, op, cl) \<Longrightarrow> fp = None \<and> op = cl"
  "handle_sessions (\<lambda>e. bbserver_open e bbserver) bbserver_close es None = (fp, op, cl) \<Longrightarrow> fp = None \<and> op = cl"
  by (rule httpd_pipe.sessions_balanced, assumption) (rule bbserver_pipe.sessions_balanced)

text \<open>The program goes on only when the spool directory and all its parts are directories.\<close>

lemma init_directories_ok:
  "init_directories stat sd dd ld td qd = Inr 0 \<longleftrightarrow>
     stat sd = Some True \<and> (\<forall>d \<in> {dd, ld, td, qd}. stat (sd @ [47] @ d) = Some True)"
  by (auto simp: init_directories_def checkdir_def check_subdir_def split: option.splits bool.splits)

text \<open>No zombie is left: the server waits for the only child it makes itself.\<close>

lemma exec_external_program_waits:
  "exec_external_program e s = (ps, n) \<Longrightarrow> n \<le> 1 \<and> (n = 0 \<longleftrightarrow> ps = []) \<and> (Exec t \<in> set ps \<longrightarrow> t = s \<and> ps = [Exit 0, Exec s])"
  by (auto simp: exec_external_program_def split: if_splits)

end
