(* ===== verification/Startup.thy ===== *)
theory Startup
  imports Config Daemon Npemwin
begin

text \<open>
  The life of the process: \<open>main\<close>, \<open>parse_args\<close> and \<open>loop\<close> of \<open>src/main.c\<close>, the steps of the start-up
  and \<open>cleanup\<close> of \<open>src/init.c\<close>, the set-up of the signals in \<open>src/signal.c\<close>, the start and the end of the
  thread of \<open>src/npemwin.c\<close>, with the components these call. The answers of the system and of the
  libraries are the record \<open>start_env\<close>.
\<close>

section \<open>The state of the process\<close>

record globals =
  n_conf :: "conf_table \<times> gvars"
  n_configfile :: "byte list option"
  n_option_C :: int
  n_option_F :: int
  n_f_debug :: int
  n_f_ndaemon :: int
  n_f_verbose :: int
  n_log :: "int \<times> int \<times> bool"
  n_sig :: sig_st
  n_ignored :: "signo set"
  n_blocked :: "signo set"
  n_signal_thread :: bool
  n_creds :: creds
  n_umask :: int
  n_servers :: emwin_server_list
  n_pid :: int
  n_f_lock :: int
  n_pidfile :: pid_file
  n_qfiles :: bool
  n_bbserverfp :: "int option"
  n_httpdfp :: "int option"
  n_per :: per_st
  n_f_npemwin_thread_created :: int
  n_popened :: "int list"
  n_pclosed :: "int list"
  n_printed :: "byte list"

text \<open>
  \<open>n_ignored\<close> are the signals whose action is to be ignored (the others have the default action),
  \<open>n_blocked\<close> is the mask of the main thread, \<open>n_log\<close> are the levels and the destination of the messages, \<open>n_popened\<close> and \<open>n_pclosed\<close> the programs
  behind the pipes opened and closed, \<open>n_printed\<close> the standard output. The options on the command line
  are what \<open>getopt\<close> gives.
\<close>

datatype option_arg = Opt_c "byte list" | Opt_C | Opt_F | Opt_D | Opt_V | Opt_bad

record start_env =
  se_debug_build :: bool
  se_tcl :: tcl_env
  se_confdir :: "byte list"
  se_libexecdir :: "byte list"
  se_defconfigfile :: "byte list"
  se_sigmask :: int
  se_opts :: "option_arg list"
  se_creds :: cred_env
  se_list :: "byte list option \<times> list_env \<times> tsv_st"
  se_stat :: "byte list \<Rightarrow> bool option"
  se_exists :: "byte list \<Rightarrow> int"
  se_eval :: "byte list \<Rightarrow> int"
  se_daemon :: "int \<times> int"
  se_sigthread :: "int list"
  se_pid_os :: pid_os
  se_malloc :: "bool list"
  se_bbserver :: pipe_env
  se_httpd :: pipe_env
  se_now :: int
  se_minute :: int
  se_npthread :: "int list"

text \<open>
  How a step ends: with a status, with the exit of the process, or in behaviour that C does not
  define. A step of \<open>main\<close> is taken only if the status is still 0.
\<close>

datatype 'a outcome = Next int 'a | Exited int 'a | Undefined

fun and_then :: "'a outcome \<Rightarrow> ('a \<Rightarrow> 'a outcome) \<Rightarrow> 'a outcome" where
  "and_then (Next st s) f = (if st = 0 then f s else Next st s)"
| "and_then (Exited c s) f = Exited c s"
| "and_then Undefined f = Undefined"

fun always :: "'a outcome \<Rightarrow> ('a \<Rightarrow> 'a) \<Rightarrow> 'a outcome" where
  "always (Next st s) f = Next st (f s)"
| "always (Exited c s) f = Exited c s"
| "always Undefined f = Undefined"

definition svar :: "globals \<Rightarrow> string \<Rightarrow> byte list option" where
  "svar s f = str_val (fst (n_conf s)) (snd (n_conf s) f)"

definition sval :: "globals \<Rightarrow> string \<Rightarrow> byte list" where
  "sval s f = (case svar s f of None \<Rightarrow> [] | Some x \<Rightarrow> x)"

definition ivar :: "globals \<Rightarrow> string \<Rightarrow> int" where
  "ivar s f = int_val (snd (n_conf s) f)"

text \<open>A chain of calls that return 0 or an error: the first error, or 0.\<close>

fun first_error :: "int list \<Rightarrow> int" where
  "first_error [] = 0"
| "first_error (x # xs) = (if x \<noteq> 0 then x else first_error xs)"

section \<open>Steps of the start-up\<close>

text \<open>
  Signals are first blocked in the only thread, so that every thread made later inherits that; then
  a thread waits for them. \<open>se_sigthread\<close>: initialising the attributes, the detached state, the thread.
\<close>

definition signal_set :: "signo set" where
  "signal_set = {SIGALRM, SIGHUP, SIGPIPE, SIGINT, SIGTERM, SIGQUIT, SIGABRT}"

definition default_signals :: "globals \<Rightarrow> globals" where
  "default_signals s = s\<lparr>n_ignored := n_ignored s - {SIGALRM, SIGHUP, SIGPIPE, SIGINT, SIGTERM, SIGQUIT, SIGABRT}\<rparr>"

definition init_signals_block :: "start_env \<Rightarrow> globals \<Rightarrow> globals outcome" where
  "init_signals_block e s =
     (let s = default_signals s; status = se_sigmask e
      in Next status (if status = 0 then s\<lparr>n_blocked := n_blocked s \<union> signal_set\<rparr> else s))"

definition init_signals_thread :: "start_env \<Rightarrow> globals \<Rightarrow> globals outcome" where
  "init_signals_thread e s =
     (let status = first_error (se_sigthread e) in Next status (if status = 0 then s\<lparr>n_signal_thread := True\<rparr> else s))"

text \<open>The function the two were made from, which \<open>main\<close> does not call any more.\<close>

definition init_signals :: "start_env \<Rightarrow> globals \<Rightarrow> globals outcome" where
  "init_signals e s =
     (let s = default_signals s;
          status = se_sigmask e;
          s = (if status = 0 then s\<lparr>n_blocked := n_blocked s \<union> signal_set\<rparr> else s);
          status = (if status = 0 then first_error (se_sigthread e) else status);
          s = (if status = 0 then s\<lparr>n_signal_thread := True\<rparr> else s)
      in Next status s)"

definition do_configure :: "start_env \<Rightarrow> globals \<Rightarrow> globals outcome" where
  "do_configure e s =
     (case configure (se_tcl e) (n_configfile s) (se_defconfigfile e) (n_conf s) of
        None \<Rightarrow> Undefined
      | Some (status, c) \<Rightarrow> Next status (s\<lparr>n_conf := c\<rparr>))"

fun parse_args :: "bool \<Rightarrow> option_arg list \<Rightarrow> globals \<Rightarrow> globals outcome" where
  "parse_args dbg [] s = Next 0 s"
| "parse_args dbg (Opt_c arg # opts) s = parse_args dbg opts (s\<lparr>n_configfile := Some arg\<rparr>)"
| "parse_args dbg (Opt_C # opts) s = parse_args dbg opts (s\<lparr>n_option_C := 1\<rparr>)"
| "parse_args dbg (Opt_F # opts) s = parse_args dbg opts (s\<lparr>n_option_F := 1\<rparr>)"
| "parse_args dbg (Opt_D # opts) s =
     (if dbg then
        let s = s\<lparr>n_f_debug := n_f_debug s + 1\<rparr>
        in parse_args dbg opts (if n_f_debug s = 2 then s\<lparr>n_f_ndaemon := 1\<rparr> else s)
      else Exited 1 s)"
| "parse_args dbg (Opt_V # opts) s =
     (if dbg then parse_args dbg opts (s\<lparr>n_f_verbose := n_f_verbose s + 1\<rparr>) else Exited 1 s)"
| "parse_args dbg (Opt_bad # opts) s = Exited 1 s"

definition do_validate :: "globals \<Rightarrow> globals outcome" where
  "do_validate s = Next (validate_configuration (n_conf s)) s"

definition do_drop_privs :: "start_env \<Rightarrow> globals \<Rightarrow> globals outcome" where
  "do_drop_privs e s =
     (case drop_privs (se_creds e) (svar s ''group'') (svar s ''user'') (svar s ''home'') (n_creds s) of
        None \<Rightarrow> Undefined
      | Some (status, c) \<Rightarrow> Next status (s\<lparr>n_creds := c\<rparr>))"

definition init_server_list :: "start_env \<Rightarrow> globals \<Rightarrow> globals outcome" where
  "init_server_list e s =
     (case se_list e of (fl, le, st) \<Rightarrow>
        case get_server_list fl le st (n_servers s) of
          (status, l) \<Rightarrow>
            let s = s\<lparr>n_servers := l\<rparr>
            in if status = -1 \<or> status = 1 \<or> status = 2 then Exited 1 s else Next status s)"

definition do_init_directories :: "start_env \<Rightarrow> globals \<Rightarrow> globals outcome" where
  "do_init_directories e s =
     (case init_directories (se_stat e) (sval s ''spooldir'') (sval s ''datadir'') (sval s ''lockdir'')
             (sval s ''tmpdir'') (sval s ''qfilesdir'') of
        Inl _ \<Rightarrow> Exited 1 s
      | Inr status \<Rightarrow> Next status s)"

text \<open>\<open>se_eval\<close>: the status of the library for a script.\<close>

definition tcl_eval_file :: "start_env \<Rightarrow> byte list \<Rightarrow> int" where
  "tcl_eval_file e script = (if \<not> tcl_interp (se_tcl e) then -1 else se_eval e script)"

definition do_startscript :: "start_env \<Rightarrow> globals \<Rightarrow> globals outcome" where
  "do_startscript e s = Next (exec_startscript (se_exists e) (tcl_eval_file e) (svar s ''startscript'')) s"

text \<open>
  \<open>se_daemon\<close>: the status of \<open>daemon\<close> in the process that goes on, and its number. The library goes to
  the root directory unless told not to.
\<close>

definition init_daemon :: "start_env \<Rightarrow> globals \<Rightarrow> globals outcome" where
  "init_daemon e s =
     (let nochdir = valid_str (svar s ''home'');
          status = (if n_option_F s = 0 then fst (se_daemon e) else 0)
      in if status \<noteq> 0 then Next status s
         else
           let s = (if n_option_F s = 0 then s\<lparr>n_pid := snd (se_daemon e)\<rparr> else s);
               s = (if n_option_F s = 0 \<and> \<not> nochdir then s\<lparr>n_creds := (n_creds s)\<lparr>cwd := [47]\<rparr>\<rparr> else s)
           in Next 0 (s\<lparr>n_umask := ivar s ''umask'', n_log := (fst (n_log s), fst (snd (n_log s)), True)\<rparr>))"

definition do_init_lock :: "start_env \<Rightarrow> globals \<Rightarrow> globals outcome" where
  "do_init_lock e s =
     (case init_lock (se_pid_os e) (n_pid s) (n_f_lock s) (n_pidfile s) of
        (status, fl, f) \<Rightarrow> Next status (s\<lparr>n_f_lock := fl, n_pidfile := f\<rparr>))"

text \<open>The storage of the names of files is four pieces; \<open>se_malloc\<close> says which can be had.\<close>

definition do_init_qfiles :: "start_env \<Rightarrow> globals \<Rightarrow> globals outcome" where
  "do_init_qfiles e s = (if list_all id (se_malloc e) then Next 0 (s\<lparr>n_qfiles := True\<rparr>) else Next (-1) s)"

definition destroy_emwin_qfiles :: "globals \<Rightarrow> globals" where
  "destroy_emwin_qfiles s = s\<lparr>n_qfiles := False\<rparr>"

definition spawn_bbregistrar :: "start_env \<Rightarrow> globals \<Rightarrow> globals outcome" where
  "spawn_bbregistrar e s =
     (case bbserver_open (se_bbserver e) (svar s ''bbserver'') (n_bbserverfp s) of
        (status, fp, op, cl) \<Rightarrow>
          Next status (s\<lparr>n_bbserverfp := fp, n_popened := n_popened s @ op, n_pclosed := n_pclosed s @ cl\<rparr>))"

definition spawn_httpd_server :: "start_env \<Rightarrow> globals \<Rightarrow> globals outcome" where
  "spawn_httpd_server e s =
     (case httpd_open (se_httpd e) (svar s ''httpd'') (n_httpdfp s) of
        (status, fp, op, cl) \<Rightarrow>
          Next status (s\<lparr>n_httpdfp := fp, n_popened := n_popened s @ op, n_pclosed := n_pclosed s @ cl\<rparr>))"

definition do_init_periodic :: "start_env \<Rightarrow> globals \<Rightarrow> globals outcome" where
  "do_init_periodic e s =
     Next 0 (s\<lparr>n_per := init_periodic [ivar s ''serverstate_log_period'', ivar s ''bbclientid_secs'', ivar s ''nbspstats_period'']
       (se_now e) (se_minute e) (n_per s)\<rparr>)"

definition create_npemwin_thread :: "start_env \<Rightarrow> globals \<Rightarrow> globals outcome" where
  "create_npemwin_thread e s =
     (let status = first_error (se_npthread e)
      in Next status (if status = 0 then s\<lparr>n_f_npemwin_thread_created := 1\<rparr> else s))"

definition spawn_npemwin :: "start_env \<Rightarrow> globals \<Rightarrow> globals outcome" where
  "spawn_npemwin e s = create_npemwin_thread e s"

section \<open>The main function\<close>

text \<open>The signals ignored and blocked are inherited from the process that starts the program.\<close>

definition globals0 :: "start_env \<Rightarrow> signo set \<times> signo set \<Rightarrow> int \<Rightarrow> creds \<Rightarrow> pid_file \<Rightarrow> per_st \<Rightarrow> emwin_server_list \<Rightarrow> globals" where
  "globals0 e sigs pid c f per l =
     \<lparr>n_conf = (confoptions, init_globals (se_confdir e) (se_libexecdir e)), n_configfile = None,
      n_option_C = 0, n_option_F = 0, n_f_debug = 0, n_f_ndaemon = 0, n_f_verbose = 0, n_log = (0, 0, False),
      n_sig = sig_init, n_ignored = fst sigs, n_blocked = snd sigs, n_signal_thread = False, n_creds = c, n_umask = 0, n_servers = l,
      n_pid = pid, n_f_lock = 0, n_pidfile = f, n_qfiles = False, n_bbserverfp = None, n_httpdfp = None,
      n_per = per, n_f_npemwin_thread_created = 0, n_popened = [], n_pclosed = [], n_printed = []\<rparr>"

definition set_log_levels :: "globals \<Rightarrow> globals" where
  "set_log_levels s = s\<lparr>n_log := (n_f_debug s, n_f_verbose s, snd (snd (n_log s)))\<rparr>"

definition main_init :: "start_env \<Rightarrow> globals \<Rightarrow> globals outcome" where
  "main_init e s =
     (let r = init_signals_block e s;
          r = and_then r (do_configure e);
          r = and_then r (parse_args (se_debug_build e) (se_opts e));
          r = and_then r (\<lambda>s. if n_configfile s \<noteq> None then do_configure e s else Next 0 s);
          r = and_then r (\<lambda>s. if n_option_C s = 1 then Exited 0 (s\<lparr>n_printed := print_confoptions (n_conf s)\<rparr>) else Next 0 s);
          r = and_then r do_validate;
          r = and_then r (do_drop_privs e);
          r = and_then r (init_server_list e);
          r = and_then r (do_init_directories e);
          r = and_then r (do_startscript e);
          r = and_then r (\<lambda>s. if n_f_ndaemon s = 0 then init_daemon e s else Next 0 s);
          r = always r set_log_levels;
          r = and_then r (init_signals_thread e);
          r = and_then r (do_init_lock e);
          r = and_then r (do_init_qfiles e);
          r = and_then r (\<lambda>s. if ivar s ''bbserver_enable'' > 0 then spawn_bbregistrar e s else Next 0 s);
          r = and_then r (do_init_periodic e);
          r = and_then r (\<lambda>s. if ivar s ''httpd_enable'' > 0 then spawn_httpd_server e s else Next 0 s)
      in and_then r (spawn_npemwin e))"

text \<open>
  A round of the main loop: while it sleeps, the signals that come and whether the other thread
  asks to quit because it cannot start its server; then the periodic tasks.
\<close>

record round =
  rd_signals :: "sig_event list"
  rd_thread_quits :: bool
  rd_now :: int
  rd_minute :: int
  rd_wait_pid :: int
  rd_fork_pid :: int
  rd_later :: int

definition loop :: "round \<Rightarrow> globals \<Rightarrow> globals outcome" where
  "loop r s =
     (case signal_events (n_f_debug s \<noteq> 0) (rd_signals r) (n_sig s) of
        Inl c \<Rightarrow> Exited c s
      | Inr (_, g) \<Rightarrow>
          case get_hup_flag (if rd_thread_quits r then set_quit_flag g else g) of
            (hup, g) \<Rightarrow>
              Next 0 (s\<lparr>n_sig := g,
                n_per := periodic (ivar s ''qrunperiod'') (ivar s ''qrunreportperiod'') (rd_now r) (rd_minute r) (hup \<noteq> 0)
                  (rd_wait_pid r) (rd_fork_pid r) (rd_later r) (n_per s)\<rparr>))"

text \<open>As many rounds as are given; \<open>Next\<close> is a process that still runs.\<close>

fun main_loop :: "round list \<Rightarrow> int \<Rightarrow> globals \<Rightarrow> globals outcome" where
  "main_loop rs status s =
     (if get_quit_flag (n_sig s) \<noteq> 0 then Exited (if status \<noteq> 0 then 1 else 0) s
      else case rs of
          [] \<Rightarrow> Next status s
        | r # rs \<Rightarrow> (case loop r s of
              Next status s \<Rightarrow> main_loop rs status s
            | Exited c s \<Rightarrow> Exited c s
            | Undefined \<Rightarrow> Undefined))"

declare main_loop.simps [simp del]

definition main :: "start_env \<Rightarrow> round list \<Rightarrow> globals \<Rightarrow> globals outcome" where
  "main e rs s =
     (case main_init e s of
        Next status s \<Rightarrow> main_loop rs status (if status \<noteq> 0 then s\<lparr>n_sig := set_quit_flag (n_sig s)\<rparr> else s)
      | Exited c s \<Rightarrow> Exited c s
      | Undefined \<Rightarrow> Undefined)"

section \<open>The end of the process\<close>

text \<open>
  \<open>cleanup\<close> is called by \<open>exit\<close>, also at the return of \<open>main\<close>. The other thread ends when it sees the
  flag to quit; \<open>None\<close> is waiting for it without end. That thread may call \<open>exit\<close> itself (\<open>self\<close>);
  waiting for itself fails at once. \<open>Bad_read\<close> is a read of memory that was freed or never set.
\<close>

datatype 'a ending = Ended 'a | Waits_forever | Bad_read

definition kill_npemwin_thread :: "bool \<Rightarrow> globals \<Rightarrow> globals option" where
  "kill_npemwin_thread self s =
     (if n_f_npemwin_thread_created s = 0 then Some s
      else if self then Some s
      else if get_quit_flag (n_sig s) \<noteq> 0 then Some s else None)"

definition kill_httpd_server :: "globals \<Rightarrow> globals" where
  "kill_httpd_server s = (case httpd_close (n_httpdfp s) of (fp, cl) \<Rightarrow> s\<lparr>n_httpdfp := fp, n_pclosed := n_pclosed s @ cl\<rparr>)"

definition kill_bbregistrar :: "globals \<Rightarrow> globals" where
  "kill_bbregistrar s =
     (case bbserver_close (n_bbserverfp s) of (fp, cl) \<Rightarrow> s\<lparr>n_bbserverfp := fp, n_pclosed := n_pclosed s @ cl\<rparr>)"

definition stopscript_string :: "globals \<Rightarrow> byte list option option" where
  "stopscript_string s = (case snd (n_conf s) ''stopscript'' of Some (GStr p) \<Rightarrow> strp_val (fst (n_conf s)) p | _ \<Rightarrow> Some None)"

definition cleanup :: "start_env \<Rightarrow> bool \<Rightarrow> globals \<Rightarrow> (int \<times> globals) ending" where
  "cleanup e self s =
     (case kill_npemwin_thread self s of
        None \<Rightarrow> Waits_forever
      | Some s \<Rightarrow>
          let s = kill_bbregistrar (kill_httpd_server s) in
          case cleanup_lock (se_pid_os e) (n_pid s) (n_f_lock s) (n_pidfile s) of
            None \<Rightarrow> Bad_read
          | Some (fl, f) \<Rightarrow>
              let s = s\<lparr>n_f_lock := fl, n_pidfile := f\<rparr>;
                  s = s\<lparr>n_conf := (release_confoptions (fst (n_conf s)), snd (n_conf s))\<rparr>;
                  s = destroy_emwin_qfiles s
              in case stopscript_string s of
                  None \<Rightarrow> Bad_read
                | Some script \<Rightarrow> Ended (exec_stopscript (se_exists e) (tcl_eval_file e) script, s))"

section \<open>A start that succeeds\<close>

lemma and_then_ok [simp]: "and_then r f = Next 0 t \<longleftrightarrow> (\<exists>s. r = Next 0 s \<and> f s = Next 0 t)"
  by (cases r) auto

lemma always_ok [simp]: "always r f = Next 0 t \<longleftrightarrow> (\<exists>s. r = Next 0 s \<and> t = f s)"
  by (cases r) auto

lemma get_server_list_ok: "get_server_list fl le st l = (0, l') \<Longrightarrow> es_max l' \<noteq> -1"
  by (auto simp: get_server_list_def Let_def split: option.splits prod.splits if_splits)

text \<open>What the steps do when they succeed.\<close>

lemma parse_args_frame:
  "parse_args d opts s = Next 0 t \<Longrightarrow> \<exists>cf C F D N V. t = s\<lparr>n_configfile := cf, n_option_C := C, n_option_F := F, n_f_debug := D,
     n_f_ndaemon := N, n_f_verbose := V\<rparr>"
proof (induction d opts s rule: parse_args.induct)
  case (1 dbg s)
  then have "t = s\<lparr>n_configfile := n_configfile s, n_option_C := n_option_C s, n_option_F := n_option_F s,
    n_f_debug := n_f_debug s, n_f_ndaemon := n_f_ndaemon s, n_f_verbose := n_f_verbose s\<rparr>" by simp
  then show ?case by blast
qed (auto simp: Let_def split: if_splits)

lemma step_ok:
  "init_signals_block e s = Next 0 t \<longleftrightarrow> se_sigmask e = 0 \<and> t = (default_signals s)\<lparr>n_blocked := n_blocked s \<union> signal_set\<rparr>"
  "init_signals_thread e s = Next 0 t \<longleftrightarrow> first_error (se_sigthread e) = 0 \<and> t = s\<lparr>n_signal_thread := True\<rparr>"
  "do_configure e s = Next 0 t \<longleftrightarrow>
     (\<exists>c. configure (se_tcl e) (n_configfile s) (se_defconfigfile e) (n_conf s) = Some (0, c) \<and> t = s\<lparr>n_conf := c\<rparr>)"
  "do_validate s = Next 0 t \<longleftrightarrow> validate_configuration (n_conf s) = 0 \<and> t = s"
  "do_drop_privs e s = Next 0 t \<longleftrightarrow>
     (\<exists>c. drop_privs (se_creds e) (svar s ''group'') (svar s ''user'') (svar s ''home'') (n_creds s) = Some (0, c)
        \<and> t = s\<lparr>n_creds := c\<rparr>)"
  "do_init_directories e s = Next 0 t \<longleftrightarrow>
     init_directories (se_stat e) (sval s ''spooldir'') (sval s ''datadir'') (sval s ''lockdir'')
             (sval s ''tmpdir'') (sval s ''qfilesdir'') = Inr 0 \<and> t = s"
  "do_startscript e s = Next 0 t \<longleftrightarrow>
     exec_startscript (se_exists e) (tcl_eval_file e) (svar s ''startscript'') = 0 \<and> t = s"
  "do_init_qfiles e s = Next 0 t \<longleftrightarrow> list_all id (se_malloc e) \<and> t = s\<lparr>n_qfiles := True\<rparr>"
  "spawn_npemwin e s = Next 0 t \<longleftrightarrow> first_error (se_npthread e) = 0 \<and> t = s\<lparr>n_f_npemwin_thread_created := 1\<rparr>"
  by (auto simp: init_signals_block_def default_signals_def init_signals_thread_def do_configure_def do_validate_def do_drop_privs_def
      do_init_directories_def do_startscript_def do_init_qfiles_def spawn_npemwin_def create_npemwin_thread_def
      Let_def split: option.splits sum.splits prod.splits if_splits)

text \<open>Splitting the set-up of the signals in two has kept its meaning, error paths included.\<close>

lemma init_signals_split: "init_signals e s = and_then (init_signals_block e s) (init_signals_thread e)"
  by (simp add: init_signals_def init_signals_block_def init_signals_thread_def Let_def)

lemma do_init_lock_ok:
  "do_init_lock e s = Next 0 t \<longleftrightarrow> n_pidfile s = None \<and> po_open (se_pid_os e) \<and> po_fopen (se_pid_os e) \<and> po_print (se_pid_os e)
     \<and> t = s\<lparr>n_f_lock := 1, n_pidfile := Some (printf_d (n_pid s) @ [10])\<rparr>"
  by (auto simp: do_init_lock_def init_lock_def create_pidfile_def create_excl_def write_pid_def split: if_splits)

lemma init_server_list_ok:
  "init_server_list e s = Next 0 t \<Longrightarrow> \<exists>l. t = s\<lparr>n_servers := l\<rparr> \<and> es_max l \<noteq> -1"
  by (auto simp: init_server_list_def Let_def dest: get_server_list_ok split: prod.splits if_splits)

lemma init_daemon_ok:
  "init_daemon e s = Next 0 t \<Longrightarrow> \<exists>p d u lg. t = s\<lparr>n_pid := p, n_creds := (n_creds s)\<lparr>cwd := d\<rparr>, n_umask := u, n_log := lg\<rparr>"
proof -
  assume "init_daemon e s = Next 0 t"
  then have "t = s\<lparr>n_pid := n_pid t, n_creds := (n_creds s)\<lparr>cwd := cwd (n_creds t)\<rparr>, n_umask := n_umask t, n_log := n_log t\<rparr>"
    by (auto simp: init_daemon_def Let_def split: if_splits)
  then show ?thesis by metis
qed

lemma spawn_ok:
  "spawn_bbregistrar e s = Next 0 t \<Longrightarrow> \<exists>p op. t = s\<lparr>n_bbserverfp := Some p, n_popened := op\<rparr>"
  "spawn_httpd_server e s = Next 0 t \<Longrightarrow> \<exists>p op. t = s\<lparr>n_httpdfp := Some p, n_popened := op\<rparr>"
  by (auto simp: spawn_bbregistrar_def spawn_httpd_server_def bbserver_open_def httpd_open_def
      split: if_splits option.splits)

lemma enabled_ok:
  "(if ivar s ''bbserver_enable'' > 0 then spawn_bbregistrar e s else Next 0 s) = Next 0 t \<Longrightarrow>
     \<exists>p op. t = s\<lparr>n_bbserverfp := p, n_popened := op\<rparr> \<and> (ivar s ''bbserver_enable'' > 0 \<longrightarrow> p \<noteq> None)"
  "(if ivar s ''httpd_enable'' > 0 then spawn_httpd_server e s else Next 0 s) = Next 0 t \<Longrightarrow>
     \<exists>p op. t = s\<lparr>n_httpdfp := p, n_popened := op\<rparr> \<and> (ivar s ''httpd_enable'' > 0 \<longrightarrow> p \<noteq> None)"
proof -
  have r: "s\<lparr>n_bbserverfp := n_bbserverfp s, n_popened := n_popened s\<rparr> = s" "s\<lparr>n_httpdfp := n_httpdfp s, n_popened := n_popened s\<rparr> = s"
    by simp_all
  show "(if ivar s ''bbserver_enable'' > 0 then spawn_bbregistrar e s else Next 0 s) = Next 0 t \<Longrightarrow>
     \<exists>p op. t = s\<lparr>n_bbserverfp := p, n_popened := op\<rparr> \<and> (ivar s ''bbserver_enable'' > 0 \<longrightarrow> p \<noteq> None)"
    using spawn_ok(1) r(1) by (metis option.distinct(1) outcome.inject(1))
  show "(if ivar s ''httpd_enable'' > 0 then spawn_httpd_server e s else Next 0 s) = Next 0 t \<Longrightarrow>
     \<exists>p op. t = s\<lparr>n_httpdfp := p, n_popened := op\<rparr> \<and> (ivar s ''httpd_enable'' > 0 \<longrightarrow> p \<noteq> None)"
    using spawn_ok(2) r(2) by (metis option.distinct(1) outcome.inject(1))
qed

text \<open>The part of the state that the configuration decides, and that the later steps only read.\<close>

lemma vars_frame:
  "n_conf t = n_conf s \<Longrightarrow> svar t = svar s" "n_conf t = n_conf s \<Longrightarrow> sval t = sval s" "n_conf t = n_conf s \<Longrightarrow> ivar t = ivar s"
  by (auto simp: svar_def sval_def ivar_def fun_eq_iff)

lemma vars_servers [simp]: "svar (s\<lparr>n_servers := l\<rparr>) = svar s" "sval (s\<lparr>n_servers := l\<rparr>) = sval s"
  by (simp_all add: svar_def sval_def fun_eq_iff)

text \<open>
  C9. The main loop is entered only by a process that has done everything it needs: no signal it
  waits for is ignored, all of them are blocked and the thread that waits for them exists; the configuration is valid; it has given up its
  privileges as the configuration says; there is at least one server; the spool directory and its
  four parts exist and are directories; the start script succeeded; there was no lock file, and now there is
  one with its own process id; the programs that are enabled run; the thread of the server runs.
\<close>

theorem main_loop_initialised:
  assumes "main_init e s0 = Next 0 s"
  shows "n_ignored s \<inter> signal_set = {} \<and> signal_set \<subseteq> n_blocked s \<and> n_signal_thread s
    \<and> validate_configuration (n_conf s) = 0
    \<and> (\<exists>c. drop_privs (se_creds e) (svar s ''group'') (svar s ''user'') (svar s ''home'') (n_creds s0) = Some (0, c)
         \<and> uid (n_creds s) = uid c \<and> gid (n_creds s) = gid c \<and> sup_groups (n_creds s) = sup_groups c)
    \<and> es_max (n_servers s) \<noteq> -1
    \<and> se_stat e (sval s ''spooldir'') = Some True
    \<and> (\<forall>d \<in> {''datadir'', ''lockdir'', ''tmpdir'', ''qfilesdir''}. se_stat e (sval s ''spooldir'' @ [47] @ sval s d) = Some True)
    \<and> exec_startscript (se_exists e) (tcl_eval_file e) (svar s ''startscript'') = 0
    \<and> n_pidfile s0 = None \<and> n_f_lock s = 1 \<and> n_pidfile s = Some (printf_d (n_pid s) @ [10])
    \<and> n_qfiles s \<and> (ivar s ''bbserver_enable'' > 0 \<longrightarrow> n_bbserverfp s \<noteq> None)
    \<and> (ivar s ''httpd_enable'' > 0 \<longrightarrow> n_httpdfp s \<noteq> None) \<and> n_f_npemwin_thread_created s = 1"
proof -
  obtain s1 s2 s3 s4 s5 s6 s7 s8 s9 s10 s11 s12 s13 s14 s15 s16 s17 s18 where
    c: "init_signals_block e s0 = Next 0 s1" "do_configure e s1 = Next 0 s2"
    "parse_args (se_debug_build e) (se_opts e) s2 = Next 0 s3"
    "(if n_configfile s3 \<noteq> None then do_configure e s3 else Next 0 s3) = Next 0 s4"
    "(if n_option_C s4 = 1 then Exited 0 (s4\<lparr>n_printed := print_confoptions (n_conf s4)\<rparr>) else Next 0 s4) = Next 0 s5"
    "do_validate s5 = Next 0 s6" "do_drop_privs e s6 = Next 0 s7"
    and l: "init_server_list e s7 = Next 0 s8" "do_init_directories e s8 = Next 0 s9"
    "do_startscript e s9 = Next 0 s10" "(if n_f_ndaemon s10 = 0 then init_daemon e s10 else Next 0 s10) = Next 0 s11"
    "s12 = set_log_levels s11" "init_signals_thread e s12 = Next 0 s13"
    and r: "do_init_lock e s13 = Next 0 s14" "do_init_qfiles e s14 = Next 0 s15"
    "(if ivar s15 ''bbserver_enable'' > 0 then spawn_bbregistrar e s15 else Next 0 s15) = Next 0 s16"
    "do_init_periodic e s16 = Next 0 s17"
    "(if ivar s17 ''httpd_enable'' > 0 then spawn_httpd_server e s17 else Next 0 s17) = Next 0 s18"
    "spawn_npemwin e s18 = Next 0 s"
    using assms unfolding main_init_def Let_def and_then_ok always_ok by blast
  obtain cf C F D N V where s3: "s3 = s2\<lparr>n_configfile := cf, n_option_C := C, n_option_F := F, n_f_debug := D,
     n_f_ndaemon := N, n_f_verbose := V\<rparr>" using parse_args_frame [OF c(3)] by blast
  have s4: "\<exists>cn. s4 = s3\<lparr>n_conf := cn\<rparr>"
  proof (cases "n_configfile s3")
    case None
    with c(4) have "s4 = s3\<lparr>n_conf := n_conf s3\<rparr>" by simp
    then show ?thesis by blast
  next
    case (Some f)
    with c(4) show ?thesis by (auto simp: step_ok)
  qed
  have s5: "s5 = s4" using c(5) by (simp split: if_splits)
  from c(1,2) s3 s4 s5 have a: "n_creds s5 = n_creds s0" "n_pidfile s5 = n_pidfile s0"
      "n_ignored s5 \<inter> signal_set = {}" "signal_set \<subseteq> n_blocked s5"
    by (auto simp: step_ok default_signals_def signal_set_def)
  obtain c1 where cr: "drop_privs (se_creds e) (svar s5 ''group'') (svar s5 ''user'') (svar s5 ''home'') (n_creds s0) = Some (0, c1)"
    and s7: "s7 = s5\<lparr>n_creds := c1\<rparr>" and v: "validate_configuration (n_conf s5) = 0"
    using c(6,7) a(1) by (auto simp: step_ok)
  obtain sl where s8: "s8 = s7\<lparr>n_servers := sl\<rparr>" "es_max sl \<noteq> -1" using init_server_list_ok [OF l(1)] by blast
  have s10: "s10 = s7\<lparr>n_servers := sl\<rparr>" using l(2,3) s8(1) by (simp add: step_ok)
  have dirs: "init_directories (se_stat e) (sval s7 ''spooldir'') (sval s7 ''datadir'') (sval s7 ''lockdir'')
             (sval s7 ''tmpdir'') (sval s7 ''qfilesdir'') = Inr 0"
    and scr: "exec_startscript (se_exists e) (tcl_eval_file e) (svar s7 ''startscript'') = 0"
    using l(2,3) s8(1) by (simp_all add: step_ok)
  have "\<exists>pd d u lg. s11 = s10\<lparr>n_pid := pd, n_creds := (n_creds s10)\<lparr>cwd := d\<rparr>, n_umask := u, n_log := lg\<rparr>"
  proof (cases "n_f_ndaemon s10 = 0")
    case True
    then show ?thesis using l(4) init_daemon_ok by simp
  next
    case False
    then have "s11 = s10\<lparr>n_pid := n_pid s10, n_creds := (n_creds s10)\<lparr>cwd := cwd (n_creds s10)\<rparr>, n_umask := n_umask s10, n_log := n_log s10\<rparr>"
      using l(4) by simp
    then show ?thesis by blast
  qed
  then obtain pd d lg u where s13: "s13 = s10\<lparr>n_pid := pd, n_creds := (n_creds s10)\<lparr>cwd := d\<rparr>, n_umask := u, n_log := lg, n_signal_thread := True\<rparr>"
    using l(5,6) by (auto simp: step_ok set_log_levels_def)
  obtain bp bo where s16: "s16 = s15\<lparr>n_bbserverfp := bp, n_popened := bo\<rparr>" "ivar s15 ''bbserver_enable'' > 0 \<longrightarrow> bp \<noteq> None"
    using enabled_ok(1) [OF r(3)] by blast
  obtain hp ho where s18: "s18 = s17\<lparr>n_httpdfp := hp, n_popened := ho\<rparr>" "ivar s17 ''httpd_enable'' > 0 \<longrightarrow> hp \<noteq> None"
    using enabled_ok(2) [OF r(5)] by blast
  obtain pr where s17: "s17 = s16\<lparr>n_per := pr\<rparr>" using r(4) by (auto simp: do_init_periodic_def)
  have s: "s15 = s13\<lparr>n_f_lock := 1, n_pidfile := Some (printf_d (n_pid s13) @ [10]), n_qfiles := True\<rparr>"
    "s = s18\<lparr>n_f_npemwin_thread_created := 1\<rparr>" "n_pidfile s13 = None"
    using r(1,2,6) by (auto simp: step_ok do_init_lock_ok)
  have n: "n_conf s = n_conf s5" "n_conf s7 = n_conf s5" "n_conf s15 = n_conf s5" "n_conf s17 = n_conf s5"
    using s s13 s10 s7 s16 s17 s18 by simp_all
  note f = vars_frame [OF n(1)] vars_frame [OF n(2)] vars_frame [OF n(3)] vars_frame [OF n(4)]
  have "n_creds s = c1\<lparr>cwd := d\<rparr>" "n_ignored s \<inter> signal_set = {}" "signal_set \<subseteq> n_blocked s" "n_pidfile s0 = None" "n_servers s = sl" "n_signal_thread s"
    "n_pidfile s = Some (printf_d (n_pid s) @ [10])" "n_f_lock s = 1" "n_qfiles s" "n_bbserverfp s = bp" "n_httpdfp s = hp"
    "n_f_npemwin_thread_created s = 1"
    using s s13 s10 s7 s16 s17 s18 a by simp_all
  with cr v s8(2) scr dirs s16(2) s18(2) show ?thesis by (auto simp: f n init_directories_ok)
qed

section \<open>Every exit\<close>

text \<open>What holds of the state however a step ends: \<open>P\<close> if the process goes on, \<open>Q\<close> if it exits.\<close>

definition out :: "('a \<Rightarrow> bool) \<Rightarrow> ('a \<Rightarrow> bool) \<Rightarrow> 'a outcome \<Rightarrow> bool" where
  "out P Q r \<longleftrightarrow> (case r of Next st s \<Rightarrow> P s | Exited c s \<Rightarrow> Q s | Undefined \<Rightarrow> True)"

lemma out_simps [simp]: "out P Q (Next st s) = P s" "out P Q (Exited c s) = Q s" "out P Q Undefined"
  by (simp_all add: out_def)

lemma out_and_then:
  "out P Q r \<Longrightarrow> (\<And>s. P s \<Longrightarrow> out P' Q (f s)) \<Longrightarrow> (\<And>s. P s \<Longrightarrow> P' s) \<Longrightarrow> out P' Q (and_then r f)"
  by (cases r) auto

lemma out_always: "out P Q r \<Longrightarrow> (\<And>s. P s \<Longrightarrow> P' (f s)) \<Longrightarrow> out P' Q (always r f)"
  by (cases r) auto

text \<open>
  The pipes are accounted for, and the lock file is the one that was there at the start, or it is
  the own one. \<open>l\<close>, \<open>b\<close>, \<open>h\<close> and \<open>t\<close>: the lock, the two programs and the thread may have been started.
\<close>

definition pipes_ok :: "globals \<Rightarrow> bool" where
  "pipes_ok s \<longleftrightarrow> mset (n_popened s) = mset (n_pclosed s) + mset_set (set_option (n_bbserverfp s)) + mset_set (set_option (n_httpdfp s))"

definition lock_ok :: "pid_file \<Rightarrow> globals \<Rightarrow> bool" where
  "lock_ok f0 s \<longleftrightarrow> 0 < n_pid s \<and> n_pid s < 2 ^ 31
     \<and> (n_f_lock s = 0 \<and> n_pidfile s = f0 \<or> n_f_lock s = 1 \<and> f0 = None \<and> n_pidfile s = Some (printf_d (n_pid s) @ [10]))"

definition started :: "pid_file \<Rightarrow> bool \<Rightarrow> bool \<Rightarrow> bool \<Rightarrow> bool \<Rightarrow> globals \<Rightarrow> bool" where
  "started f0 l b h t s \<longleftrightarrow> pipes_ok s \<and> lock_ok f0 s \<and> n_sig s = sig_init
     \<and> (\<not> l \<longrightarrow> n_f_lock s = 0) \<and> (\<not> b \<longrightarrow> n_bbserverfp s = None) \<and> (\<not> h \<longrightarrow> n_httpdfp s = None)
     \<and> (\<not> t \<longrightarrow> n_f_npemwin_thread_created s = 0)"

definition good_env :: "start_env \<Rightarrow> bool" where
  "good_env e \<longleftrightarrow> po_fopen (se_pid_os e) \<and> po_print (se_pid_os e) \<and> po_unlink (se_pid_os e) \<and> po_stat (se_pid_os e)
     \<and> 0 < snd (se_daemon e) \<and> snd (se_daemon e) < 2 ^ 31"

lemma started_mono: "started f0 l b h t s \<Longrightarrow> (l \<longrightarrow> l') \<Longrightarrow> (b \<longrightarrow> b') \<Longrightarrow> (h \<longrightarrow> h') \<Longrightarrow> (t \<longrightarrow> t') \<Longrightarrow> started f0 l' b' h' t' s"
  by (auto simp: started_def)

lemmas started_defs = started_def pipes_ok_def lock_ok_def

lemma parse_args_started:
  "started f0 l b h t s \<Longrightarrow> out (started f0 l b h t) (started f0 l b h t) (parse_args d opts s)"
proof (induction d opts s rule: parse_args.induct)
  case (5 dbg opts s)
  then show ?case by (simp add: Let_def started_defs)
qed (simp_all add: started_defs)

lemma configuring_started:
  assumes "started f0 False False False False s"
  shows "out (started f0 False False False False) (started f0 False False False False) (init_signals_block e s)"
    "out (started f0 False False False False) (started f0 False False False False) (do_configure e s)"
    "out (started f0 False False False False) (started f0 False False False False) (do_validate s)"
    "out (started f0 False False False False) (started f0 False False False False) (do_drop_privs e s)"
    "out (started f0 False False False False) (started f0 False False False False) (init_server_list e s)"
    "out (started f0 False False False False) (started f0 False False False False) (do_init_directories e s)"
    "out (started f0 False False False False) (started f0 False False False False) (do_startscript e s)"
    "out (started f0 False False False False) (started f0 False False False False) (init_signals_thread e s)"
    "good_env e \<Longrightarrow> out (started f0 False False False False) (started f0 False False False False) (init_daemon e s)"
  using assms
  by (auto simp: started_defs init_signals_block_def default_signals_def do_configure_def do_validate_def do_drop_privs_def init_server_list_def
      do_init_directories_def do_startscript_def init_signals_thread_def init_daemon_def good_env_def Let_def
      split: option.splits prod.splits sum.splits)

lemma starting_started:
  "good_env e \<Longrightarrow> started f0 False False False False s \<Longrightarrow> out (started f0 True False False False) Q (do_init_lock e s)"
  "started f0 True False False False s \<Longrightarrow> out (started f0 True False False False) Q (do_init_qfiles e s)"
  "started f0 True False False False s \<Longrightarrow> out (started f0 True True False False) Q (spawn_bbregistrar e s)"
  "started f0 True True False False s \<Longrightarrow> out (started f0 True True False False) Q (do_init_periodic e s)"
  "started f0 True True False False s \<Longrightarrow> out (started f0 True True True False) Q (spawn_httpd_server e s)"
  "started f0 True True True False s \<Longrightarrow> out (started f0 True True True True) Q (spawn_npemwin e s)"
  by (auto simp: started_defs do_init_lock_def init_lock_def create_pidfile_def create_excl_def write_pid_def good_env_def
      do_init_qfiles_def spawn_bbregistrar_def bbserver_open_def spawn_httpd_server_def httpd_open_def do_init_periodic_def
      spawn_npemwin_def create_npemwin_thread_def Let_def split: option.splits if_splits)

abbreviation fresh :: "pid_file \<Rightarrow> globals \<Rightarrow> bool" where
  "fresh f0 \<equiv> started f0 False False False False"

lemma main_init_started:
  assumes e: "good_env e" and s: "fresh f0 s"
  shows "out (started f0 True True True True) (fresh f0) (main_init e s)"
proof -
  note cs = configuring_started
  have stay: "out (fresh f0) (fresh f0) (and_then r f)"
    if "out (fresh f0) (fresh f0) r" "\<And>s. fresh f0 s \<Longrightarrow> out (fresh f0) (fresh f0) (f s)" for r f
    using that by (rule out_and_then)
  have lv: "fresh f0 (set_log_levels s)" if "fresh f0 s" for s
    using that by (auto simp: set_log_levels_def started_defs)
  have pr: "fresh f0 (s\<lparr>n_printed := x\<rparr>)" if "fresh f0 s" for s x
    using that by (auto simp: started_defs)
  show ?thesis
    unfolding main_init_def Let_def
    apply (rule out_and_then [where P = "started f0 True True True False"])
      apply (rule out_and_then [where P = "started f0 True True False False"])
        apply (rule out_and_then [where P = "started f0 True True False False"])
          apply (rule out_and_then [where P = "started f0 True False False False"])
            apply (rule out_and_then [where P = "started f0 True False False False"])
              apply (rule out_and_then [where P = "fresh f0"])
                apply (rule stay)
                 apply (rule out_always [where P = "fresh f0"])
                  apply ((rule stay)+)
                                 apply (auto intro: cs e s lv pr starting_started parse_args_started elim: started_mono)
    done
qed

lemma signal_event_Inl: "signal_event d ev g = Inl c \<Longrightarrow> \<not> d \<and> ev = Sigwait (Some SIGABRT)"
  by (induction d ev g rule: signal_event.induct)
    (auto elim!: signal_handler.elims simp: get_hup_flag_def get_alarm_flag_def split: if_splits sum.splits)

lemma signal_events_Inl: "signal_events d es g = Inl c \<Longrightarrow> \<not> d \<and> Sigwait (Some SIGABRT) \<in> set es"
  by (induction es arbitrary: g) (auto dest: signal_event_Inl split: sum.splits prod.splits)

text \<open>A round changes the flags and the periodic tasks only.\<close>

lemma loop_frame:
  "loop r s = Next st t \<Longrightarrow> st = 0 \<and> (\<exists>g pr. t = s\<lparr>n_sig := g, n_per := pr\<rparr>)"
  "loop r s = Exited c t \<Longrightarrow> t = s \<and> n_f_debug s = 0 \<and> Sigwait (Some SIGABRT) \<in> set (rd_signals r)"
  by (auto simp: loop_def dest: signal_events_Inl split: sum.splits prod.splits)

lemma main_loop_frame:
  "main_loop rs st s = Exited c t \<Longrightarrow> (\<exists>g pr. t = s\<lparr>n_sig := g, n_per := pr\<rparr>)
     \<and> (get_quit_flag (n_sig t) \<noteq> 0 \<or> n_f_debug s = 0 \<and> (\<exists>r \<in> set rs. Sigwait (Some SIGABRT) \<in> set (rd_signals r)))"
proof (induction rs arbitrary: st s)
  case Nil
  then have "t = s\<lparr>n_sig := n_sig s, n_per := n_per s\<rparr>" "get_quit_flag (n_sig t) \<noteq> 0"
    by (auto simp: main_loop.simps [of "[]"] split: if_splits)
  then show ?case by blast
next
  case (Cons r rs)
  show ?case
  proof (cases "get_quit_flag (n_sig s) = 0")
    case False
    with Cons.prems have "t = s\<lparr>n_sig := n_sig s, n_per := n_per s\<rparr>" "get_quit_flag (n_sig t) \<noteq> 0"
      by (auto simp: main_loop.simps [of "r # rs"])
    then show ?thesis by blast
  next
    case True
    show ?thesis
    proof (cases "loop r s")
      case (Next st' s')
      with True Cons.prems have "main_loop rs st' s' = Exited c t" by (simp add: main_loop.simps [of "r # rs"])
      note ih = Cons.IH [OF this]
      obtain g pr where s': "s' = s\<lparr>n_sig := g, n_per := pr\<rparr>" using loop_frame(1) [OF Next] by blast
      from ih obtain g' pr' where "t = s'\<lparr>n_sig := g', n_per := pr'\<rparr>" by blast
      with s' have "t = s\<lparr>n_sig := g', n_per := pr'\<rparr>" by simp
      then show ?thesis using ih s' by auto
    next
      case (Exited c' s')
      with True Cons.prems have "t = s'" by (simp add: main_loop.simps [of "r # rs"])
      then have "t = s\<lparr>n_sig := n_sig s, n_per := n_per s\<rparr>" using loop_frame(2) [OF Exited] by simp
      then show ?thesis using loop_frame(2) [OF Exited] by (metis list.set_intros(1))
    next
      case Undefined
      with True Cons.prems show ?thesis by (simp add: main_loop.simps [of "r # rs"])
    qed
  qed
qed

text \<open>What is left to clean up, and that cleaning up gets to its end.\<close>

definition to_clean :: "pid_file \<Rightarrow> globals \<Rightarrow> bool" where
  "to_clean f0 s \<longleftrightarrow> pipes_ok s \<and> lock_ok f0 s \<and> (n_f_npemwin_thread_created s = 0 \<or> get_quit_flag (n_sig s) \<noteq> 0)"

lemma main_to_clean:
  assumes e: "good_env e" and s0: "fresh f0 s0" and m: "main e rs s0 = Exited c s"
    and na: "\<forall>r \<in> set rs. Sigwait (Some SIGABRT) \<notin> set (rd_signals r)"
  shows "to_clean f0 s"
proof (cases "main_init e s0")
  case (Next st s1)
  let ?s2 = "if st \<noteq> 0 then s1\<lparr>n_sig := set_quit_flag (n_sig s1)\<rparr> else s1"
  have "started f0 True True True True s1" using main_init_started [OF e s0] Next by simp
  then have "pipes_ok ?s2" "lock_ok f0 ?s2" by (auto simp: started_defs)
  moreover have "main_loop rs st ?s2 = Exited c s" using m Next by (simp add: main_def)
  from main_loop_frame [OF this] na obtain g pr where "s = ?s2\<lparr>n_sig := g, n_per := pr\<rparr>" "get_quit_flag (n_sig s) \<noteq> 0"
    by blast
  ultimately show ?thesis by (auto simp: to_clean_def pipes_ok_def lock_ok_def)
next
  case (Exited c' s1)
  then show ?thesis using main_init_started [OF e s0] m by (auto simp: main_def to_clean_def started_def)
next
  case Undefined
  then show ?thesis using m by (simp add: main_def)
qed

lemma cleanup_lock_ok:
  assumes "good_env e" "lock_ok f0 s"
  shows "cleanup_lock (se_pid_os e) (n_pid s) (n_f_lock s) (n_pidfile s) = Some (0, f0)"
proof -
  have "read_pid (se_pid_os e) (Some (printf_d (n_pid s) @ [10])) = Some (n_pid s)"
    using read_pid_own [of "n_pid s" "se_pid_os e"] assms by (auto simp: lock_ok_def good_env_def)
  then show ?thesis using assms by (auto simp: lock_ok_def good_env_def cleanup_lock_def remove_pidfile_def)
qed

definition stopscript_own :: "globals \<Rightarrow> bool" where
  "stopscript_own s \<longleftrightarrow> (case snd (n_conf s) ''stopscript'' of Some (GStr (STab i)) \<Rightarrow> False | _ \<Rightarrow> True)"

lemma cleanup_ends:
  assumes "good_env e" "to_clean f0 s" "stopscript_own s"
  shows "\<exists>st t. cleanup e False s = Ended (st, t) \<and> mset (n_popened t) = mset (n_pclosed t)
    \<and> n_httpdfp t = None \<and> n_bbserverfp t = None \<and> \<not> n_qfiles t \<and> n_f_lock t = 0 \<and> n_pidfile t = f0"
proof -
  define t where "t = kill_bbregistrar (kill_httpd_server s)"
  have k: "kill_npemwin_thread False s = Some s" using assms(2) by (auto simp: to_clean_def kill_npemwin_thread_def)
  have t: "n_pid t = n_pid s" "n_f_lock t = n_f_lock s" "n_pidfile t = n_pidfile s" "n_conf t = n_conf s"
    "n_httpdfp t = None" "n_bbserverfp t = None" "mset (n_popened t) = mset (n_pclosed t)"
    using assms(2) by (auto simp: t_def kill_bbregistrar_def kill_httpd_server_def bbserver_close_def httpd_close_def
        to_clean_def pipes_ok_def split: option.splits)
  have "cleanup_lock (se_pid_os e) (n_pid t) (n_f_lock t) (n_pidfile t) = Some (0, f0)"
    using cleanup_lock_ok [OF assms(1)] assms(2) t by (simp add: to_clean_def)
  then show ?thesis
    using assms(3) t(4-) k unfolding stopscript_own_def
    by (auto simp: cleanup_def t_def [symmetric] Let_def destroy_emwin_qfiles_def stopscript_string_def strp_val_def
        split: option.splits gval.splits strp.splits)
qed

text \<open>
  C8. However the process ends, as long as it is not aborted, it leaves nothing behind: whether a step of
  the start-up failed or exited the program, the options asked only for the listing, or the
  process ran for any number of rounds until it was told to quit, the clean-up gets to its end (it
  does not wait forever for the other thread), every program started through a pipe has been waited for, and
  the lock file is as before the start: a file of another server is still there, the own one is removed. The
  hypotheses: the system calls on the lock file do not fail, and the stop script was not
  set in the configuration file.
\<close>

theorem exit_leaves_nothing:
  assumes "good_env e" "0 < pid" "pid < 2 ^ 31"
    and "main e rs (globals0 e sigs pid c f0 per l) = Exited code s"
    and "\<forall>r \<in> set rs. Sigwait (Some SIGABRT) \<notin> set (rd_signals r)" "stopscript_own s"
  shows "\<exists>st t. cleanup e False s = Ended (st, t) \<and> mset (n_popened t) = mset (n_pclosed t)
    \<and> n_httpdfp t = None \<and> n_bbserverfp t = None \<and> \<not> n_qfiles t \<and> n_f_lock t = 0 \<and> n_pidfile t = f0"
proof (rule cleanup_ends [OF assms(1) _ assms(6)])
  have "fresh f0 (globals0 e sigs pid c f0 per l)" using assms(2,3) by (simp add: started_defs globals0_def)
  from main_to_clean [OF assms(1) this assms(4,5)] show "to_clean f0 s" .
qed

text \<open>
  The stop script that the configuration file sets has been freed when it is run: the options are
  released before.
\<close>

lemma find_kill:
  "find_confoption (kill_confopt_table tab) i =
     map_option (\<lambda>op. if opt_type op = TCL_LINK_STRING then op\<lparr>opt_p := None\<rparr> else op) (find_confoption tab i)"
  by (induction tab) (simp_all add: kill_confopt_table_def)

theorem configured_stopscript_freed:
  assumes "good_env e" "to_clean f0 s" "snd (n_conf s) ''stopscript'' = Some (GStr (STab i))"
    and "\<forall>op. find_confoption (fst (n_conf s)) i = Some op \<longrightarrow> opt_type op = TCL_LINK_STRING"
  shows "cleanup e False s = Bad_read"
proof -
  define t where "t = kill_bbregistrar (kill_httpd_server s)"
  have k: "kill_npemwin_thread False s = Some s" using assms(2) by (auto simp: to_clean_def kill_npemwin_thread_def)
  have t: "n_pid t = n_pid s" "n_f_lock t = n_f_lock s" "n_pidfile t = n_pidfile s" "n_conf t = n_conf s"
    by (auto simp: t_def kill_bbregistrar_def kill_httpd_server_def bbserver_close_def httpd_close_def split: option.splits)
  have c: "cleanup_lock (se_pid_os e) (n_pid t) (n_f_lock t) (n_pidfile t) = Some (0, f0)"
    using cleanup_lock_ok [OF assms(1)] assms(2) t by (simp add: to_clean_def)
  have "strp_val (release_confoptions (fst (n_conf s))) (STab i) = None"
    using assms(4) by (cases "find_confoption (fst (n_conf s)) i") (simp_all add: strp_val_def release_confoptions_def find_kill)
  with assms(3) t(4) have "stopscript_string (destroy_emwin_qfiles (t\<lparr>n_f_lock := fl, n_pidfile := f,
      n_conf := (release_confoptions (fst (n_conf t)), snd (n_conf t))\<rparr>)) = None" for fl f
    by (simp add: destroy_emwin_qfiles_def stopscript_string_def)
  then show ?thesis using c k by (simp add: cleanup_def t_def [symmetric] Let_def)
qed

text \<open>
  A signal to abort ends the process from the thread of the signals without the flag to quit, so that
  the clean-up waits forever for the thread of the server.
\<close>

lemma abort_waits_forever:
  assumes "n_f_npemwin_thread_created s = 1" "f_quit (n_sig s) = 0" "n_f_debug s = 0" "rd_signals r = [Sigwait (Some SIGABRT)]"
  shows "loop r s = Exited 1 s" "cleanup e False s = Waits_forever"
  using assms by (simp_all add: loop_def cleanup_def kill_npemwin_thread_def get_quit_flag_def)

section \<open>An example\<close>

definition start0 :: start_env where
  "start0 = \<lparr>se_debug_build = False,
     se_tcl = \<lparr>tcl_interp = True, tcl_script = (\<lambda>_. ([], 0)), tcl_stat = (\<lambda>_. Stat_enoent)\<rparr>,
     se_confdir = [], se_libexecdir = [], se_defconfigfile = [], se_sigmask = 0, se_opts = [Opt_F],
     se_creds = \<lparr>cr_uid = (\<lambda>_. Some 7), cr_gid = (\<lambda>_. Some 8), cr_chdir = (\<lambda>_. True)\<rparr>,
     se_list = (Some (concat (map entry_line [(cstr ''@@10.0.0.5'', cstr ''1300'')])), list_env0, tsv_init),
     se_stat = (\<lambda>_. Some True), se_exists = (\<lambda>_. 0), se_eval = (\<lambda>_. 0), se_daemon = (0, 99),
     se_sigthread = [0, 0, 0], se_pid_os = os_fine, se_malloc = [True, True, True, True],
     se_bbserver = \<lparr>pe_popen = Some 5, pe_print = True, pe_flush = True\<rparr>,
     se_httpd = \<lparr>pe_popen = Some 6, pe_print = True, pe_flush = True\<rparr>,
     se_now = 1000, se_minute = 3, se_npthread = [0, 0]\<rparr>"

lemma start0_sel [simp]:
  "se_debug_build start0 = False" "se_tcl start0 = \<lparr>tcl_interp = True, tcl_script = (\<lambda>_. ([], 0)), tcl_stat = (\<lambda>_. Stat_enoent)\<rparr>"
  "se_confdir start0 = []" "se_libexecdir start0 = []" "se_defconfigfile start0 = []" "se_sigmask start0 = 0"
  "se_opts start0 = [Opt_F]" "se_creds start0 = \<lparr>cr_uid = (\<lambda>_. Some 7), cr_gid = (\<lambda>_. Some 8), cr_chdir = (\<lambda>_. True)\<rparr>"
  "se_list start0 = (Some (concat (map entry_line [(cstr ''@@10.0.0.5'', cstr ''1300'')])), list_env0, tsv_init)"
  "se_stat start0 = (\<lambda>_. Some True)" "se_exists start0 = (\<lambda>_. 0)" "se_eval start0 = (\<lambda>_. 0)" "se_daemon start0 = (0, 99)"
  "se_sigthread start0 = [0, 0, 0]" "se_pid_os start0 = os_fine" "se_malloc start0 = [True, True, True, True]"
  "se_httpd start0 = \<lparr>pe_popen = Some 6, pe_print = True, pe_flush = True\<rparr>" "se_npthread start0 = [0, 0]"
  by (simp_all add: start0_def)

lemma default_lookups:
  "init_globals [] [] ''group'' = Some (GStr (SLit (cstr ''noaaport'')))"
  "init_globals [] [] ''user'' = Some (GStr (SLit (cstr ''noaaport'')))"
  "init_globals [] [] ''home'' = Some (GStr (SLit (cstr ''/var/npemwin'')))"
  "init_globals [] [] ''startscript'' = Some (GStr (SLit (cstr ''/npemwind-start.tcl'')))"
  "init_globals [] [] ''stopscript'' = Some (GStr (SLit (cstr ''/npemwind-stop.tcl'')))"
  "init_globals [] [] ''httpd_enable'' = Some (GInt 1)"
  "init_globals [] [] ''httpd'' = Some (GStr (SLit (cstr ''/httpd'')))"
  "init_globals [] [] ''bbserver_enable'' = Some (GInt 0)"
  using init_globals_nth [of 0 "[]" "[]"] init_globals_nth [of 1 "[]" "[]"] init_globals_nth [of 2 "[]" "[]"]
    init_globals_nth [of 35 "[]" "[]"] init_globals_nth [of 36 "[]" "[]"] init_globals_nth [of 38 "[]" "[]"]
    init_globals_nth [of 39 "[]" "[]"] init_globals_nth [of 40 "[]" "[]"]
  by (simp_all add: setoptval_calls_def default_values_def)

abbreviation conf0 :: "conf_table \<times> gvars" where
  "conf0 \<equiv> (confoptions, init_globals [] [])"

lemma default_vars:
  assumes "n_conf s = conf0"
  shows "svar s ''group'' = Some (cstr ''noaaport'')" "svar s ''user'' = Some (cstr ''noaaport'')"
    "svar s ''home'' = Some (cstr ''/var/npemwin'')" "svar s ''startscript'' = Some (cstr ''/npemwind-start.tcl'')"
    "svar s ''httpd'' = Some (cstr ''/httpd'')" "ivar s ''httpd_enable'' = 1" "ivar s ''bbserver_enable'' = 0"
  using assms by (simp_all add: svar_def ivar_def default_lookups str_val_def strp_val_def int_val_def)

lemma example_steps:
  assumes "n_conf s = conf0"
  shows "n_configfile s = None \<Longrightarrow> do_configure start0 s = Next 0 s"
    "do_validate s = Next 0 s" "do_init_directories start0 s = Next 0 s" "do_startscript start0 s = Next 0 s"
    "n_creds s = cred0 \<Longrightarrow> \<exists>c. do_drop_privs start0 s = Next 0 (s\<lparr>n_creds := c\<rparr>)"
    "\<exists>l. init_server_list start0 s = Next 0 (s\<lparr>n_servers := l\<rparr>)"
proof -
  show "n_configfile s = None \<Longrightarrow> do_configure start0 s = Next 0 s"
    using assms configure_no_file [of "se_tcl start0" "[]" "[]" "[]"] by (simp add: do_configure_def)
  show "do_validate s = Next 0 s" using assms by (simp add: do_validate_def defaults_valid)
  show "do_init_directories start0 s = Next 0 s"
    using init_directories_ok [of "se_stat start0"] by (simp add: do_init_directories_def)
  show "do_startscript start0 s = Next 0 s"
    by (simp add: do_startscript_def exec_startscript_def tcl_eval_file_def default_vars [OF assms])
  have k: "kept_fields [44] False (cstr ''noaaport'') = [cstr ''noaaport'']"
    by (simp add: kept_fields_def cstr_def)
  have n: "cstr ''noaaport'' \<noteq> []" "0 \<notin> set (cstr ''noaaport'')" "cstr '','' = [44]" by (simp_all add: cstr_def)
  show "\<exists>c. do_drop_privs start0 s = Next 0 (s\<lparr>n_creds := c\<rparr>)" if "n_creds s = cred0"
    using that strsplit_create_eq [OF n(1,2), of "[44]" False] k n
    by (auto simp: do_drop_privs_def default_vars [OF assms] drop_privs_def valid_str_def change_privs_def change_groups_def
        change_group_def change_user_def get_group_gid_def get_user_uid_def cred0_def)
  have "token (cstr ''@@10.0.0.5'')" "token (cstr ''1300'')" "hd (cstr ''@@10.0.0.5'') \<noteq> 35"
    by (simp_all add: token_def cstr_def isspace_def)
  then obtain l where "get_server_list (Some (concat (map entry_line [(cstr ''@@10.0.0.5'', cstr ''1300'')]))) list_env0 tsv_init (n_servers s) = (0, l)"
    using server_list_loop_entries [of "[(cstr ''@@10.0.0.5'', cstr ''1300'')]" tsv_init 0
        "(n_servers s)\<lparr>server := [], es_current := 0, es_max := -1, refused_connections := 0\<rparr>" list_env0]
    by (auto simp: get_server_list_def tsv_init_def)
  then show "\<exists>l. init_server_list start0 s = Next 0 (s\<lparr>n_servers := l\<rparr>)"
    by (auto simp: init_server_list_def)
qed

definition process0 :: globals where
  "process0 = globals0 start0 ({SIGHUP}, {}) 50 cred0 None per0 es_list_init"

lemma example_start: "\<exists>s. main_init start0 process0 = Next 0 s \<and> n_sig s = sig_init \<and> n_f_debug s = 0 \<and> n_conf s = conf0"
proof -
  let ?s0 = "process0\<lparr>n_ignored := {}, n_blocked := signal_set\<rparr>"
  let ?s1 = "?s0\<lparr>n_option_F := 1\<rparr>"
  have c: "n_conf ?s1 = conf0" "n_configfile ?s1 = None" "n_creds ?s1 = cred0" by (simp_all add: process0_def globals0_def)
  obtain c1 where c1: "do_drop_privs start0 ?s1 = Next 0 (?s1\<lparr>n_creds := c1\<rparr>)" using example_steps(5) [OF c(1,3)] by blast
  let ?s2 = "?s1\<lparr>n_creds := c1\<rparr>"
  have c2: "n_conf ?s2 = conf0" using c by simp
  obtain l where l: "init_server_list start0 ?s2 = Next 0 (?s2\<lparr>n_servers := l\<rparr>)" using example_steps(6) [OF c2] by blast
  let ?s3 = "?s2\<lparr>n_servers := l\<rparr>"
  have c3: "n_conf ?s3 = conf0" using c by simp
  have b: "init_signals_block start0 process0 = Next 0 ?s0"
    "do_configure start0 ?s0 = Next 0 ?s0"
    "parse_args (se_debug_build start0) (se_opts start0) ?s0 = Next 0 ?s1"
    using c by (simp_all add: init_signals_block_def default_signals_def example_steps(1) process0_def globals0_def)
  have o: "n_option_C ?s1 = 0" "n_f_ndaemon ?s3 = 0" "n_option_F ?s3 = 1" by (simp_all add: process0_def globals0_def)
  have "n_pidfile process0 = None" "n_sig process0 = sig_init" "n_f_debug process0 = 0" by (simp_all add: process0_def globals0_def)
  with c c2 c3 o show ?thesis
    by (simp add: main_init_def Let_def b c1 l example_steps(2) [OF c(1)] example_steps(3,4) [OF c3]
        init_daemon_def set_log_levels_def init_signals_thread_def do_init_lock_def init_lock_def create_pidfile_def
        create_excl_def write_pid_def os_fine_def do_init_qfiles_def do_init_periodic_def default_vars
        spawn_httpd_server_def httpd_open_def valid_str_def spawn_npemwin_def create_npemwin_thread_def)
qed

theorem main_loop_initialised_witness:
  "\<exists>s. main_init start0 process0 = Next 0 s \<and> n_f_lock s = 1 \<and> n_pidfile s = Some (printf_d (n_pid s) @ [10])
     \<and> validate_configuration (n_conf s) = 0 \<and> SIGHUP \<notin> n_ignored s"
proof -
  obtain s where "main_init start0 process0 = Next 0 s" using example_start by blast
  with main_loop_initialised [OF this] show ?thesis by (auto simp: signal_set_def)
qed

definition sigterm_round :: round where
  "sigterm_round = \<lparr>rd_signals = [Sigwait (Some SIGTERM)], rd_thread_quits = False, rd_now = 1005, rd_minute = 3,
     rd_wait_pid = 0, rd_fork_pid = -1, rd_later = 1005\<rparr>"

theorem exit_leaves_nothing_witness:
  "\<exists>s st t. main start0 [sigterm_round] process0 = Exited 0 s \<and> cleanup start0 False s = Ended (st, t)
     \<and> n_pidfile t = None \<and> mset (n_popened t) = mset (n_pclosed t)"
proof -
  obtain s0 where s0: "main_init start0 process0 = Next 0 s0" "n_sig s0 = sig_init" "n_conf s0 = conf0" using example_start by blast
  obtain s where s: "main start0 [sigterm_round] process0 = Exited 0 s" "n_conf s = conf0"
    using s0 by (simp add: main_def main_loop.simps loop_def sigterm_round_def sig_init_def get_quit_flag_def set_quit_flag_def get_hup_flag_def)
  have "good_env start0" by (simp add: good_env_def os_fine_def)
  moreover have "stopscript_own s" using s(2) by (simp add: stopscript_own_def default_lookups)
  ultimately show ?thesis
    using exit_leaves_nothing [of start0 50 "[sigterm_round]" "({SIGHUP}, {})" cred0 None per0 es_list_init 0 s] s(1)
    by (auto simp: sigterm_round_def process0_def)
qed

section \<open>The hangup signal\<close>

definition handled :: "sig_event \<Rightarrow> bool" where
  "handled ev \<longleftrightarrow> ev \<noteq> AskHup \<and> ev \<notin> {Sigwait (Some SIGINT), Sigwait (Some SIGTERM), Sigwait (Some SIGQUIT), Sigwait (Some SIGABRT)}"

lemma hup_events_kept:
  "AskHup \<notin> set es \<Longrightarrow> signal_events d es g = Inr (a, g') \<Longrightarrow> f_hup g = 1 \<Longrightarrow> f_hup g' = 1"
proof (induction es arbitrary: g a)
  case (Cons ev es)
  then obtain a1 g1 a2 where e: "signal_event d ev g = Inr (a1, g1)" "signal_events d es g1 = Inr (a2, g')"
    by (auto split: sum.splits)
  with Cons.prems signal_event_flags(2) [OF e(1)] have "f_hup g1 = 1" by auto
  with Cons.IH [OF _ e(2)] Cons.prems(1) show ?case by simp
qed simp

lemma quit_kept:
  "handled ev \<Longrightarrow> f_quit g = 0 \<Longrightarrow> \<exists>a g'. signal_event d ev g = Inr (a, g') \<and> f_quit g' = 0"
  by (cases "(d, ev, g)" rule: signal_event.cases; cases "the (case ev of Sigwait x \<Rightarrow> x | _ \<Rightarrow> None)")
    (auto simp: handled_def set_hup_flag_def set_alarm_flag_def get_alarm_flag_def get_quit_flag_def)

lemma hup_set:
  assumes "list_all handled pre" "AskHup \<notin> set post" "f_quit g = 0"
    and "signal_events d (pre @ Sigwait (Some SIGHUP) # post) g = Inr (a, g')"
  shows "f_hup g' = 1"
  using assms
proof (induction pre arbitrary: g a)
  case Nil
  then obtain a' where "signal_events d post (set_hup_flag g) = Inr (a', g')"
    by (auto simp: get_quit_flag_def split: sum.splits)
  with Nil.prems(2) show ?case by (auto intro: hup_events_kept simp: set_hup_flag_def)
next
  case (Cons ev pre)
  then obtain a1 g1 where "signal_event d ev g = Inr (a1, g1)" "f_quit g1 = 0" using quit_kept [of ev g d] by auto
  with Cons show ?case by (auto split: sum.splits prod.splits)
qed

lemma periodic_reload: "greload_servers_list_flag (periodic qp rp now mn hup wp fp lt p) \<longleftrightarrow> hup \<or> greload_servers_list_flag p"
  by (auto simp: periodic_def Let_def split: prod.splits)

text \<open>
  C30. A hangup signal reaches the thread of the server: in the round of the main loop in which it comes,
  whatever other signals come with it (unless the process was told to quit before), the flag to read the list of
  servers again is set, and the flag of the signal is reset. The turn of the server loop that sees this
  flag frees the list whose entry it goes on to use, or the program exits.
\<close>

theorem hangup_reaches_server:
  assumes "loop r s = Next st t" "rd_signals r = pre @ Sigwait (Some SIGHUP) # post"
    and "list_all handled pre" "AskHup \<notin> set post" "f_quit (n_sig s) = 0"
  shows "greload_servers_list_flag (n_per t) \<and> f_hup (n_sig t) = 0
    \<and> (te_reload te = greload_servers_list_flag (n_per t) \<longrightarrow> npemwin_turn ops cf te es xor_id c np \<in> {Exits, Uses_freed, Stuck})"
proof -
  obtain a g where g: "signal_events (n_f_debug s \<noteq> 0) (rd_signals r) (n_sig s) = Inr (a, g)"
    using assms(1) by (auto simp: loop_def split: sum.splits)
  have "f_hup g = 1" using hup_set [OF assms(3-5)] g assms(2) by simp
  then have "greload_servers_list_flag (n_per t)" "f_hup (n_sig t) = 0"
    using assms(1) g by (auto simp: loop_def get_hup_flag_def periodic_reload set_quit_flag_def)
  then show ?thesis by (auto simp: npemwin_turn_def split: option.splits prod.splits)
qed

definition sighup_round :: round where
  "sighup_round = sigterm_round\<lparr>rd_signals := [Sigwait (Some SIGPIPE), Sigwait (Some SIGHUP)]\<rparr>"

theorem hangup_reaches_server_witness:
  "\<exists>t. loop sighup_round process0 = Next 0 t \<and> greload_servers_list_flag (n_per t)"
proof -
  obtain t where t: "loop sighup_round process0 = Next 0 t"
    by (simp add: loop_def sighup_round_def sigterm_round_def process0_def globals0_def sig_init_def get_quit_flag_def
        set_hup_flag_def get_hup_flag_def)
  have "f_quit (n_sig process0) = 0" by (simp add: process0_def globals0_def sig_init_def)
  then have "greload_servers_list_flag (n_per t)"
    by (intro conjunct1 [OF hangup_reaches_server [OF t, of "[Sigwait (Some SIGPIPE)]" "[]"]]) (simp_all add: sighup_round_def handled_def)
  with t show ?thesis by blast
qed

end
