(* ===== verification/Sockets.thy ===== *)
theory Sockets
  imports Util "HOL-Library.Multiset"
begin

text \<open>
  \<open>src/libconnth/tcpsock.c\<close>, \<open>connect_timed.c\<close> and \<open>sock.c\<close>: opening listening sockets, accepting
  and opening connections, over TCP and local sockets. The answers of the kernel are arguments.
  The result of a function has the descriptors it has obtained from the kernel and those it has
  closed, in order. The locale \<open>descriptor_user\<close> states what such a function promises.
\<close>

section \<open>Connecting with a time limit\<close>

datatype errno = EINPROGRESS | EISCONN | ETIMEDOUT | EINVAL | EOTHER nat

text \<open>
  The answers, with \<open>None\<close> for no error: reading, setting and restoring the flags, the two calls of
  \<open>connect\<close>; the value of \<open>select\<close>, and the error if it is negative; whether the descriptor is in
  one of the sets.
\<close>

record ct_env =
  ct_getfl :: "errno option"
  ct_setfl :: "errno option"
  ct_connect1 :: "errno option"
  ct_select :: int
  ct_select_errno :: errno
  ct_isset :: bool
  ct_connect2 :: "errno option"
  ct_restore :: "errno option"

text \<open>The status, \<open>errno\<close> if it is set, and whether the descriptor is in non-blocking mode; \<open>None\<close> is the failed assertion.\<close>

definition connect_timed :: "int \<Rightarrow> ct_env \<Rightarrow> bool \<Rightarrow> (int \<times> errno option \<times> bool) option" where
  "connect_timed nsecs e nonblock =
     (let finish = (if ct_restore e = None then (0, None, nonblock) else (-1, ct_restore e, True)) in
      if nsecs < 0 then None
      else if ct_getfl e \<noteq> None then Some (-1, ct_getfl e, nonblock)
      else if ct_setfl e \<noteq> None then Some (-1, ct_setfl e, nonblock)
      else case ct_connect1 e of
          None \<Rightarrow> Some finish
        | Some err \<Rightarrow>
            if err \<noteq> EINPROGRESS then Some (-1, Some err, True)
            else if ct_select e \<le> 0 then Some (-1, Some (if ct_select e = 0 then ETIMEDOUT else ct_select_errno e), True)
            else case (if ct_isset e then ct_connect2 e else None) of
                Some err2 \<Rightarrow> if err2 \<noteq> EISCONN then Some (-1, Some EINPROGRESS, True) else Some finish
              | None \<Rightarrow> Some finish)"

section \<open>Sockets over TCP\<close>

text \<open>What the calls for one address of \<open>getaddrinfo\<close> answer; \<open>sk_socket\<close> is the descriptor, -1 for an error.\<close>

record sk_env =
  sk_socket :: int
  sk_reuse :: bool
  sk_sndbuf :: bool
  sk_rcvbuf :: bool
  sk_nonblock :: bool
  sk_bind :: bool
  sk_listen :: bool
  sk_connect :: bool
  sk_timed :: ct_env

definition andthen :: "bool \<Rightarrow> int \<Rightarrow> int" where
  "andthen ok status = (if status = 0 then (if ok then 0 else -1) else status)"

text \<open>
  The status after the calls for one address. The variable \<open>status\<close> is set to 0 before the loop over
  the addresses and not in it.
\<close>

definition server_addr_status :: "int \<Rightarrow> int \<Rightarrow> int \<Rightarrow> sk_env \<Rightarrow> int" where
  "server_addr_status so_sndbuf so_rcvbuf status a =
     (let status = (if sk_socket a = -1 then -1 else status);
          status = andthen (sk_reuse a) status;
          status = andthen (so_sndbuf > 0 \<longrightarrow> sk_sndbuf a) status;
          status = andthen (so_rcvbuf > 0 \<longrightarrow> sk_rcvbuf a) status;
          status = andthen (sk_nonblock a) status;
          status = andthen (sk_bind a) status
      in andthen (sk_listen a) status)"

text \<open>The descriptor, those opened and those closed.\<close>

fun server_addrs :: "int \<Rightarrow> int \<Rightarrow> int \<Rightarrow> sk_env list \<Rightarrow> int \<times> int list \<times> int list" where
  "server_addrs so_sndbuf so_rcvbuf status [] = (-1, [], [])"
| "server_addrs so_sndbuf so_rcvbuf status (a # as) =
     (let s = sk_socket a; status = server_addr_status so_sndbuf so_rcvbuf status a
      in if status = 0 then (s, [s], [])
         else case server_addrs so_sndbuf so_rcvbuf status as of
             (r, op, cl) \<Rightarrow> if s \<noteq> -1 then (r, s # op, s # cl) else (r, op, cl))"

text \<open>
  What is asked of \<open>getaddrinfo\<close>: the own name for a null pointer, any address of version 4
  for \<open>*\<close>, any address for \<open>**\<close>. \<open>hostname\<close> is what \<open>gethostname\<close> gives.
\<close>

datatype gai_query = Gai "byte list option" bool

definition server_query :: "byte list option \<Rightarrow> byte list option \<Rightarrow> gai_query option" where
  "server_query hostname host =
     (case host of
        None \<Rightarrow> map_option (\<lambda>n. Gai (Some n) False) hostname
      | Some h \<Rightarrow> Some (if h = [42] then Gai None True else if h = [42, 42] then Gai None False else Gai (Some h) False))"

text \<open>The code of \<open>getaddrinfo\<close>, the descriptor, those opened and those closed.\<close>

definition tcp_server_open_conn ::
  "byte list option \<Rightarrow> (gai_query \<Rightarrow> int \<times> sk_env list) \<Rightarrow> byte list option \<Rightarrow> int \<Rightarrow> int \<Rightarrow> int \<times> int \<times> int list \<times> int list" where
  "tcp_server_open_conn hostname getaddrinfo host so_sndbuf so_rcvbuf =
     (case server_query hostname host of
        None \<Rightarrow> (0, -1, [], [])
      | Some q \<Rightarrow> (case getaddrinfo q of
            (code, as) \<Rightarrow> if code \<noteq> 0 then (code, -1, [], [])
                         else case server_addrs so_sndbuf so_rcvbuf 0 as of fds \<Rightarrow> (0, fds)))"

text \<open>
  Accepting: \<open>Inl True\<close> is an error that means there is nobody to accept. \<open>ok\<close> are the calls that
  set the modes.
\<close>

definition tcp_server_accept_conn2 ::
  "bool + int \<Rightarrow> bool \<Rightarrow> bool \<Rightarrow> bool \<Rightarrow> bool \<Rightarrow> int \<times> int list \<times> int list" where
  "tcp_server_accept_conn2 acc nonblock cloexec nb_ok ce_ok =
     (case acc of
        Inl interrupted \<Rightarrow> (if interrupted then -2 else -1, [], [])
      | Inr cfd \<Rightarrow>
          let status = (if nonblock then andthen nb_ok 0 else 0);
              status = (if cloexec then andthen ce_ok status else status)
          in if status \<noteq> 0 then (-1, [cfd], [cfd]) else (cfd, [cfd], []))"

text \<open>Connecting to one of the addresses; here too the status stays from one address to the next.\<close>

definition client_addr_status :: "int \<Rightarrow> int \<Rightarrow> int \<Rightarrow> int \<Rightarrow> sk_env \<Rightarrow> int" where
  "client_addr_status nsecs so_sndbuf so_rcvbuf status a =
     (let status = (if sk_socket a = -1 then -1 else status);
          status = andthen (so_sndbuf > 0 \<longrightarrow> sk_sndbuf a) status;
          status = andthen (so_rcvbuf > 0 \<longrightarrow> sk_rcvbuf a) status
      in andthen (if nsecs < 0 then sk_connect a
                  else case connect_timed nsecs (sk_timed a) False of Some (st, _, _) \<Rightarrow> st = 0 | None \<Rightarrow> False) status)"

fun client_addrs :: "int \<Rightarrow> int \<Rightarrow> int \<Rightarrow> int \<Rightarrow> sk_env list \<Rightarrow> int \<times> int list \<times> int list" where
  "client_addrs nsecs so_sndbuf so_rcvbuf status [] = (-1, [], [])"
| "client_addrs nsecs so_sndbuf so_rcvbuf status (a # as) =
     (let cfd = sk_socket a; status = client_addr_status nsecs so_sndbuf so_rcvbuf status a
      in if status = 0 then (cfd, [cfd], [])
         else case client_addrs nsecs so_sndbuf so_rcvbuf status as of
             (r, op, cl) \<Rightarrow> if cfd \<noteq> -1 then (r, cfd # op, cfd # cl) else (r, op, cl))"

definition tcp_client_open_conn_timed ::
  "int \<times> sk_env list \<Rightarrow> int \<Rightarrow> int \<Rightarrow> int \<Rightarrow> int \<times> int \<times> int list \<times> int list" where
  "tcp_client_open_conn_timed gai nsecs so_sndbuf so_rcvbuf =
     (case gai of
        (code, as) \<Rightarrow> if code \<noteq> 0 then (code, -1, [], [])
                     else case client_addrs nsecs so_sndbuf so_rcvbuf 0 as of fds \<Rightarrow> (0, fds))"

definition tcp_client_open_conn :: "int \<times> sk_env list \<Rightarrow> int \<Rightarrow> int \<Rightarrow> int \<times> int \<times> int list \<times> int list" where
  "tcp_client_open_conn gai so_sndbuf so_rcvbuf = tcp_client_open_conn_timed gai (-1) so_sndbuf so_rcvbuf"

section \<open>Local sockets\<close>

text \<open>The socket files: path name to grp and mode.\<close>

type_synonym sock_files = "byte list \<rightharpoonup> int \<times> nat"

text \<open>\<open>getgrnam\<close>, \<open>chown\<close> and \<open>chmod\<close> answer; a file that is not there makes them fail.\<close>

record own_env =
  own_group :: "byte list \<Rightarrow> int option"
  own_chown :: bool
  own_chmod :: bool

definition chgrpmode :: "own_env \<Rightarrow> byte list \<Rightarrow> byte list option \<Rightarrow> nat \<Rightarrow> sock_files \<Rightarrow> int \<times> sock_files" where
  "chgrpmode e name grp mode m =
     (let change = (\<lambda>m. case m name of
            Some (gid, _) \<Rightarrow> if own_chmod e then (0, m(name \<mapsto> (gid, mode))) else (-1, m)
          | None \<Rightarrow> (-1, m))
      in case grp of
          None \<Rightarrow> change m
        | Some g \<Rightarrow> (case own_group e g of
              None \<Rightarrow> (-1, m)
            | Some gid \<Rightarrow> (case m name of
                  Some (_, md) \<Rightarrow> if own_chown e then change (m(name \<mapsto> (gid, md))) else (-1, m)
                | None \<Rightarrow> (-1, m))))"

definition set_socket_grm :: "own_env \<Rightarrow> byte list \<Rightarrow> byte list option \<Rightarrow> sock_files \<Rightarrow> int \<times> sock_files" where
  "set_socket_grm e name grp m = chgrpmode e name grp 432 m"

text \<open>
  \<open>un_socket\<close> is the descriptor or -1; \<open>un_unlink\<close>, \<open>un_bind\<close>, \<open>un_listen\<close>, \<open>un_connect\<close>: the call
  succeeds; \<open>un_new\<close> are the group and the mode a new file gets. The kernel refuses to bind a path
  that exists.
\<close>

record un_env =
  un_socket :: int
  un_unlink :: bool
  un_bind :: bool
  un_listen :: bool
  un_connect :: bool
  un_cloexec :: bool
  un_new :: "int \<times> nat"
  un_own :: own_env

definition SUN_PATH_SIZE :: nat where "SUN_PATH_SIZE = 108"

definition un_remove :: "un_env \<Rightarrow> byte list \<Rightarrow> sock_files \<Rightarrow> sock_files" where
  "un_remove e name m = (if un_unlink e then m(name := None) else m)"

definition un_bind_path :: "un_env \<Rightarrow> byte list \<Rightarrow> sock_files \<Rightarrow> int \<times> sock_files" where
  "un_bind_path e name m = (if un_bind e \<and> m name = None then (0, m(name \<mapsto> un_new e)) else (-1, m))"

text \<open>The descriptor or the error, the descriptors opened and closed, and the socket files.\<close>

definition server_open_conn ::
  "un_env \<Rightarrow> byte list \<Rightarrow> byte list option \<Rightarrow> sock_files \<Rightarrow> (int \<times> int list \<times> int list) \<times> sock_files" where
  "server_open_conn e name grp m =
     (let fd = un_socket e in
      if fd = -1 then ((-1, [], []), m)
      else let m = un_remove e name m in
        if length name \<ge> SUN_PATH_SIZE then ((-1, [fd], [fd]), m)
        else case un_bind_path e name m of
            (status, m) \<Rightarrow>
              let status = andthen (un_listen e) status;
                  (status, m) = (if status = 0 then
                      (case set_socket_grm (un_own e) name grp m of (st, m) \<Rightarrow> (if st \<noteq> 0 then -2 else status, m))
                    else (status, m))
              in if status \<noteq> 0 then ((status, [fd], [fd]), m) else ((fd, [fd], []), m))"

text \<open>
  \<open>acc\<close> is what \<open>accept\<close> gives: the descriptor and the path name of the client. The id of the client
  is in the last five characters; \<open>None\<close> if there are fewer, since the code then starts before the
  path, or the assertion that the path has the right form fails.
\<close>

definition server_accept_conn ::
  "un_env \<Rightarrow> (int \<times> byte list) option \<Rightarrow> bool \<Rightarrow> sock_files \<Rightarrow> ((int \<times> int list \<times> int list) \<times> int option \<times> sock_files) option" where
  "server_accept_conn e acc cloexec m =
     (case acc of
        None \<Rightarrow> Some ((-1, [], []), None, m)
      | Some (nfd, sun_path) \<Rightarrow>
          if length sun_path < 5 then None
          else case strtol (drop (length sun_path - 5) sun_path) of
              None \<Rightarrow> None
            | Some (pid, rest, _) \<Rightarrow>
                if rest \<noteq> [] then None
                else let m = un_remove e sun_path m in
                  if cloexec \<and> \<not> un_cloexec e then Some ((-1, [nfd], [nfd]), Some pid, m)
                  else Some ((nfd, [nfd], []), Some pid, m))"

text \<open>\<open>snprintf\<close> of \<open>%s%05d\<close> into the path of the client.\<close>

definition pad_zero :: "nat \<Rightarrow> byte list \<Rightarrow> byte list" where
  "pad_zero w s = replicate (w - length s) 48 @ s"

definition client_path :: "byte list \<Rightarrow> nat \<Rightarrow> byte list" where
  "client_path basename pid = take (SUN_PATH_SIZE - 1) (basename @ pad_zero 5 (dec pid))"

definition client_open_conn ::
  "un_env \<Rightarrow> byte list \<Rightarrow> nat \<Rightarrow> sock_files \<Rightarrow> (int \<times> int list \<times> int list) \<times> sock_files" where
  "client_open_conn e basename pid m =
     (let fd = un_socket e; path = client_path basename pid in
      if fd = -1 then ((-1, [], []), m)
      else case un_bind_path e path (un_remove e path m) of
          (status, m) \<Rightarrow>
            let (status, m) = (if status = 0 then chgrpmode (un_own e) path None 384 m else (status, m))
            in if status \<noteq> 0 then ((-1, [fd], [fd]), un_remove e path m)
               else if \<not> un_connect e then ((-2, [fd], [fd]), un_remove e path m)
               else ((fd, [fd], []), m))"

section \<open>The other end of a connection\<close>

text \<open>
  An address of the Internet is four bytes, and its text is the key of the client in the table of
  connections. \<open>peer\<close> is the answer of \<open>getpeername\<close>, \<open>host\<close> of the resolver, \<open>mem_ok\<close> of \<open>malloc\<close>;
  \<open>get_peer_ip\<close> does not test the last one (\<open>None\<close>: it copies to the null pointer).
\<close>

type_synonym in_addr = "byte \<times> byte \<times> byte \<times> byte"

definition inet_ntoa :: "in_addr \<Rightarrow> byte list" where
  "inet_ntoa = (\<lambda>(a, b, c, d). dec (unat a) @ 46 # dec (unat b) @ 46 # dec (unat c) @ 46 # dec (unat d))"

definition get_peer_ip :: "in_addr option \<Rightarrow> bool \<Rightarrow> byte list option option" where
  "get_peer_ip peer mem_ok =
     (case peer of None \<Rightarrow> Some None | Some addr \<Rightarrow> if mem_ok then Some (Some (inet_ntoa addr)) else None)"

definition get_peer_name :: "in_addr option \<Rightarrow> (in_addr \<Rightarrow> byte list option) \<Rightarrow> bool \<Rightarrow> byte list option" where
  "get_peer_name peer host mem_ok =
     (case peer of
        None \<Rightarrow> None
      | Some addr \<Rightarrow> (case host addr of None \<Rightarrow> None | Some h_name \<Rightarrow> if mem_ok then Some (cstring h_name) else None))"

text \<open>The text determines the address, so that two clients share a key only if they have the same address.\<close>

lemma dec_dot_eq: "dec m @ 46 # xs = dec n @ 46 # ys \<longleftrightarrow> m = n \<and> xs = ys"
proof
  have d: "takeWhile isdigit (dec k @ 46 # zs) = dec k" for k zs
    using dec_digits [of k] by (subst takeWhile_append2) (auto simp: isdigit_def)
  assume eq: "dec m @ 46 # xs = dec n @ 46 # ys"
  then have "dec m = dec n" using d by metis
  then have "m = n" using digits_val_dec by metis
  with eq show "m = n \<and> xs = ys" by simp
qed simp

lemma dec_inj: "dec m = dec n \<longleftrightarrow> m = n"
  using digits_val_dec by metis

lemma inet_ntoa_inj: "inet_ntoa p = inet_ntoa q \<longleftrightarrow> p = q"
  by (cases p; cases q) (simp add: inet_ntoa_def dec_dot_eq dec_inj word_unat_eq_iff)

lemma length_inet_ntoa: "length (inet_ntoa p) \<le> 15"
proof -
  have "length (dec (unat x)) \<le> 3" for x :: byte
    using length_dec_le [of "unat x" 3] unsigned_less [of x, where ?'a = nat] by simp
  note l = this
  obtain a b c d where "p = (a, b, c, d)" using prod_cases4 by blast
  with l [of a] l [of b] l [of c] l [of d] show ?thesis by (simp add: inet_ntoa_def)
qed

text \<open>A valid C string, of the size of a dotted address, that is the same for two calls only if the peers are the same.\<close>

lemma get_peer_ip_key:
  assumes "get_peer_ip p m = Some (Some ip)" "get_peer_ip q m' = Some (Some ip')"
  shows "ip = ip' \<longleftrightarrow> p = q" "0 \<notin> set ip" "length ip \<le> 15"
proof -
  from assms obtain x y where xy: "p = Some x" "q = Some y" "ip = inet_ntoa x" "ip' = inet_ntoa y"
    by (auto simp: get_peer_ip_def split: option.splits if_splits)
  then show "ip = ip' \<longleftrightarrow> p = q" "length ip \<le> 15" by (simp_all add: inet_ntoa_inj length_inet_ntoa)
  show "0 \<notin> set ip" using xy(3) by (simp add: inet_ntoa_def split: prod.splits)
qed

section \<open>Descriptors\<close>

text \<open>Every descriptor obtained is closed or returned, and returned only once.\<close>

fun accounted :: "int \<times> int list \<times> int list \<Rightarrow> bool" where
  "accounted (r, op, cl) = (mset op = mset cl + (if r \<ge> 0 then {#r#} else {#}))"

text \<open>
  The contract of a function that opens a connection: for valid answers of the kernel the
  descriptors are accounted for. Then a sequence of calls, with whatever failures, leaves open
  exactly the descriptors that the calls have returned.
\<close>

locale descriptor_user =
  fixes call :: "'e \<Rightarrow> int \<times> int list \<times> int list"
    and valid :: "'e \<Rightarrow> bool"
  assumes call_accounted: "valid e \<Longrightarrow> accounted (call e)"
begin

lemma calls_accounted:
  assumes "list_all valid es"
  shows "mset (concat (map (\<lambda>e. fst (snd (call e))) es)) =
           mset (concat (map (\<lambda>e. snd (snd (call e))) es))
           + mset (filter (\<lambda>r. r \<ge> 0) (map (\<lambda>e. fst (call e)) es))"
  using assms
proof (induction es)
  case (Cons e es)
  obtain r op cl where c: "call e = (r, op, cl)" by (cases "call e") auto
  with call_accounted [of e] Cons show ?case by (auto simp: ac_simps)
qed simp

end

lemma andthen_simps [simp]: "andthen ok 0 = (if ok then 0 else -1)" "status \<noteq> 0 \<Longrightarrow> andthen ok status = status"
  by (simp_all add: andthen_def)

lemma andthen_zero: "andthen ok status = 0 \<longleftrightarrow> status = 0 \<and> ok"
  by (simp add: andthen_def)

lemma addr_status_zero:
  "server_addr_status sb rb status a = 0 \<Longrightarrow> status = 0 \<and> sk_socket a \<noteq> -1"
  "client_addr_status n sb rb status a = 0 \<Longrightarrow> status = 0 \<and> sk_socket a \<noteq> -1"
  by (auto simp: server_addr_status_def client_addr_status_def Let_def andthen_zero split: if_splits)

text \<open>Once the status is an error, every further address is opened and closed in vain.\<close>

lemma server_addrs_stuck: "status \<noteq> 0 \<Longrightarrow> fst (server_addrs sb rb status as) = -1"
  by (induction sb rb status as rule: server_addrs.induct)
     (auto simp: Let_def split: prod.splits dest: addr_status_zero)

lemma client_addrs_stuck: "status \<noteq> 0 \<Longrightarrow> fst (client_addrs n sb rb status as) = -1"
  by (induction n sb rb status as rule: client_addrs.induct)
     (auto simp: Let_def split: prod.splits dest: addr_status_zero)

abbreviation valid_sockets :: "sk_env list \<Rightarrow> bool" where
  "valid_sockets as \<equiv> list_all (\<lambda>a. sk_socket a \<ge> -1) as"

lemma server_addrs_accounted: "valid_sockets as \<Longrightarrow> accounted (server_addrs sb rb status as)"
  by (induction sb rb status as rule: server_addrs.induct)
     (auto simp: Let_def split: prod.splits dest: addr_status_zero)

lemma client_addrs_accounted: "valid_sockets as \<Longrightarrow> accounted (client_addrs n sb rb status as)"
  by (induction n sb rb status as rule: client_addrs.induct)
     (auto simp: Let_def split: prod.splits dest: addr_status_zero)

lemma tcp_client_accounted:
  "valid_sockets (snd gai) \<Longrightarrow> accounted (snd (tcp_client_open_conn_timed gai n sb rb))"
  using client_addrs_accounted [of "snd gai" n sb rb 0]
  by (auto simp: tcp_client_open_conn_timed_def split: prod.splits)

lemma client_addrs_fd: "valid_sockets as \<Longrightarrow> fst (client_addrs n sb rb status as) \<ge> -1"
  by (induction n sb rb status as rule: client_addrs.induct) (auto simp: Let_def split: prod.splits)

lemma tcp_client_fd: "valid_sockets (snd gai) \<Longrightarrow> fst (snd (tcp_client_open_conn_timed gai n sb rb)) \<ge> -1"
  using client_addrs_fd [of "snd gai" n sb rb 0] by (auto simp: tcp_client_open_conn_timed_def split: prod.splits)

lemma tcp_server_accounted:
  "(\<And>q. valid_sockets (snd (gai q))) \<Longrightarrow> accounted (snd (tcp_server_open_conn hn gai host sb rb))"
  using server_addrs_accounted [of _ sb rb 0]
  by (auto simp: tcp_server_open_conn_def split: prod.splits option.splits) (metis snd_conv)

lemma accept_accounted:
  "(\<And>cfd. acc = Inr cfd \<Longrightarrow> cfd \<ge> 0) \<Longrightarrow> accounted (tcp_server_accept_conn2 acc nb ce nbok ceok)"
  by (auto simp: tcp_server_accept_conn2_def Let_def andthen_def split: sum.splits)

interpretation tcp_client: descriptor_user
  "\<lambda>(gai, n, sb, rb). snd (tcp_client_open_conn_timed gai n sb rb)" "\<lambda>(gai, n, sb, rb). valid_sockets (snd gai)"
  by unfold_locales (use tcp_client_accounted in auto)

interpretation tcp_accept: descriptor_user
  "\<lambda>(acc, nb, ce, nbok, ceok). tcp_server_accept_conn2 acc nb ce nbok ceok"
  "\<lambda>(acc, nb, ce, nbok, ceok). case acc of Inl i \<Rightarrow> True | Inr cfd \<Rightarrow> cfd \<ge> 0"
  by unfold_locales (auto intro!: accept_accounted simp del: accounted.simps)

text \<open>
  Any number of attempts to connect to servers, with a time limit or without, failing in any
  way: the descriptors obtained from the kernel are those that were closed and those that the
  attempts returned. None is lost and none that is returned has been closed.
\<close>

theorem attempts_accounted:
  assumes "list_all (\<lambda>(gai, n, sb, rb). valid_sockets (snd gai)) es"
  defines "rs \<equiv> map (\<lambda>(gai, n, sb, rb). snd (tcp_client_open_conn_timed gai n sb rb)) es"
  shows "mset (concat (map (fst \<circ> snd) rs)) =
           mset (concat (map (snd \<circ> snd) rs)) + mset (filter (\<lambda>r. r \<ge> 0) (map fst rs))"
  using tcp_client.calls_accounted [OF assms(1)] by (simp add: rs_def comp_def split_def)

definition ct_ok :: ct_env where
  "ct_ok = \<lparr>ct_getfl = None, ct_setfl = None, ct_connect1 = Some EINPROGRESS, ct_select = 1,
     ct_select_errno = EINVAL, ct_isset = True, ct_connect2 = Some EISCONN, ct_restore = None\<rparr>"

definition sk_ok :: sk_env where
  "sk_ok = \<lparr>sk_socket = 7, sk_reuse = True, sk_sndbuf = True, sk_rcvbuf = True, sk_nonblock = True,
     sk_bind = True, sk_listen = True, sk_connect = True, sk_timed = ct_ok\<rparr>"

definition attempts0 :: "((int \<times> sk_env list) \<times> int \<times> int \<times> int) list" where
  "attempts0 = [((0, [sk_ok\<lparr>sk_socket := 5, sk_timed := ct_ok\<lparr>ct_select := 0\<rparr>\<rparr>, sk_ok\<lparr>sk_socket := 6\<rparr>]), 20, -1, -1),
     ((8, []), 20, -1, -1), ((0, [sk_ok]), 20, -1, -1)]"

theorem attempts_accounted_witness:
  "map (\<lambda>(gai, n, sb, rb). snd (tcp_client_open_conn_timed gai n sb rb)) attempts0 =
     [(-1, [5, 6], [5, 6]), (-1, [], []), (7, [7], [])]
   \<and> mset [5, 6, 7] = mset [5, 6] + mset (filter (\<lambda>r. r \<ge> 0) [-1, -1, 7 :: int])"
proof -
  have m: "map (\<lambda>(gai, n, sb, rb). snd (tcp_client_open_conn_timed gai n sb rb)) attempts0 =
     [(-1, [5, 6], [5, 6]), (-1, [], []), (7, [7], [])]"
    by (simp add: attempts0_def tcp_client_open_conn_timed_def sk_ok_def ct_ok_def Let_def
        client_addr_status_def connect_timed_def)
  have "list_all (\<lambda>(gai, n, sb, rb). valid_sockets (snd gai)) attempts0"
    by (simp add: attempts0_def sk_ok_def)
  from attempts_accounted [OF this] m show ?thesis by simp
qed

text \<open>
  The variable \<open>status\<close> is not reset in the loops over the addresses, so only the first one has a
  chance: with more addresses the result is that of the first.
\<close>

lemma only_first_address:
  "fst (snd (tcp_client_open_conn_timed (0, a # as) n sb rb)) = fst (snd (tcp_client_open_conn_timed (0, [a]) n sb rb))"
  "fst (server_addrs sb rb 0 (a # as)) = fst (server_addrs sb rb 0 [a])"
  using client_addrs_stuck [of "client_addr_status n sb rb 0 a" n sb rb as]
    server_addrs_stuck [of "server_addr_status sb rb 0 a" sb rb as]
  by (auto simp: tcp_client_open_conn_timed_def Let_def split: prod.splits)

text \<open>A connection within the time limit is established, and the descriptor is in its old mode again.\<close>

lemma connect_timed_success:
  assumes "connect_timed nsecs e nonblock = Some (0, err, nb)"
  shows "nb = nonblock" "err = None"
    "ct_connect1 e = None \<or> ct_connect1 e = Some EINPROGRESS \<and> ct_select e > 0
       \<and> (ct_isset e \<longrightarrow> ct_connect2 e \<in> {None, Some EISCONN})"
  using assms by (auto simp: connect_timed_def Let_def split: if_splits option.splits)

lemma connect_timed_total: "connect_timed nsecs e nonblock = None \<longleftrightarrow> nsecs < 0"
  by (auto simp: connect_timed_def Let_def split: option.splits)

section \<open>Local clients\<close>

lemma chgrpmode_keeps: "chgrpmode e name grp mode m = (st, m') \<Longrightarrow> m'(name := v) = m(name := v)"
  by (auto simp: chgrpmode_def Let_def split: option.splits if_splits prod.splits)

lemma chgrpmode_ok:
  assumes "chgrpmode e name grp mode m = (0, m')"
  shows "\<exists>gid0 md. m name = Some (gid0, md)
    \<and> m' = m(name \<mapsto> (case grp of None \<Rightarrow> gid0 | Some g \<Rightarrow> the (own_group e g), mode))"
  using assms by (auto simp: chgrpmode_def Let_def fun_eq_iff split: option.splits if_splits prod.splits)

lemma un_server_accounted: "un_socket e \<ge> -1 \<Longrightarrow> accounted (fst (server_open_conn e name grp m))"
  by (auto simp: server_open_conn_def Let_def un_bind_path_def andthen_def split: prod.splits if_splits)

lemma un_client_accounted: "un_socket e \<ge> -1 \<Longrightarrow> accounted (fst (client_open_conn e b pid m))"
  by (auto simp: client_open_conn_def Let_def un_bind_path_def split: prod.splits if_splits)

interpretation local_server: descriptor_user
  "\<lambda>(e, name, grp, m). fst (server_open_conn e name grp m)" "\<lambda>(e, name, grp, m). un_socket e \<ge> -1"
  by unfold_locales (use un_server_accounted in auto)

interpretation local_client: descriptor_user
  "\<lambda>(e, b, pid, m). fst (client_open_conn e b pid m)" "\<lambda>(e, b, pid, m). un_socket e \<ge> -1"
  by unfold_locales (use un_client_accounted in auto)

text \<open>A listening local socket has the mode and the group it should have.\<close>

lemma server_open_conn_mode:
  assumes "server_open_conn e name grp m = ((fd, op, cl), m')" "0 \<le> fd" "un_socket e \<ge> -1"
  shows "fd = un_socket e" "length name < SUN_PATH_SIZE"
    "\<exists>gid. m' name = Some (gid, 432) \<and> (\<forall>g. grp = Some g \<longrightarrow> gid = the (own_group (un_own e) g))"
  using assms
  by (auto simp: server_open_conn_def Let_def un_bind_path_def set_socket_grm_def andthen_def
      split: prod.splits if_splits dest!: chgrpmode_ok split: option.splits)

text \<open>A client that could not connect leaves no socket file.\<close>

lemma client_open_conn_clean:
  assumes "client_open_conn e b pid m = ((fd, op, cl), m')" "fd < 0" "un_unlink e" "un_socket e \<ge> 0"
  shows "m' = m(client_path b pid := None)"
  using assms
  by (auto simp: client_open_conn_def Let_def un_bind_path_def un_remove_def
      split: prod.splits if_splits dest: chgrpmode_keeps)

lemma client_open_conn_file:
  assumes "client_open_conn e b pid m = ((fd, op, cl), m')" "0 \<le> fd" "un_unlink e"
  shows "\<exists>gid. m' = m(client_path b pid \<mapsto> (gid, 384))"
  using assms
  by (auto simp: client_open_conn_def Let_def un_bind_path_def un_remove_def
      split: prod.splits if_splits dest!: chgrpmode_ok)

lemma digits_val_append: "digits_val (a @ b) = digits_val a * 10 ^ length b + digits_val b"
  by (induction b rule: rev_induct) (simp_all add: algebra_simps flip: append_assoc, simp add: digits_val_def)

lemma digits_val_less: "\<forall>c \<in> set b. isdigit c \<Longrightarrow> digits_val b < 10 ^ length b"
proof (induction b rule: rev_induct)
  case (snoc c b)
  then have "digit_val c \<le> 9"
    by (simp add: isdigit_def digit_val_def word_le_nat_alt unat_sub, linarith)
  with snoc show ?case by simp
qed (simp add: digits_val_def)

lemma digits_val_drop:
  assumes "\<forall>c \<in> set ds. isdigit c"
  shows "digits_val (drop k ds) = digits_val ds mod 10 ^ length (drop k ds)"
proof -
  have "digits_val ds = digits_val (take k ds) * 10 ^ length (drop k ds) + digits_val (drop k ds)"
    by (metis append_take_drop_id digits_val_append)
  moreover have "digits_val (drop k ds) < 10 ^ length (drop k ds)"
    using assms by (intro digits_val_less) (auto dest: in_set_dropD)
  ultimately show ?thesis by simp
qed

lemma pad_zero_digits: "\<forall>c \<in> set (pad_zero w (dec n)). isdigit c"
  using dec_digits [of n] by (auto simp: pad_zero_def isdigit_def)

lemma digits_val_pad_zero: "digits_val (pad_zero w (dec n)) = n"
proof -
  have "digits_val (replicate k 48) = 0" for k
    by (induction k) (simp_all add: replicate_append_same [symmetric] digits_val_def digit_val_def)
  then show ?thesis by (simp add: pad_zero_def digits_val_append)
qed

lemma strto_parse_digits:
  assumes "ds \<noteq> []" "\<forall>c \<in> set ds. isdigit c"
  shows "strto_parse ds = Some (False, digits_val ds, [])"
proof -
  obtain c cs where c: "ds = c # cs" using assms(1) by (cases ds) auto
  then have "isdigit c" "\<not> isspace c" "c \<noteq> 45" "c \<noteq> 43"
    using assms(2) by (auto simp: ctype_simps) (auto simp: isdigit_def)
  moreover have tw: "takeWhile isdigit cs = cs" using assms(2) c by simp
  ultimately show ?thesis using c by (simp add: strto_parse_def Let_def tw)
qed

lemma client_id_digits:
  assumes "length basename + length (pad_zero 5 (dec pid)) < SUN_PATH_SIZE"
  defines "p \<equiv> client_path basename pid"
  shows "5 \<le> length p" "strtol (drop (length p - 5) p) = Some (int (pid mod 100000), [], False)"
proof -
  let ?ds = "pad_zero 5 (dec pid)"
  have p: "p = basename @ ?ds" using assms(1) by (simp add: p_def client_path_def)
  have l: "5 \<le> length ?ds" by (simp add: pad_zero_def)
  then show "5 \<le> length p" by (simp add: p)
  let ?d = "drop (length ?ds - 5) ?ds"
  have d: "drop (length p - 5) p = ?d" using l by (simp add: p)
  have len: "length ?d = 5" using l by simp
  have dig: "\<forall>c \<in> set ?d. isdigit c" using pad_zero_digits [of 5 pid] by (auto dest: in_set_dropD)
  have "digits_val ?d = pid mod 100000"
    using digits_val_drop [OF pad_zero_digits, of "length ?ds - 5" 5 pid] len by (simp add: digits_val_pad_zero)
  moreover have "strto_parse ?d = Some (False, digits_val ?d, [])"
    using dig len by (intro strto_parse_digits) auto
  ultimately show "strtol (drop (length p - 5) p) = Some (int (pid mod 100000), [], False)"
    unfolding d by (simp add: strtol_def)
qed

text \<open>
  A local client that has connected and the server that accepts it: the server knows the client
  by its process id modulo 100000, which is the process id when it has at most five digits, and
  removes the socket file of the client; afterwards the socket files are those from before, except that a
  stale file of the client's name is gone.
\<close>

theorem local_client_accepted:
  assumes "client_open_conn e basename pid m = ((fd, op, cl), m')" and "0 \<le> fd" and "un_unlink e"
    and "length basename + length (pad_zero 5 (dec pid)) < SUN_PATH_SIZE"
    and "un_unlink e'" and "cloexec \<longrightarrow> un_cloexec e'"
  shows "server_accept_conn e' (Some (nfd, client_path basename pid)) cloexec m' =
           Some ((nfd, [nfd], []), Some (int (pid mod 100000)), m(client_path basename pid := None))
      \<and> m' (client_path basename pid) \<noteq> None"
proof -
  obtain gid where "m' = m(client_path basename pid \<mapsto> (gid, 384))"
    using client_open_conn_file [OF assms(1-3)] by blast
  with client_id_digits [OF assms(4)] assms(5,6) show ?thesis
    by (auto simp: server_accept_conn_def un_remove_def)
qed

definition un_ok :: un_env where
  "un_ok = \<lparr>un_socket = 4, un_unlink = True, un_bind = True, un_listen = True, un_connect = True,
     un_cloexec = True, un_new = (0, 493), un_own = \<lparr>own_group = (\<lambda>_. Some 20), own_chown = True, own_chmod = True\<rparr>\<rparr>"

theorem local_client_accepted_witness:
  "server_accept_conn un_ok (Some (9, client_path [47, 99] 123456)) True
      (snd (client_open_conn un_ok [47, 99] 123456 Map.empty)) =
    Some ((9, [9], []), Some 23456, Map.empty)"
proof -
  have d: "dec 123456 = [49, 50, 51, 52, 53, 54]" by (simp add: dec.simps)
  have "client_open_conn un_ok [47, 99] 123456 Map.empty =
      ((4, [4], []), [client_path [47, 99] 123456 \<mapsto> (0, 384)])"
    by (simp add: client_open_conn_def un_ok_def un_remove_def un_bind_path_def chgrpmode_def Let_def)
  from local_client_accepted [OF this, of un_ok True 9] d
  show ?thesis
    by (simp add: un_ok_def pad_zero_def SUN_PATH_SIZE_def
        client_open_conn_def un_remove_def un_bind_path_def chgrpmode_def Let_def)
qed

end
