(* ===== verification/Connect.thy ===== *)
theory Connect
  imports Emwin_Read Servers Sockets
begin

text \<open>
  Opening a source: the openers of \<open>src/emwin.c\<close> for the fifo (\<open>src/infeed.c\<close>), a serial port
  (\<open>src/ser.c\<close>) and the network, and \<open>get_next_server\<close> with them. The results have the
  descriptors that were obtained and those that were closed.
\<close>

section \<open>Opening a source\<close>

text \<open>
  The octal number of \<open>sscanf(mode_str, "%ho", ...)\<close>, cut to 16 bits, and the result of the
  system calls on the fifo: \<open>mkfifo\<close>, \<open>chmod\<close> and \<open>open\<close>.
\<close>

definition isoct :: "byte \<Rightarrow> bool" where "isoct c \<longleftrightarrow> 48 \<le> c \<and> c \<le> 55"

definition oct_val :: "byte list \<Rightarrow> nat" where
  "oct_val ds = foldl (\<lambda>a c. 8 * a + digit_val c) 0 ds"

definition scan_ho :: "byte list \<Rightarrow> 16 word option" where
  "scan_ho s =
     (let s = skip_ws s;
          (neg, s) = (case s of c # cs \<Rightarrow> if c = 45 then (True, cs) else if c = 43 then (False, cs) else (False, s)
                              | [] \<Rightarrow> (False, s));
          ds = takeWhile isoct s;
          v = min (2 ^ 64 - 1) (oct_val ds)
      in if ds = [] then None else Some (if neg \<and> oct_val ds < 2 ^ 64 then - of_nat v else of_nat v))"

record fifo_os =
  os_mkfifo :: "16 word \<Rightarrow> bool"
  os_chmod :: "16 word \<Rightarrow> bool"
  os_open :: int

text \<open>The descriptor or the error, the descriptors obtained and those closed.\<close>

definition infeed_open_fifo :: "fifo_os \<Rightarrow> byte list \<Rightarrow> int \<times> int list \<times> int list" where
  "infeed_open_fifo os mode_str =
     (case scan_ho mode_str of
        None \<Rightarrow> (-2, [], [])
      | Some mode \<Rightarrow>
          if os_mkfifo os mode \<and> os_chmod os mode
          then (os_open os, if os_open os \<noteq> -1 then [os_open os] else [], []) else (-1, [], []))"

definition open_emwin_server_infeed :: "fifo_os \<Rightarrow> byte list \<Rightarrow> int \<times> int list \<times> int list" where
  "open_emwin_server_infeed os mode_str = infeed_open_fifo os mode_str"

text \<open>
  A serial port: the descriptor of \<open>open\<close>, the control flags \<open>tcgetattr\<close> finds, and whether
  \<open>tcsetattr\<close> and the two \<open>ioctl\<close> calls work. The result is the descriptor or error code and
  the flags and speed that were set.
\<close>

record ser_os =
  so_open :: int
  so_cflag :: "tcflag list"
  so_tcsetattr :: bool
  so_ioctl :: bool

definition ser_cflag :: "ser_settings_st \<Rightarrow> tcflag list \<Rightarrow> tcflag list" where
  "ser_cflag st cflag =
     filter (\<lambda>f. f \<notin> set [PARENB, PARODD, CS5, CS6, CS7, CS8, CSTOPB]) cflag
     @ parity st @ bits st @ stopbits st @ [CLOCAL, CREAD]"

definition ser_open_port ::
  "ser_os \<Rightarrow> byte list \<Rightarrow> ((int \<times> int list \<times> int list) \<times> (nat \<times> tcflag list) option) option" where
  "ser_open_port os settings_str =
     (case ser_get_settings settings_str of
        None \<Rightarrow> None
      | Some (status, None) \<Rightarrow> Some ((status, [], []), None)
      | Some (status, Some st) \<Rightarrow>
          let fd = so_open os in
          if status \<noteq> 0 then Some ((status, [], []), None)
          else if fd = -1 then Some ((-1, [], []), None)
          else if \<not> so_tcsetattr os then Some ((-1, [fd], [fd]), None)
          else if \<not> so_ioctl os then Some ((-1, [fd], [fd]), None)
          else Some ((fd, [fd], []), Some (speed st, ser_cflag st (so_cflag os))))"

definition open_emwin_server_serial ::
  "ser_os \<Rightarrow> byte list \<Rightarrow> fill_env \<Rightarrow> int \<Rightarrow> chan \<Rightarrow> emwin_packet \<Rightarrow> emwin_globals
     \<Rightarrow> ((int \<times> int list \<times> int list) \<times> emwin_globals \<times> chan) option" where
  "open_emwin_server_serial os settings_str env retry c ep g =
     (case ser_open_port os settings_str of
        None \<Rightarrow> None
      | Some ((fd, op, cl), _) \<Rightarrow>
          Some (if fd < 0 then ((fd, op, cl), g, c)
                else case emwin_sync_serial env retry c ep g of
                    (status, g, c) \<Rightarrow> (if status \<noteq> 0 then (-2, op, cl @ [fd]) else (fd, op, cl), g, c)))"

text \<open>The connection within \<open>g.connecttimeout_s\<close> seconds, without a limit if that is not positive.\<close>

definition network_fd :: "int \<Rightarrow> int \<times> sk_env list \<Rightarrow> int \<times> int \<times> int list \<times> int list" where
  "network_fd connecttimeout_s gai =
     (if connecttimeout_s > 0 then tcp_client_open_conn_timed gai connecttimeout_s (-1) (-1)
      else tcp_client_open_conn gai (-1) (-1))"

definition open_emwin_server_network ::
  "int \<Rightarrow> int \<times> sk_env list \<Rightarrow> server_type \<Rightarrow> fill_env \<Rightarrow> int \<Rightarrow> (chan \<Rightarrow> nat) \<Rightarrow> chan \<Rightarrow> emwin_packet \<Rightarrow> emwin_globals
     \<Rightarrow> wx14_msg_st \<Rightarrow> ((int \<times> int \<times> int list \<times> int list) \<times> emwin_globals \<times> chan \<times> wx14_msg_st) option" where
  "open_emwin_server_network connecttimeout_s gai ty env retry clk c ep g m =
     (case network_fd connecttimeout_s gai of
        (code, fd, op, cl) \<Rightarrow>
          if fd = -1 then Some ((code, -1, op, cl), g, c, m)
          else
            map_option (\<lambda>(status, g, c, m).
                (if status \<noteq> 0 then (code, if status \<noteq> -1 then -2 else -1, op, cl @ [fd]) else (code, fd, op, cl), g, c, m))
              (if ty = EMWIN_SERVER_TYPE_WX14_MSG then emwin_sync_wx14_msg env retry clk c ep g m
               else if ty = EMWIN_SERVER_TYPE_WX14_RAW then Some (emwin_sync_wx14_raw env retry c ep g m)
               else case get_emwin_packet_bb env retry c ep g of (status, _, g, c) \<Rightarrow> Some (status, g, c, m)))"

section \<open>The next server\<close>

text \<open>What the system answers when a server is opened; \<open>oe_chan\<close> is the channel of the new descriptor.\<close>

record open_env =
  oe_fifo :: fifo_os
  oe_ser :: ser_os
  oe_gai :: "byte list option \<Rightarrow> byte list option \<Rightarrow> int \<times> sk_env list"
  oe_timeout :: int
  oe_fill :: fill_env
  oe_retry :: int
  oe_clk :: "chan \<Rightarrow> nat"
  oe_chan :: chan
  oe_uninit :: emwin_packet

text \<open>The choice among the openers in \<open>get_next_server\<close>. A null pointer for the settings or the mode is \<open>None\<close>.\<close>

definition open_server ::
  "open_env \<Rightarrow> emwin_server \<Rightarrow> emwin_globals \<Rightarrow> wx14_msg_st
     \<Rightarrow> ((int \<times> int \<times> int list \<times> int list) \<times> emwin_globals \<times> chan \<times> wx14_msg_st) option" where
  "open_server oe es g m =
     (let net = (\<lambda>ty. open_emwin_server_network (oe_timeout oe) (oe_gai oe (es_ip es) (es_port es)) ty (oe_fill oe)
                   (oe_retry oe) (oe_clk oe) (oe_chan oe) (oe_uninit oe) g m)
      in if server_type_serial_device es then
           (case es_port es of
              None \<Rightarrow> None
            | Some s \<Rightarrow> map_option (\<lambda>(fds, g, c). ((gai_code es, fds), g, c, m))
                (open_emwin_server_serial (oe_ser oe) s (oe_fill oe) (oe_retry oe) (oe_chan oe) (oe_uninit oe) g))
         else if server_type_infeed es then
           map_option (\<lambda>s. ((gai_code es, open_emwin_server_infeed (oe_fifo oe) s), g, oe_chan oe, m)) (es_port es)
         else if server_type_wx14_msg_device es \<or> server_type_wx14_raw_device es then net (es_type es)
         else net EMWIN_SERVER_TYPE_BB)"

text \<open>
  \<open>get_next_server\<close> as a whole: the server that is selected is opened, and the list updated with the
  result. The index of the server, the list, the other state, the descriptors obtained and closed.
\<close>

definition connect_next_server ::
  "open_env \<Rightarrow> int \<Rightarrow> int \<Rightarrow> emwin_globals \<times> wx14_msg_st \<Rightarrow> emwin_server_list
     \<Rightarrow> (nat option \<times> emwin_server_list \<times> (emwin_globals \<times> wx14_msg_st) \<times> chan \<times> int list \<times> int list) option" where
  "connect_next_server oe now mb gm l =
     (case open_server oe (get_current_server (fst (select_server now mb l))) (fst gm) (snd gm) of
        None \<Rightarrow> None
      | Some ((code, fd, op, cl), g, c, m) \<Rightarrow>
          (case get_next_server now mb (\<lambda>_. (fd, code)) l of
             (r, l', closed) \<Rightarrow> Some (r, l', (g, m), c, op, closed @ cl)))"

text \<open>A sequence of connections, each at its time and with its answers of the system.\<close>

fun connections_made ::
  "(int \<times> open_env) list \<Rightarrow> int \<Rightarrow> emwin_globals \<times> wx14_msg_st \<Rightarrow> emwin_server_list
     \<Rightarrow> (emwin_server_list \<times> int list \<times> int list) option" where
  "connections_made [] mb gm l = Some (l, [], [])"
| "connections_made ((now, oe) # xs) mb gm l =
     (case connect_next_server oe now mb gm l of
        None \<Rightarrow> None
      | Some (r, l', gm', c, op, cl) \<Rightarrow>
          map_option (\<lambda>(l'', op', cl'). (l'', op @ op', cl @ cl')) (connections_made xs mb gm' l'))"

section \<open>Descriptors\<close>

definition valid_env :: "open_env \<Rightarrow> bool" where
  "valid_env oe \<longleftrightarrow> os_open (oe_fifo oe) \<ge> -1 \<and> so_open (oe_ser oe) \<ge> -1 \<and> (\<forall>h p. valid_sockets (snd (oe_gai oe h p)))"

lemma infeed_accounted: "os_open os \<ge> -1 \<Longrightarrow> accounted (open_emwin_server_infeed os s)"
  by (auto simp: open_emwin_server_infeed_def infeed_open_fifo_def split: option.splits)

lemma ser_get_settings_status: "ser_get_settings s = Some (st, o1) \<Longrightarrow> st < 0 \<or> st = 0 \<and> o1 \<noteq> None"
  by (auto simp: ser_get_settings_def Let_def split: option.splits if_splits)

lemma serial_accounted:
  assumes "so_open os \<ge> -1" "open_emwin_server_serial os s env retry c ep g = Some (fds, g', c')"
  shows "accounted fds"
proof -
  obtain fd op cl st where p: "ser_open_port os s = Some ((fd, op, cl), st)"
    using assms(2) by (auto simp: open_emwin_server_serial_def split: option.splits)
  then have "accounted (fd, op, cl)"
    using assms(1) by (auto simp: ser_open_port_def Let_def split: option.splits if_splits dest!: ser_get_settings_status)
  with p assms(2) show ?thesis
    by (auto simp: open_emwin_server_serial_def split: if_splits prod.splits)
qed

lemma network_accounted:
  assumes "valid_sockets (snd gai)" "open_emwin_server_network t gai ty env retry clk c ep g m = Some ((code, fds), g', c', m')"
  shows "accounted fds"
proof -
  obtain cd fd op cl where n: "network_fd t gai = (cd, fd, op, cl)" by (metis prod_cases4)
  then have "accounted (fd, op, cl)" "fd \<ge> -1"
    using tcp_client_fd [OF assms(1), of t "-1" "-1"] tcp_client_fd [OF assms(1), of "-1" "-1" "-1"]
      tcp_client_accounted [OF assms(1), of t "-1" "-1"] tcp_client_accounted [OF assms(1), of "-1" "-1" "-1"]
    by (simp_all add: network_fd_def tcp_client_open_conn_def split: if_splits)
  with n assms(2) show ?thesis
    by (auto simp: open_emwin_server_network_def split: if_splits prod.splits)
qed

lemma open_server_accounted:
  assumes "valid_env oe" "open_server oe es g m = Some ((code, fds), g', c, m')"
  shows "accounted fds"
  using assms
  by (auto simp: open_server_def Let_def valid_env_def intro: serial_accounted network_accounted infeed_accounted
      simp del: accounted.simps split: if_splits option.splits)

text \<open>The open descriptors in the list of servers: at most that of the current one.\<close>

definition held :: "emwin_server_list \<Rightarrow> int multiset" where
  "held l = filter_mset (\<lambda>fd. fd \<ge> 0) (mset (map es_fd (server l)))"

abbreviation live :: "int \<Rightarrow> int multiset" where
  "live fd \<equiv> (if fd \<ge> 0 then {#fd#} else {#})"

definition fd_inv :: "emwin_server_list \<Rightarrow> bool" where
  "fd_inv l \<longleftrightarrow> es_ok l \<and> held l = live (es_fd (get_current_server l))
     \<and> (es_fd (get_current_server l) \<ge> 0 \<longrightarrow> connect (es_stats (get_current_server l)) \<noteq> 0)"

lemma held_set:
  assumes "es_current l < length (server l)"
  shows "held (set_current_server es l) + live (es_fd (get_current_server l)) = held l + live (es_fd es)"
proof -
  have "es_fd (get_current_server l) \<in># mset (map es_fd (server l))" using assms by (auto simp: get_current_server_def)
  then obtain M where "mset (map es_fd (server l)) = add_mset (es_fd (get_current_server l)) M" by (metis mset_add)
  with assms show ?thesis
    by (simp add: held_def set_current_server_def map_update mset_update get_current_server_def del: mset_map)
qed

lemma held_member:
  assumes "i < length (server l)" "held l = {#}"
  shows "es_fd (server l ! i) < 0"
proof (rule ccontr)
  assume "\<not> ?thesis"
  then have "es_fd (server l ! i) \<in># held l" using assms(1) by (auto simp: held_def)
  then show False using assms(2) by simp
qed

lemma held_current [simp]: "held (l\<lparr>es_current := i\<rparr>) = held l" "held (l\<lparr>refused_connections := n\<rparr>) = held l"
  by (simp_all add: held_def)

lemma held_set_empty:
  assumes "es_current l < length (server l)" "held l = {#}"
  shows "held (set_current_server es l) = live (es_fd es)"
  using held_set [OF assms(1), of es] held_member [OF assms] assms(2) by (simp add: get_current_server_def)

text \<open>Before a server is opened everything is closed.\<close>

lemma select_server_closes:
  assumes "fd_inv l" "select_server now mb l = (l1, closed)" "now \<noteq> 0"
  shows "held l1 = {#}" "held l = mset (filter (\<lambda>fd. fd \<ge> 0) closed)"
    "es_current l1 < length (server l1)" "connect (es_stats (get_current_server l1)) \<noteq> 0"
proof -
  let ?es = "get_current_server l"
  have ok: "es_ok l" and h: "held l = live (es_fd ?es)" and c: "es_fd ?es \<ge> 0 \<longrightarrow> connect (es_stats ?es) \<noteq> 0"
    using assms(1) by (auto simp: fd_inv_def)
  note cur = es_ok_current [OF ok]
  show "connect (es_stats (get_current_server l1)) \<noteq> 0" by (rule select_server_connected [OF ok assms(2,3)])
  show "es_current l1 < length (server l1)"
    using select_server_frame [OF assms(2)] cur by auto
  have first: "held l1 = {#} \<and> held l = {#} \<and> closed = []"
    if z: "connect (es_stats ?es) = 0"
  proof -
    have e: "held l = {#}" "closed = []" "l1 = set_current_server (?es\<lparr>es_stats := (es_stats ?es)\<lparr>connect := now\<rparr>\<rparr>) l"
      using z h c assms(2) by (auto simp: select_server_def Let_def)
    with held_set_empty [OF cur(1) e(1)] z c assms(3) cur(1) show ?thesis by auto
  qed
  have later: "held l1 = {#} \<and> held l = mset (filter (\<lambda>fd. fd \<ge> 0) closed)"
    if z: "connect (es_stats ?es) \<noteq> 0"
  proof -
    obtain es0 where es0: "close_server ?es = (es0, closed)" "es_fd es0 = -1" "es_stats es0 = es_stats ?es"
      "held l = mset (filter (\<lambda>fd. fd \<ge> 0) closed)"
      using assms(2) z h by (auto simp: select_server_def close_server_def Let_def split: if_splits)
    have e: "held (set_current_server x l) = {#}" if "es_fd x = -1" for x
      using held_set [OF cur(1), of x] h that by (auto split: if_splits)
    have e2: "held (set_current_server y ((set_current_server x l)\<lparr>es_current := next_current l\<rparr>)) = {#}"
      if "es_fd x = -1" "es_fd y = es_fd (server (set_current_server x l) ! next_current l)" for x y
      using held_set_empty [of "(set_current_server x l)\<lparr>es_current := next_current l\<rparr>" y] e [OF that(1)] that(2)
        held_member [OF _ e [OF that(1)], of "next_current l"] cur(2) by simp
    from assms(2) z es0 show ?thesis
      by (auto simp: select_server_def Let_def e e2 get_current_server_def init_server_stats_def split: if_splits)
  qed
  show "held l1 = {#}" "held l = mset (filter (\<lambda>fd. fd \<ge> 0) closed)"
    using first later by (cases "connect (es_stats ?es) = 0"; auto)+
qed

lemma get_next_server_holds:
  assumes "fd_inv l" "get_next_server now mb (\<lambda>_. (fd, code)) l = (r, l', closed)" "now \<noteq> 0"
  shows "fd_inv l'" "held l' = live fd" "held l = mset (filter (\<lambda>fd. fd \<ge> 0) closed)"
proof -
  obtain l1 where s: "select_server now mb l = (l1, closed)"
    using assms(2) by (auto simp: get_next_server_def Let_def split: prod.splits if_splits)
  note sel = select_server_closes [OF assms(1) s assms(3)]
  let ?op = "opened (\<lambda>_. (fd, code)) (get_current_server l1)"
  have f: "es_fd ?op = fd" by (simp add: opened_fd)
  have h: "held x = live (es_fd es)" if "server x = (server l1)[es_current l1 := es]" for x es
    using held_set_empty [OF sel(3,1), of es] that by (simp add: held_def set_current_server_def)
  have "held l' = live fd \<and> es_fd (get_current_server l') = fd \<and> connect (es_stats (get_current_server l')) \<noteq> 0"
    using assms(2) s sel(3,4) f
    by (auto simp: h get_next_server_def Let_def opened_stats set_current_server_def get_current_server_def split: if_splits)
  moreover have "es_ok l'" using get_next_server_inv [OF _ assms(2)] assms(1) by (simp add: fd_inv_def)
  ultimately show "fd_inv l'" "held l' = live fd" by (auto simp: fd_inv_def)
  show "held l = mset (filter (\<lambda>fd. fd \<ge> 0) closed)" by (rule sel(2))
qed

lemma connect_next_accounted:
  assumes "fd_inv l" "connect_next_server oe now mb gm l = Some (r, l', gm', c, op, cl)" "now \<noteq> 0" "valid_env oe"
  shows "fd_inv l'"
    "mset (filter (\<lambda>fd. fd \<ge> 0) op) + held l = mset (filter (\<lambda>fd. fd \<ge> 0) cl) + held l'"
proof -
  obtain code fd cl0 closed g m where
    o: "open_server oe (get_current_server (fst (select_server now mb l))) (fst gm) (snd gm) = Some ((code, fd, op, cl0), g, c, m)"
    and n: "get_next_server now mb (\<lambda>_. (fd, code)) l = (r, l', closed)" "cl = closed @ cl0"
    using assms(2) by (auto simp: connect_next_server_def split: option.splits prod.splits)
  note h = get_next_server_holds [OF assms(1) n(1) assms(3)]
  show "fd_inv l'" by (rule h(1))
  have "mset op = mset cl0 + live fd" using open_server_accounted [OF assms(4) o] by simp
  then have "filter_mset (\<lambda>fd. fd \<ge> 0) (mset op) = filter_mset (\<lambda>fd. fd \<ge> 0) (mset cl0) + live fd" by simp
  then show "mset (filter (\<lambda>fd. fd \<ge> 0) op) + held l = mset (filter (\<lambda>fd. fd \<ge> 0) cl) + held l'"
    using h(2,3) n(2) by (simp add: ac_simps)
qed

lemma account_chain:
  assumes "a1 + h = c1 + h1" "a2 + h1 = c2 + h2"
  shows "(a1 + a2) + h = (c1 + c2) + (h2 :: 'a multiset)"
proof -
  have "(a1 + a2) + h = (a1 + h) + a2" by (simp add: ac_simps)
  also have "\<dots> = c1 + (a2 + h1)" by (simp add: assms(1) ac_simps)
  also have "\<dots> = (c1 + c2) + h2" by (simp add: assms(2) ac_simps)
  finally show ?thesis .
qed

lemma release_closes_held: "mset (filter (\<lambda>fd. fd \<ge> 0) (snd (release_server_list l))) = held l"
proof -
  have "mset (filter (\<lambda>fd. fd \<ge> 0) (concat (map (\<lambda>es. if es_fd es \<noteq> -1 then snd (close_server es) else []) ss)))
      = filter_mset (\<lambda>fd. fd \<ge> 0) (mset (map es_fd ss))" for ss
    by (induction ss) (auto simp: close_server_def)
  then show ?thesis by (simp add: release_server_list_def held_def)
qed

text \<open>
  C38. Through any number of reconnections, to servers of every kind, with all the failures of the
  calls and of the first packet that is read, every descriptor that was obtained is closed or is
  the descriptor of the current server, which is the only open one in the list; and after the list is
  released all descriptors are closed.
\<close>

theorem reconnections_accounted:
  assumes "connections_made xs mb gm l = Some (l', op, cl)" "fd_inv l" "held l = {#}"
    and "list_all (\<lambda>(now, oe). now \<noteq> 0 \<and> valid_env oe) xs"
  shows "mset (filter (\<lambda>fd. fd \<ge> 0) op) = mset (filter (\<lambda>fd. fd \<ge> 0) cl) + held l'
    \<and> held l' = live (es_fd (get_current_server l'))
    \<and> mset (filter (\<lambda>fd. fd \<ge> 0) op) = mset (filter (\<lambda>fd. fd \<ge> 0) (cl @ snd (release_server_list l')))"
proof -
  have "fd_inv l' \<and> mset (filter (\<lambda>fd. fd \<ge> 0) op) + held l = mset (filter (\<lambda>fd. fd \<ge> 0) cl) + held l'"
    using assms(1,2,4)
  proof (induction xs arbitrary: gm l op cl)
    case (Cons x xs)
    obtain now oe where x: "x = (now, oe)" by (cases x)
    obtain r l1 gm1 c op1 cl1 op2 cl2 where
      n: "connect_next_server oe now mb gm l = Some (r, l1, gm1, c, op1, cl1)"
      and m: "connections_made xs mb gm1 l1 = Some (l', op2, cl2)" "op = op1 @ op2" "cl = cl1 @ cl2"
      using Cons.prems(1) by (auto simp: x split: option.splits)
    have "now \<noteq> 0" "valid_env oe" using Cons.prems(3) by (simp_all add: x)
    note s = connect_next_accounted [OF Cons.prems(2) n this]
    have "fd_inv l' \<and> mset (filter (\<lambda>fd. fd \<ge> 0) op2) + held l1 = mset (filter (\<lambda>fd. fd \<ge> 0) cl2) + held l'"
      using Cons.IH [OF m(1) s(1)] Cons.prems(3) by simp
    with account_chain [OF s(2)] show ?case unfolding m(2,3) filter_append mset_append by blast
  qed simp
  with assms(3) release_closes_held [of l'] show ?thesis by (simp add: fd_inv_def)
qed

text \<open>A list with one fifo that is opened twice.\<close>

definition oe0 :: "int \<Rightarrow> open_env" where
  "oe0 fd = \<lparr>oe_fifo = \<lparr>os_mkfifo = (\<lambda>_. True), os_chmod = (\<lambda>_. True), os_open = fd\<rparr>,
     oe_ser = \<lparr>so_open = -1, so_cflag = [], so_tcsetattr = False, so_ioctl = False\<rparr>, oe_gai = (\<lambda>_ _. (8, [])),
     oe_timeout = 20, oe_fill = env0, oe_retry = 0, oe_clk = (\<lambda>_. 0),
     oe_chan = \<lparr>ch_rx = [], ch_tx = [], ch_intr = [], ch_out = []\<rparr>, oe_uninit = ep0\<rparr>"

definition fifo_list :: emwin_server_list where
  "fifo_list = \<lparr>server = [raw_server\<lparr>es_type := EMWIN_SERVER_TYPE_INFEED, es_port := Some [54, 48, 48], es_fd := -1\<rparr>],
     es_max = 0, es_current = 0, refused_connections = 0\<rparr>"

theorem reconnections_accounted_witness:
  "\<forall>m. \<exists>l'. connections_made [(7, oe0 5), (9, oe0 6)] 0 (g0, m) fifo_list = Some (l', [5, 6], [5]) \<and> held l' = {#6#}"
proof
  fix m
  let ?xs = "[(7 :: int, oe0 5), (9, oe0 6)]"
  have "\<exists>l'. connections_made ?xs 0 (g0, m) fifo_list = Some (l', [5, 6], [5])"
    by (simp add: connect_next_server_def open_server_def open_emwin_server_infeed_def infeed_open_fifo_def scan_ho_def
        isoct_def skip_ws_def isspace_def oct_val_def digit_val_def oe0_def fifo_list_def raw_server_def zero_stats_def
        get_next_server_def select_server_def get_current_server_def set_current_server_def close_server_def opened_def
        switch_server_def server_type_serial_device_def server_type_infeed_def Let_def)
  then obtain l' where l': "connections_made ?xs 0 (g0, m) fifo_list = Some (l', [5, 6], [5])" by blast
  have "fd_inv fifo_list" "held fifo_list = {#}"
    by (simp_all add: fd_inv_def held_def fifo_list_def raw_server_def es_ok_def get_current_server_def)
  moreover have "list_all (\<lambda>(now, oe). now \<noteq> 0 \<and> valid_env oe) ?xs" by (simp add: valid_env_def oe0_def)
  ultimately have "{#5, 6#} = {#5#} + held l'" using reconnections_accounted [OF l'] by simp
  then have "held l' = {#6#}" by (simp add: add_mset_commute)
  with l' show "\<exists>l'. connections_made ?xs 0 (g0, m) fifo_list = Some (l', [5, 6], [5]) \<and> held l' = {#6#}" by blast
qed

end
