(* ===== verification/Thread.thy ===== *)
theory Thread
  imports Startup Connect
begin

text \<open>
  The thread of the server from its start to its end (\<open>npemwin_main\<close> of \<open>src/npemwin.c\<close>), the flags by which
  the main thread asks it for something, the making and the end of the thread of a client
  (\<open>client_thread_create\<close> and \<open>client_thread_kill\<close> of \<open>src/serverm.c\<close>), and the replacement of \<open>daemon\<close> for
  systems that lack it (\<open>src/solaris.c\<close>).
\<close>

section \<open>Flags\<close>

text \<open>Reading a flag resets it. The flag to read the list again is a member of \<open>per_st\<close>.\<close>

definition set_reload_servers_list_flag :: "per_st \<Rightarrow> per_st" where
  "set_reload_servers_list_flag p = p\<lparr>greload_servers_list_flag := True\<rparr>"

definition get_reload_servers_list_flag :: "per_st \<Rightarrow> bool \<times> per_st" where
  "get_reload_servers_list_flag p = (greload_servers_list_flag p, p\<lparr>greload_servers_list_flag := False\<rparr>)"

definition set_send_bbclientid_flag :: "bool \<Rightarrow> bool" where
  "set_send_bbclientid_flag gsend_bbclientid_flag = True"

definition get_send_bbclientid_flag :: "bool \<Rightarrow> bool \<times> bool" where
  "get_send_bbclientid_flag gsend_bbclientid_flag = (gsend_bbclientid_flag, False)"

section \<open>The thread of the server\<close>

definition PROTOCOL_NONE :: int where "PROTOCOL_NONE = 0"

text \<open>What the system answers when the server is opened; see \<open>init_network_server\<close>.\<close>

record listen_env =
  li_open_fd :: int
  li_fcntl :: bool
  li_mem :: bool
  li_now :: nat

text \<open>The status, the listening descriptor, and the state, with a server if one is enabled.\<close>

definition init_npemwin ::
  "listen_env \<Rightarrow> int \<Rightarrow> byte list option \<Rightarrow> int \<Rightarrow> 'db np_st \<Rightarrow> int \<times> int \<times> 'db np_st" where
  "init_npemwin le serverprotocol serverport maxnetclients np =
     (if serverprotocol \<noteq> PROTOCOL_NONE then
        (case init_network_server serverport (li_open_fd le) (li_fcntl le) (li_mem le) (li_now le) maxnetclients of
           (status, fd, ct) \<Rightarrow>
             (status, fd, np\<lparr>np_sv := map_option (\<lambda>ct. \<lparr>sv_ct = ct, gprocess_connections_time = 0,
                greport_client_connections_flag = False, sv_files = ([], [])\<rparr>) ct\<rparr>))
      else (0, -1, np\<lparr>np_sv := None\<rparr>))"

text \<open>The descriptors closed: of the clients, of the server, and of the sources.\<close>

definition terminate_npemwin :: "int \<Rightarrow> 'db np_st \<Rightarrow> int list option" where
  "terminate_npemwin server_fd np =
     map_option (\<lambda>cl. cl @ snd (release_server_list (np_es np)))
       (terminate_network_server server_fd (map_option sv_ct (np_sv np)))"

text \<open>The calls of \<open>npemwin_loop\<close> until the flag to quit is seen, each with what it meets.\<close>

record 'db loop_env =
  lo_now :: int
  lo_max_bad :: int
  lo_open :: "emwin_server \<Rightarrow> int \<times> int"
  lo_chan :: "int \<Rightarrow> chan"
  lo_turns :: "'db turn_env list"

fun npemwin_loops ::
  "'db dbops \<Rightarrow> np_conf \<Rightarrow> 'db loop_env list \<Rightarrow> byte list option \<Rightarrow> 'db np_st \<Rightarrow> 'db np_st turn_result" where
  "npemwin_loops ops cf [] xor_id np = Turned np"
| "npemwin_loops ops cf (l # ls) xor_id np =
     (case npemwin_loop ops cf (lo_now l) (lo_max_bad l) (lo_open l) (lo_chan l) (lo_turns l) xor_id np of
        Turned (status, xor_id, c, np) \<Rightarrow> npemwin_loops ops cf ls xor_id np
      | Exits \<Rightarrow> Exits | Uses_freed \<Rightarrow> Uses_freed | Stuck \<Rightarrow> Stuck)"

text \<open>Whether the thread sets the flag to quit itself, the descriptors closed at the end, and the state.\<close>

definition npemwin_main ::
  "'db dbops \<Rightarrow> np_conf \<Rightarrow> listen_env \<Rightarrow> int \<Rightarrow> byte list option \<Rightarrow> int \<Rightarrow> 'db loop_env list \<Rightarrow> 'db np_st
     \<Rightarrow> (bool \<times> int list \<times> 'db np_st) turn_result" where
  "npemwin_main ops cf le serverprotocol serverport maxnetclients ls np =
     (case init_npemwin le serverprotocol serverport maxnetclients np of
        (status, fd, np) \<Rightarrow>
          case (if status \<noteq> 0 then Turned np else npemwin_loops ops cf ls None np) of
            Turned np \<Rightarrow> (case terminate_npemwin fd np of None \<Rightarrow> Stuck | Some cl \<Rightarrow> Turned (status \<noteq> 0, cl, np))
          | Exits \<Rightarrow> Exits | Uses_freed \<Rightarrow> Uses_freed | Stuck \<Rightarrow> Stuck)"

section \<open>The thread of a client\<close>

text \<open>
  The thread works on a copy of the element of the table. The status, the copy that the thread gets,
  and whether a copy is lost: it is not freed when the thread cannot be made.
\<close>

definition client_thread_create ::
  "bool \<Rightarrow> int \<Rightarrow> int \<Rightarrow> 'db conn_element_st \<Rightarrow> int \<times> 'db conn_element_st option \<times> bool" where
  "client_thread_create mem_ok attr_status create_status ce =
     (if \<not> mem_ok then (-1, None, False)
      else
        let status = first_error [attr_status, create_status]
        in if status \<noteq> 0 then (status, None, True) else (0, Some ce, False))"

text \<open>Cancelling and joining; what they return is only reported.\<close>

definition client_thread_kill :: "int \<Rightarrow> int \<Rightarrow> int" where
  "client_thread_kill cancel_status join_status = 0"

section \<open>The replacement of \<open>daemon\<close>\<close>

text \<open>
  What the two processes do: the parent calls \<open>exit\<close>, which runs the functions registered with
  \<open>atexit\<close>; the child gets a status, and its directory.
\<close>

record fork_env =
  fo_fork :: int
  fo_setsid :: bool
  fo_close :: "int list"

datatype after_daemon = Not_forked int | Parent_exits_child int "byte list"

fun close_std :: "int list \<Rightarrow> int \<Rightarrow> int" where
  "close_std [] status = status"
| "close_std (c # cs) status = (if status = 0 then close_std cs c else status)"

definition daemon_replacement :: "fork_env \<Rightarrow> int \<Rightarrow> int \<Rightarrow> byte list \<Rightarrow> after_daemon" where
  "daemon_replacement fe nochdir noclose dir =
     (if fo_fork fe = -1 then Not_forked (-1)
      else if \<not> fo_setsid fe then Parent_exits_child (-1) dir
      else
        let dir = (if nochdir = 0 then [47] else dir)
        in Parent_exits_child (if noclose = 0 then close_std (take 3 (fo_close fe)) 0 else 0) dir)"

section \<open>The server is opened or closed\<close>

text \<open>
  If the listening socket cannot be used, the thread asks the process to quit, and the socket that
  was opened is closed once.
\<close>

lemma failed_server_closed:
  assumes "serverprotocol \<noteq> PROTOCOL_NONE" "valid_str serverport" "li_open_fd le \<noteq> -1" "li_fcntl le" "\<not> li_mem le"
  shows "npemwin_main ops cf le serverprotocol serverport maxnetclients ls np
    = Turned (True, li_open_fd le # snd (release_server_list (np_es np)), np\<lparr>np_sv := None\<rparr>)"
  using assms by (simp add: npemwin_main_def init_npemwin_def init_network_server_def terminate_npemwin_def terminate_network_server_def)

lemma destroy_server_element:
  "conn_table_add_element True now fd CONN_TYPE_SERVER_NET 0 None None opts (conn_table_create m) = (st, ct) \<Longrightarrow>
     st = 0 \<and> conn_table_destroy ct = Some []"
  by (auto simp: conn_table_add_element_def conn_table_create_def conn_table_get_numentries_def conn_table_destroy_def
      conn_element_init1_def conn_element_isclient_def conn_element_release_def split: option.splits)

text \<open>A thread that is told to quit before its first turn closes the socket and the sources once.\<close>

lemma idle_thread_closes:
  fixes np :: "'db np_st"
  assumes "serverprotocol \<noteq> PROTOCOL_NONE" "valid_str serverport" "li_open_fd le \<noteq> -1" "li_fcntl le" "li_mem le"
  shows "\<exists>np'. npemwin_main ops cf le serverprotocol serverport maxnetclients [] np
    = Turned (False, li_open_fd le # snd (release_server_list (np_es np)), np')"
proof -
  obtain ct :: "'db conn_table_st" where ct: "conn_table_add_element True (li_now le) (li_open_fd le) CONN_TYPE_SERVER_NET 0 None None
      \<lparr>co_write_timeout_ms = 0, co_write_timeout_retry = 0, co_reconnect_wait_sleep_secs = 0,
       co_reconnect_wait_sleep_retry = 0, co_queue_read_timeout_ms = 0\<rparr> (conn_table_create maxnetclients) = (0, ct)"
    "conn_table_destroy ct = Some []"
    using destroy_server_element by (metis prod.collapse)
  with assms show ?thesis
    by (simp add: npemwin_main_def init_npemwin_def init_network_server_def terminate_npemwin_def terminate_network_server_def)
qed

text \<open>A flag that was set is seen once.\<close>

lemma flags_seen_once:
  "get_reload_servers_list_flag (set_reload_servers_list_flag p) = (True, p\<lparr>greload_servers_list_flag := False\<rparr>)"
  "fst (get_send_bbclientid_flag (set_send_bbclientid_flag f)) \<and> \<not> snd (get_send_bbclientid_flag f)"
  by (simp_all add: get_reload_servers_list_flag_def set_reload_servers_list_flag_def get_send_bbclientid_flag_def
      set_send_bbclientid_flag_def)

text \<open>The copy of the element is lost exactly when there was memory for it and no thread.\<close>

lemma client_copy_lost:
  "client_thread_create m a c ce = (st, cp, lost) \<Longrightarrow> lost \<longleftrightarrow> m \<and> st \<noteq> 0"
  "client_thread_create m a c ce = (st, cp, lost) \<Longrightarrow> st = 0 \<longleftrightarrow> cp = Some ce"
  by (auto simp: client_thread_create_def Let_def split: if_splits)

end
