(* ===== verification/Periodic.thy ===== *)
theory Periodic
  imports Thread
begin

text \<open>
  What the periodic tasks of \<open>src/per.c\<close> call: the table of the events with their functions, the minute of the
  clock, and the effects of a call of \<open>periodic\<close>, which in \<open>Npemwin\<close> only counts the calls: the flags for the
  thread of the server (\<open>serverm.c\<close>, \<open>npemwin.c\<close>), the line of the counters (\<open>stats.c\<close>) and the scheduler (\<open>exec.c\<close>).
\<close>

section \<open>The events\<close>

datatype event_proc = Set_report_client_connections_flag | Set_send_bbclientid_flag | Nbspstats_update

text \<open>The periods of the table, which \<open>init_periodic\<close> replaces by those of the configuration.\<close>

definition gevents_table :: "(int \<times> event_proc) list" where
  "gevents_table = [(60, Set_report_client_connections_flag), (300, Set_send_bbclientid_flag), (60, Nbspstats_update)]"

text \<open>\<open>gmtoff\<close> is the distance of the local time from that of the system, in seconds.\<close>

definition current_minute :: "int \<Rightarrow> int \<Rightarrow> int" where
  "current_minute gmtoff now = ((now + gmtoff) div 60) mod 60"

record events_st =
  ev_per :: per_st
  ev_report :: bool
  ev_bbid :: bool
  ev_stats :: nbsp_stats
  ev_lines :: "byte list"
  ev_procs :: "proc_end list"

definition call_proc :: "int \<Rightarrow> event_proc \<Rightarrow> events_st \<Rightarrow> events_st" where
  "call_proc now p s =
     (case p of
        Set_report_client_connections_flag \<Rightarrow> s\<lparr>ev_report := True\<rparr>
      | Set_send_bbclientid_flag \<Rightarrow> s\<lparr>ev_bbid := set_send_bbclientid_flag (ev_bbid s)\<rparr>
      | Nbspstats_update \<Rightarrow>
          (case Stats.nbspstats_update (nat now) (ev_stats s) of (st, line) \<Rightarrow> s\<lparr>ev_stats := st, ev_lines := ev_lines s @ line\<rparr>))"

text \<open>The two loops of \<open>periodic\<close>: the functions that are due, in the order of the tables.\<close>

definition events_due :: "int \<Rightarrow> per_st \<Rightarrow> event_proc list" where
  "events_due now p = map snd (filter (\<lambda>(ev, proc). now \<ge> pe_next ev) (zip (gevents p) (map snd gevents_table)))"

definition mevents_due :: "int \<Rightarrow> per_st \<Rightarrow> nat" where
  "mevents_due minute_now p = length (filter (\<lambda>ev. minute_now \<noteq> last_minute ev) (gmevents p))"

definition periodic_calls ::
  "int \<Rightarrow> exec_env \<Rightarrow> byte list option \<Rightarrow> int \<Rightarrow> int \<Rightarrow> int \<times> bool \<times> int \<times> int \<times> int \<Rightarrow> events_st \<Rightarrow> events_st" where
  "periodic_calls gmtoff e scheduler qrunperiod qrunreportperiod =
     (\<lambda>(now, hup, wait_pid, fork_pid, later) s.
        let minute_now = current_minute gmtoff now;
            s1 = fold (call_proc now) (events_due now (ev_per s)) s;
            s2 = s1\<lparr>ev_procs := ev_procs s1 @ concat (replicate (mevents_due minute_now (ev_per s)) (fst (exec_scheduler e scheduler)))\<rparr>
        in s2\<lparr>ev_per := periodic qrunperiod qrunreportperiod now minute_now hup wait_pid fork_pid later (ev_per s)\<rparr>)"

definition periodic_run ::
  "int \<Rightarrow> exec_env \<Rightarrow> byte list option \<Rightarrow> int \<Rightarrow> int \<Rightarrow> (int \<times> bool \<times> int \<times> int \<times> int) list \<Rightarrow> events_st \<Rightarrow> events_st" where
  "periodic_run gmtoff e scheduler qp rp ts s = fold (periodic_calls gmtoff e scheduler qp rp) ts s"

section \<open>One call\<close>

lemma periodic_events: "gevents (periodic qp rp now m hup wp fp lt p) = map (run_event now) (gevents p)"
  by (auto simp: periodic_def Let_def split: prod.splits)

lemma periodic_mevents: "gmevents (periodic qp rp now m hup wp fp lt p) = map (run_mevent m) (gmevents p)"
  by (auto simp: periodic_def Let_def split: prod.splits)

lemma call_procs_procs [simp]: "ev_procs (fold (call_proc now) ps s) = ev_procs s"
  by (induction ps arbitrary: s) (auto simp: call_proc_def split: event_proc.splits prod.splits)

lemma call_procs_per [simp]: "ev_per (fold (call_proc now) ps s) = ev_per s"
  by (induction ps arbitrary: s) (auto simp: call_proc_def split: event_proc.splits prod.splits)

text \<open>
  The functions called are those whose counters go up: each event, once when it is due and not at all
  otherwise.
\<close>

lemma due_counts:
  assumes "length (gevents p) = 3" "i < 3"
  shows "pe_calls (gevents (periodic qp rp now m hup wp fp lt p) ! i)
    = pe_calls (gevents p ! i) + count_list (events_due now p) (snd (gevents_table ! i))"
proof -
  obtain a b c where g: "gevents p = [a, b, c]"
    using assms(1) by (metis (no_types) length_0_conv length_Suc_conv numeral_3_eq_3)
  have "i = 0 \<or> i = 1 \<or> i = 2" using assms(2) by auto
  then show ?thesis
    by (auto simp: periodic_events g events_due_def gevents_table_def run_event_def)
qed

text \<open>The effects: two flags that stay set until they are read, and a line with the counters, which start again at zero.\<close>

lemma periodic_effects:
  assumes g: "gevents (ev_per s) = [a, b, c]" and r: "periodic_calls off e sched qp rp (now, hup, wp, fp, lt) s = s'"
  shows "ev_report s' \<longleftrightarrow> now \<ge> pe_next a \<or> ev_report s"
    and "ev_bbid s' \<longleftrightarrow> now \<ge> pe_next b \<or> ev_bbid s"
    and "now \<ge> pe_next c \<Longrightarrow> ev_lines s' = ev_lines s @ nbspstats_report ((ev_stats s)\<lparr>stats_time := nat now\<rparr>)
           \<and> frames_received (ev_stats s') = 0"
    and "now < pe_next c \<Longrightarrow> ev_lines s' = ev_lines s \<and> ev_stats s' = ev_stats s"
  using r by (auto simp: periodic_calls_def events_due_def gevents_table_def g call_proc_def set_send_bbclientid_flag_def
      Stats.nbspstats_update_def init_counters_def Let_def split: if_splits)

section \<open>The scheduler\<close>

lemma current_minute_range: "0 \<le> current_minute off now \<and> current_minute off now < 60"
  by (simp add: current_minute_def)

text \<open>Up to 59 minutes apart, any two minutes are told apart by the minute of the clock.\<close>

lemma div_60_bounds:
  fixes a :: int
  shows "60 * (a div 60) \<le> a" "a < 60 * (a div 60) + 60"
  by presburger+

lemma current_minute_eq:
  assumes "t \<le> t'" "t' \<le> t + 3540"
  shows "current_minute off t = current_minute off t' \<longleftrightarrow> (t + off) div 60 = (t' + off) div 60"
proof
  define m m' where "m = (t + off) div 60" and "m' = (t' + off) div 60"
  have "m \<le> m'" "m' < m + 60"
    using assms div_60_bounds [of "t + off"] div_60_bounds [of "t' + off"] unfolding m_def m'_def by linarith+
  moreover assume "current_minute off t = current_minute off t'"
  then have "60 dvd m' - m" by (simp add: current_minute_def m_def m'_def mod_eq_dvd_iff [symmetric])
  ultimately have "m = m'" using zdvd_imp_le [of 60 "m' - m"] by linarith
  then show "(t + off) div 60 = (t' + off) div 60" by (simp add: m_def m'_def)
qed (simp add: current_minute_def)

lemma minute_step:
  assumes "t \<le> t'" "t' \<le> t + 60"
  shows "(t' + off) div 60 = (t + off) div 60 + (if current_minute off t' \<noteq> current_minute off t then 1 else (0 :: int))"
proof -
  have "(t + off) div 60 \<le> (t' + off) div 60 \<and> (t' + off) div 60 \<le> (t + off) div 60 + 1"
    using assms div_60_bounds [of "t + off"] div_60_bounds [of "t' + off"] by linarith
  then show ?thesis using current_minute_eq [of t t' off] assms by auto
qed

text \<open>
  The scheduler is started once in every minute: if the tasks are looked at at least every minute, then from
  the time \<open>t\<close> on, when the minute was last noted, it was started as often as a minute began, no matter what else the
  periodic tasks do.
\<close>

theorem scheduler_every_minute:
  assumes "gmevents (ev_per s) = [ev]" "last_minute ev = current_minute off t"
    and "successively (\<lambda>a b. a \<le> b \<and> b \<le> a + 60) (t # map fst ts)"
    and "valid_str scheduler" "ex_exists e (the scheduler) = 0" "ex_fork1 e" "ex_fork2 e" "ex_execl e"
  shows "int (count_list (ev_procs (periodic_run off e scheduler qp rp ts s)) (Exec (the scheduler)))
    = int (count_list (ev_procs s) (Exec (the scheduler))) + ((last (t # map fst ts) + off) div 60 - (t + off) div 60)"
  using assms(1-3)
proof (induction ts arbitrary: s ev t)
  case Nil
  then show ?case by (simp add: periodic_run_def)
next
  case (Cons x ts)
  obtain now hup wp fp lt where x: "x = (now, hup, wp, fp, lt)" by (cases x)
  define s' where "s' = periodic_calls off e scheduler qp rp x s"
  define m where "m = current_minute off now"
  have step: "t \<le> now" "now \<le> t + 60" and rest: "successively (\<lambda>a b. a \<le> b \<and> b \<le> a + 60) (now # map fst ts)"
    using Cons.prems(3) x by simp_all
  have ex: "fst (exec_scheduler e scheduler) = [Exit 0, Exec (the scheduler)]"
    using assms(4-8) by (simp add: exec_scheduler_def exec_external_program_def)
  have g: "gmevents (ev_per s') = [run_mevent m ev]" "last_minute (run_mevent m ev) = current_minute off now"
    using Cons.prems(1) by (simp_all add: s'_def x periodic_calls_def Let_def periodic_mevents m_def run_mevent_def)
  have "count_list (ev_procs s') (Exec (the scheduler))
      = count_list (ev_procs s) (Exec (the scheduler)) + (if m \<noteq> current_minute off t then 1 else 0)"
    using Cons.prems(1,2) by (auto simp: s'_def x periodic_calls_def Let_def mevents_due_def m_def ex)
  moreover have "periodic_run off e scheduler qp rp (x # ts) s = periodic_run off e scheduler qp rp ts s'"
    by (simp add: periodic_run_def s'_def)
  moreover have "last (t # map fst (x # ts)) = last (now # map fst ts)" by (simp add: x)
  ultimately show ?case
    using Cons.IH [OF g rest] minute_step [OF step, of off] by (simp add: m_def)
qed

theorem scheduler_every_minute_witness:
  "count_list (ev_procs (periodic_run 0 \<lparr>ex_exists = (\<lambda>_. 0), ex_fork1 = True, ex_fork2 = True, ex_execl = True\<rparr> (Some [115]) 5 0
      [(30, False, -1, -1, 30), (70, False, -1, -1, 70), (125, True, -1, -1, 125)]
      \<lparr>ev_per = per0\<lparr>gmevents := [\<lparr>last_minute = 0, me_calls = 0\<rparr>]\<rparr>, ev_report = False, ev_bbid = False,
       ev_stats = nbspstats_init 0 \<lparr>frames_processed = 0, frames_bad = 0, frames_received = 0, frames_data_size = 0, stats_time = 0\<rparr>,
       ev_lines = [], ev_procs = []\<rparr>)) (Exec [115]) = 2"
  using scheduler_every_minute [of "\<lparr>ev_per = per0\<lparr>gmevents := [\<lparr>last_minute = 0, me_calls = 0\<rparr>]\<rparr>, ev_report = False, ev_bbid = False,
       ev_stats = nbspstats_init 0 \<lparr>frames_processed = 0, frames_bad = 0, frames_received = 0, frames_data_size = 0, stats_time = 0\<rparr>,
       ev_lines = [], ev_procs = []\<rparr>" "\<lparr>last_minute = 0, me_calls = 0\<rparr>" 0 10
      "[(30, False, -1, -1, 30), (70, False, -1, -1, 70), (125, True, -1, -1, 125)]" "Some [115]"
      "\<lparr>ex_exists = (\<lambda>_. 0), ex_fork1 = True, ex_fork2 = True, ex_execl = True\<rparr>" 5 0]
  by (simp add: current_minute_def valid_str_def)

end
