(* ===== verification/Multicast.thy ===== *)
theory Multicast
  imports Sockets
begin

text \<open>
  \<open>filters/panfilter/c\<close>: the sockets of the multicast filter (\<open>mcast.c\<close>) and the two programs that
  send and print datagrams (\<open>npemwinudpsend.c\<close>, \<open>npemwinudprecv.c\<close>).
\<close>

section \<open>Multicast\<close>

text \<open>The first address that gives a socket; \<open>alloc\<close>: its address could be copied.\<close>

fun udp_client_addrs :: "int \<Rightarrow> sk_env list \<Rightarrow> int \<times> bool" where
  "udp_client_addrs sfd [] = (sfd, False)"
| "udp_client_addrs sfd (a # as) = (if sk_socket a \<ge> 0 then (sk_socket a, True) else udp_client_addrs (sk_socket a) as)"

definition udp_client :: "int \<times> sk_env list \<Rightarrow> bool \<Rightarrow> int \<times> int \<times> int list \<times> int list" where
  "udp_client gai alloc =
     (case gai of
        (code, as) \<Rightarrow> if code \<noteq> 0 then (code, -1, [], [])
                     else case udp_client_addrs (-1) as of
                         (sfd, False) \<Rightarrow> (0, sfd, [], [])
                       | (sfd, True) \<Rightarrow> if alloc then (0, sfd, [sfd], []) else (0, -1, [sfd], [sfd]))"

text \<open>The descriptor of the last address is returned, also when it has been closed.\<close>

fun udp_server_addrs :: "int \<Rightarrow> sk_env list \<Rightarrow> int \<times> int list \<times> int list" where
  "udp_server_addrs sfd [] = (sfd, [], [])"
| "udp_server_addrs sfd (a # as) =
     (let sfd = sk_socket a in
      if sfd > 0 \<and> sk_bind a then (sfd, [sfd], [])
      else case udp_server_addrs sfd as of
          (r, op, cl) \<Rightarrow> (r, (if sfd \<ge> 0 then [sfd] else []) @ op, (if sfd > 0 then [sfd] else []) @ cl))"

definition udp_server :: "int \<times> sk_env list \<Rightarrow> int \<times> int \<times> int list \<times> int list" where
  "udp_server gai =
     (case gai of (code, as) \<Rightarrow> if code \<noteq> 0 then (code, -1, [], []) else (0, udp_server_addrs (-1) as))"

text \<open>
  The address of an interface is a word; \<open>inet_aton\<close> and the \<open>ioctl\<close> for the address of an interface
  are arguments, and so are the calls of \<open>setsockopt\<close>.
\<close>

record mc_env =
  mc_aton :: "byte list \<Rightarrow> u32 option"
  mc_ifaddr :: "byte list \<Rightarrow> u32 option"
  mc_rcvbuf :: bool
  mc_reuseport :: bool
  mc_bind :: bool
  mc_member :: bool
  mc_loop :: bool
  mc_if :: bool
  mc_ttl :: bool
  mc_setloop :: bool

definition IFNAMSIZ :: nat where "IFNAMSIZ = 16"

definition mcast_interface :: "mc_env \<Rightarrow> byte list option \<Rightarrow> byte list option \<Rightarrow> u32 option" where
  "mcast_interface e ifname ifip =
     (case ifip of
        Some ip \<Rightarrow> mc_aton e ip
      | None \<Rightarrow> (case ifname of
            Some n \<Rightarrow> mc_ifaddr e (take (IFNAMSIZ - 1) n)
          | None \<Rightarrow> Some 0))"

text \<open>The options of the socket that the functions set.\<close>

record udp_opts =
  o_member :: "u32 option"
  o_loop :: "byte option"
  o_if :: "u32 option"
  o_ttl :: "byte option"

definition mcast_snd_setif :: "mc_env \<Rightarrow> byte list option \<Rightarrow> byte list option \<Rightarrow> udp_opts \<Rightarrow> int \<times> udp_opts" where
  "mcast_snd_setif e ifname ifip o1 =
     (case mcast_interface e ifname ifip of
        None \<Rightarrow> (-1, o1)
      | Some a \<Rightarrow> if mc_if e then (0, o1\<lparr>o_if := Some a\<rparr>) else (-1, o1))"

definition mcast_snd_setttl :: "mc_env \<Rightarrow> int \<Rightarrow> udp_opts \<Rightarrow> int \<times> udp_opts" where
  "mcast_snd_setttl e ttl o1 =
     (if ttl < 1 \<or> ttl > 255 then (-1, o1)
      else if mc_ttl e then (0, o1\<lparr>o_ttl := Some (of_int ttl)\<rparr>) else (-1, o1))"

definition mcast_snd_setloop :: "mc_env \<Rightarrow> int \<Rightarrow> udp_opts \<Rightarrow> int \<times> udp_opts" where
  "mcast_snd_setloop e onoff o1 =
     (if mc_setloop e then (0, o1\<lparr>o_loop := Some (of_int onoff)\<rparr>) else (-1, o1))"

definition no_opts :: udp_opts where
  "no_opts = \<lparr>o_member = None, o_loop = None, o_if = None, o_ttl = None\<rparr>"

definition mcast_snd ::
  "mc_env \<Rightarrow> int \<times> sk_env list \<Rightarrow> bool \<Rightarrow> byte list option \<Rightarrow> byte list option \<Rightarrow> int \<Rightarrow> (int \<times> int \<times> int list \<times> int list) \<times> udp_opts" where
  "mcast_snd e gai alloc ifname ifip ttl =
     (case udp_client gai alloc of
        (code, sfd, op, cl) \<Rightarrow>
          if sfd < 0 then ((code, -1, op, cl), no_opts)
          else let (status, o1) = (if mc_loop e then (0, no_opts\<lparr>o_loop := Some 0\<rparr>) else (-1, no_opts));
                   (status, o1) = (if status = 0 then mcast_snd_setif e ifname ifip o1 else (status, o1));
                   (status, o1) = (if status = 0 then mcast_snd_setttl e ttl o1 else (status, o1));
                   (status, o1) = (if status = 0 then mcast_snd_setloop e 0 o1 else (status, o1))
               in if status = -1 then ((code, -1, op, cl @ [sfd]), o1) else ((code, sfd, op, cl), o1))"

definition mcast_rcv ::
  "mc_env \<Rightarrow> int \<times> sk_env list \<Rightarrow> bool \<Rightarrow> byte list option \<Rightarrow> byte list option \<Rightarrow> int \<Rightarrow> (int \<times> int \<times> int list \<times> int list) \<times> udp_opts" where
  "mcast_rcv e gai alloc ifname ifip udprcvsize =
     (case udp_client gai alloc of
        (code, sfd, op, cl) \<Rightarrow>
          if sfd < 0 then ((code, -1, op, cl), no_opts)
          else let status = (if udprcvsize > 0 then andthen (mc_rcvbuf e) 0 else 0);
                   status = andthen (mc_reuseport e) status;
                   status = andthen (mc_bind e) status;
                   status = andthen (mcast_interface e ifname ifip \<noteq> None) status;
                   status = andthen (mc_member e) status
               in if status \<noteq> 0 then ((code, -1, op, cl @ [sfd]), no_opts)
                  else ((code, sfd, op, cl), no_opts\<lparr>o_member := mcast_interface e ifname ifip\<rparr>))"

definition mcast_snd_default ::
  "mc_env \<Rightarrow> int \<times> sk_env list \<Rightarrow> bool \<Rightarrow> int \<Rightarrow> (int \<times> int \<times> int list \<times> int list) \<times> udp_opts" where
  "mcast_snd_default e gai alloc ttl = mcast_snd e gai alloc None None ttl"

definition mcast_rcv_default ::
  "mc_env \<Rightarrow> int \<times> sk_env list \<Rightarrow> bool \<Rightarrow> (int \<times> int \<times> int list \<times> int list) \<times> udp_opts" where
  "mcast_rcv_default e gai alloc = mcast_rcv e gai alloc None None (-1)"

section \<open>The programs\<close>

text \<open>\<open>fgets\<close> with a buffer of \<open>w\<close> bytes: what it stores and what is left.\<close>

definition STRSIZE :: nat where "STRSIZE = 512"

definition fgets :: "nat \<Rightarrow> byte list \<Rightarrow> byte list \<times> byte list" where
  "fgets w s = (let n = min (w - 1) (length (takeWhile (\<lambda>c. c \<noteq> 10) s) + 1) in (take n s, drop n s))"

lemma fgets_shorter: "1 < w \<Longrightarrow> s \<noteq> [] \<Longrightarrow> length (snd (fgets w s)) < length s"
  by (simp add: fgets_def Let_def)

text \<open>
  The loop over the standard input. \<open>ok i\<close>: the call of \<open>sendto\<close> number \<open>i\<close> succeeds. After an error
  one more line is read, and not sent. The status and the datagrams.
\<close>

function udpsend_loop :: "(nat \<Rightarrow> bool) \<Rightarrow> nat \<Rightarrow> byte list \<Rightarrow> int \<times> byte list list" where
  "udpsend_loop ok i s =
     (if s = [] then (0, [])
      else let (str, s') = fgets STRSIZE s in
        if ok i then (case udpsend_loop ok (Suc i) s' of (status, ds) \<Rightarrow> (status, cstring str # ds))
        else (-1, []))"
  by pat_completeness auto
termination
  by (relation "measure (\<lambda>(ok, i, s). length s)")
     (simp_all add: STRSIZE_def, metis fgets_shorter one_less_numeral_iff semiring_norm(76) snd_conv)

declare udpsend_loop.simps [simp del]

text \<open>\<open>Inl\<close> is an exit with an error.\<close>

definition udpsend ::
  "int \<times> sk_env list \<Rightarrow> bool \<Rightarrow> (nat \<Rightarrow> bool) \<Rightarrow> byte list option \<Rightarrow> byte list \<Rightarrow> unit + byte list list" where
  "udpsend gai alloc ok opt_str inp =
     (case udp_client gai alloc of
        (code, fd, op, cl) \<Rightarrow>
          if fd < 0 then Inl ()
          else case (case opt_str of Some str \<Rightarrow> (if ok 0 then (0, [str]) else (-1, [])) | None \<Rightarrow> udpsend_loop ok 0 inp) of
              (status, ds) \<Rightarrow> if status = (-1 :: int) then Inl () else Inr ds)"

text \<open>The text of the address of the sender, in a buffer of \<open>INET_ADDRSTRLEN\<close> characters.\<close>

definition INET_ADDRSTRLEN :: nat where "INET_ADDRSTRLEN = 16"

definition sock_ntop :: "in_addr \<Rightarrow> byte list option" where
  "sock_ntop sin_addr = (if length (inet_ntoa sin_addr) < INET_ADDRSTRLEN then Some (inet_ntoa sin_addr) else None)"

lemma sock_ntop_text: "sock_ntop a = Some (inet_ntoa a)"
proof -
  have d: "length (dec (unat b)) \<le> 3" for b :: byte
    using unsigned_less [of b, where ?'a = nat] by (intro length_dec_le) simp_all
  have "length (inet_ntoa (a1, a2, a3, a4)) < 16" for a1 a2 a3 a4
    using d [of a1] d [of a2] d [of a3] d [of a4] by (simp add: inet_ntoa_def)
  then show ?thesis by (cases a) (simp add: sock_ntop_def INET_ADDRSTRLEN_def)
qed

lemma sock_ntop_inj: "sock_ntop a = sock_ntop b \<longleftrightarrow> a = b"
  by (simp add: sock_ntop_text inet_ntoa_inj)

text \<open>
  What the receiver prints for a datagram from \<open>addr\<close>: the kernel stores at most \<open>sz - 1\<close> bytes
  in the cleared buffer, which is printed as a string.
\<close>

definition recv_line :: "nat \<Rightarrow> in_addr \<times> byte list \<Rightarrow> byte list" where
  "recv_line sz = (\<lambda>(addr, d). the (sock_ntop addr) @ [32] @ cstring (take (sz - 1) d) @ [10])"

text \<open>
  The loop until \<open>recvfrom\<close> fails, which is the end of the list. \<open>None\<close>: a size that is not positive,
  for which the length given to \<open>recvfrom\<close> is not that of the buffer.
\<close>

primrec recv_loop :: "nat \<Rightarrow> (in_addr \<times> byte list) list \<Rightarrow> byte list" where
  "recv_loop sz [] = []"
| "recv_loop sz (d # ds) = recv_line sz d @ recv_loop sz ds"

definition udprecv :: "int \<times> sk_env list \<Rightarrow> int \<Rightarrow> (in_addr \<times> byte list) list \<Rightarrow> (unit + byte list) option" where
  "udprecv gai sz ds =
     (case udp_server gai of
        (code, sfd, op, cl) \<Rightarrow>
          if sfd < 0 then Some (Inl ()) else if sz \<le> 0 then None else Some (Inr (recv_loop (nat sz) ds)))"

text \<open>
  The two programs. An option is its argument, or \<open>None\<close> for one that is not known; the addresses depend
  on the names of the host and of the service.
\<close>

definition atoi :: "byte list \<Rightarrow> int" where
  "atoi s = (case strtol s of None \<Rightarrow> 0 | Some (v, _, _) \<Rightarrow> c_int_of v)"

fun recv_opts :: "byte list option list \<Rightarrow> int \<Rightarrow> int option" where
  "recv_opts [] sz = Some sz"
| "recv_opts (Some arg # os) sz = recv_opts os (atoi arg)"
| "recv_opts (None # os) sz = None"

definition udprecv_main ::
  "(byte list \<Rightarrow> byte list \<Rightarrow> int \<times> sk_env list) \<Rightarrow> byte list option list \<Rightarrow> byte list list \<Rightarrow> (in_addr \<times> byte list) list
     \<Rightarrow> (unit + byte list) option" where
  "udprecv_main gai opts args ds =
     (case recv_opts opts 512 of
        None \<Rightarrow> Some (Inl ())
      | Some sz \<Rightarrow>
          (case args of
             [service] \<Rightarrow> udprecv (gai (cstr ''0.0.0.0'') service) sz ds
           | [host, service] \<Rightarrow> udprecv (gai host service) sz ds
           | _ \<Rightarrow> Some (Inl ())))"

fun send_opts :: "byte list option list \<Rightarrow> byte list option \<Rightarrow> byte list option option" where
  "send_opts [] str = Some str"
| "send_opts (Some arg # os) str = send_opts os (Some arg)"
| "send_opts (None # os) str = None"

definition udpsend_main ::
  "(byte list \<Rightarrow> byte list \<Rightarrow> int \<times> sk_env list) \<Rightarrow> bool \<Rightarrow> (nat \<Rightarrow> bool) \<Rightarrow> byte list option list \<Rightarrow> byte list list \<Rightarrow> byte list
     \<Rightarrow> unit + byte list list" where
  "udpsend_main gai alloc ok opts args inp =
     (case send_opts opts None of
        None \<Rightarrow> Inl ()
      | Some str \<Rightarrow> (case args of [host, service] \<Rightarrow> udpsend (gai host service) alloc ok str inp | _ \<Rightarrow> Inl ()))"

text \<open>A size of zero is accepted on the command line, and then the receiver writes beyond its buffer.\<close>

lemma zero_size_accepted:
  assumes "udp_server (gai (cstr ''0.0.0.0'') port) = (code, sfd, op, cl)" "sfd \<ge> 0"
  shows "udprecv_main gai [Some (cstr ''0'')] [port] ds = None"
proof -
  have "atoi (cstr ''0'') = 0" by code_simp
  with assms show ?thesis by (simp add: udprecv_main_def udprecv_def)
qed

section \<open>Descriptors and options\<close>

lemma udp_client_addrs_result:
  "valid_sockets as \<Longrightarrow> udp_client_addrs (-1) as = (r, found) \<Longrightarrow> (if found then r \<ge> 0 else r = -1)"
proof (induction as)
  case (Cons a as)
  show ?case
  proof (cases "sk_socket a \<ge> 0")
    case False
    then have "sk_socket a = -1" using Cons.prems(1) by simp
    with Cons show ?thesis by simp
  qed (use Cons.prems in auto)
qed auto

lemma udp_client_accounted:
  assumes "valid_sockets (snd gai)"
  shows "accounted (snd (udp_client gai alloc))"
proof -
  obtain r found where r: "udp_client_addrs (-1) (snd gai) = (r, found)" by fastforce
  from udp_client_addrs_result [OF assms r] r show ?thesis
    by (cases gai; cases found) (auto simp: udp_client_def)
qed

lemma mcast_snd_accounted:
  assumes "valid_sockets (snd gai)"
  shows "accounted (snd (fst (mcast_snd e gai alloc ifname ifip ttl)))"
  using udp_client_accounted [OF assms, of alloc]
  by (cases "udp_client gai alloc") (auto simp: mcast_snd_def Let_def split: prod.splits if_splits)

lemma mcast_rcv_accounted:
  assumes "valid_sockets (snd gai)"
  shows "accounted (snd (fst (mcast_rcv e gai alloc ifname ifip sz)))"
  using udp_client_accounted [OF assms, of alloc]
  by (cases "udp_client gai alloc") (auto simp: mcast_rcv_def Let_def)

interpretation mc_snd: descriptor_user
  "\<lambda>(e, gai, alloc, ifname, ifip, ttl). snd (fst (mcast_snd e gai alloc ifname ifip ttl))"
  "\<lambda>(e, gai, alloc, ifname, ifip, ttl). valid_sockets (snd gai)"
  by unfold_locales (auto intro!: mcast_snd_accounted simp del: accounted.simps)

interpretation mc_rcv: descriptor_user
  "\<lambda>(e, gai, alloc, ifname, ifip, sz). snd (fst (mcast_rcv e gai alloc ifname ifip sz))"
  "\<lambda>(e, gai, alloc, ifname, ifip, sz). valid_sockets (snd gai)"
  by unfold_locales (auto intro!: mcast_rcv_accounted simp del: accounted.simps)

text \<open>
  A socket returned for sending does not loop its datagrams back, has the time to live that was
  asked for, which fits a byte, and sends over the chosen interface.
\<close>

lemma mcast_snd_options:
  assumes "mcast_snd e gai alloc ifname ifip ttl = ((code, sfd, op, cl), o1)" "0 \<le> sfd"
  shows "o_loop o1 = Some 0" "1 \<le> ttl" "map_option uint (o_ttl o1) = Some ttl"
    "o_if o1 = mcast_interface e ifname ifip" "o_if o1 \<noteq> None"
proof -
  have u: "uint (word_of_int ttl :: byte) = ttl" if "1 \<le> ttl" "ttl \<le> 255"
    using that by (simp add: uint_word_of_int take_bit_int_eq_self)
  show "o_loop o1 = Some 0" "1 \<le> ttl" "map_option uint (o_ttl o1) = Some ttl"
    "o_if o1 = mcast_interface e ifname ifip" "o_if o1 \<noteq> None"
    using assms
    by (auto simp: mcast_snd_def mcast_snd_setif_def mcast_snd_setttl_def mcast_snd_setloop_def
        Let_def u split: prod.splits if_splits option.splits)
qed

text \<open>
  When the only socket cannot be bound, \<open>udp_server\<close> closes its descriptor and returns it.
\<close>

lemma udp_server_closed_descriptor:
  assumes "sk_socket a > 0" "\<not> sk_bind a"
  shows "udp_server (0, [a]) = (0, sk_socket a, [sk_socket a], [sk_socket a])"
    "\<not> accounted (snd (udp_server (0, [a])))"
  using assms by (simp_all add: udp_server_def Let_def)

section \<open>Sending and receiving text\<close>

lemma fgets_append: "fgets w s = (a, b) \<Longrightarrow> s = a @ b"
  by (auto simp: fgets_def Let_def)

lemma fgets_width: "fgets w s = (a, b) \<Longrightarrow> length a \<le> w - 1"
  by (auto simp: fgets_def Let_def)

lemma udpsend_loop_all:
  assumes "0 \<notin> set s"
  shows "\<exists>ds. udpsend_loop (\<lambda>_. True) i s = (0, ds) \<and> concat ds = s \<and> (\<forall>d \<in> set ds. length d < STRSIZE \<and> 0 \<notin> set d)"
  using assms
proof (induction s arbitrary: i rule: length_induct)
  case (1 s)
  show ?case
  proof (cases "s = []")
    case False
    obtain a b where f: "fgets STRSIZE s = (a, b)" by (cases "fgets STRSIZE s") auto
    note ab = fgets_append [OF f]
    have "length b < length s" using fgets_shorter [of STRSIZE s] f False by (simp add: STRSIZE_def)
    moreover have "0 \<notin> set a" "0 \<notin> set b" using "1.prems" ab by auto
    ultimately obtain ds where "udpsend_loop (\<lambda>_. True) (Suc i) b = (0, ds)" "concat ds = b"
      "\<forall>d \<in> set ds. length d < STRSIZE \<and> 0 \<notin> set d"
      using "1.IH" by blast
    with f False ab \<open>0 \<notin> set a\<close> fgets_width [OF f] show ?thesis
      by (intro exI [of _ "a # ds"], subst udpsend_loop.simps) (auto simp: STRSIZE_def)
  qed (simp add: udpsend_loop.simps)
qed

lemma recv_loop_whole:
  "\<forall>d \<in> set ds. length d < sz \<and> 0 \<notin> set d \<Longrightarrow>
     recv_loop sz (map (Pair addr) ds) = concat (map (\<lambda>d. inet_ntoa addr @ [32] @ d @ [10]) ds)"
  by (induction ds) (auto simp: recv_line_def sock_ntop_text)

text \<open>
  A text without NUL bytes that is piped through the sender arrives whole: it is cut into
  datagrams of at most 511 bytes that make up the text, and a receiver with the default size
  of 512, or a larger one, prints each of them unchanged after the address.
\<close>

theorem text_sent_and_printed:
  assumes "0 \<notin> set txt" "udp_client gai alloc = (0, fd, op, cl)" "0 \<le> fd"
    and "fst (snd (udp_server gai')) \<ge> 0" "512 \<le> sz"
  shows "\<exists>ds. udpsend gai alloc (\<lambda>_. True) None txt = Inr ds \<and> concat ds = txt
     \<and> (\<forall>d \<in> set ds. length d \<le> 511)
     \<and> udprecv gai' sz (map (Pair addr) ds) = Some (Inr (concat (map (\<lambda>d. inet_ntoa addr @ [32] @ d @ [10]) ds)))"
proof -
  obtain ds where d: "udpsend_loop (\<lambda>_. True) 0 txt = (0, ds)" "concat ds = txt"
    "\<forall>d \<in> set ds. length d < STRSIZE \<and> 0 \<notin> set d"
    using udpsend_loop_all [OF assms(1)] by blast
  have "\<forall>d \<in> set ds. length d < nat sz \<and> 0 \<notin> set d" using d(3) assms(5) by (auto simp: STRSIZE_def)
  then have "udprecv gai' sz (map (Pair addr) ds) = Some (Inr (concat (map (\<lambda>d. inet_ntoa addr @ [32] @ d @ [10]) ds)))"
    using recv_loop_whole [of ds "nat sz" addr] assms(4,5) by (auto simp: udprecv_def split: prod.splits)
  moreover have "udpsend gai alloc (\<lambda>_. True) None txt = Inr ds"
    using d(1) assms(2,3) by (simp add: udpsend_def)
  moreover have "\<forall>d \<in> set ds. length d \<le> 511" using d(3) by (auto simp: STRSIZE_def)
  ultimately show ?thesis using d(2) by blast
qed

theorem text_sent_and_printed_witness:
  "\<exists>ds. udpsend (0, [sk_ok]) True (\<lambda>_. True) None [65, 10, 66] = Inr ds \<and> concat ds = [65, 10, 66]
     \<and> udprecv (0, [sk_ok]) 512 (map (Pair (10, 0, 0, 1)) ds) = Some (Inr (concat (map (\<lambda>d. cstr ''10.0.0.1'' @ [32] @ d @ [10]) ds)))"
proof -
  have "udp_client (0, [sk_ok]) True = (0, 7, [7], [])" by (simp add: udp_client_def sk_ok_def)
  moreover have "fst (snd (udp_server (0, [sk_ok]))) \<ge> 0" by (simp add: udp_server_def sk_ok_def)
  moreover have a: "inet_ntoa (10, 0, 0, 1) = cstr ''10.0.0.1''" by code_simp
  ultimately show ?thesis
    using text_sent_and_printed [of "[65, 10, 66]" "(0, [sk_ok])" True 7 "[7]" "[]" "(0, [sk_ok])" 512 "(10, 0, 0, 1)"] a
    by auto
qed

end
