(* ===== verification/Conn_Access.thy ===== *)
theory Conn_Access
  imports Conn
begin

text \<open>
  The access functions of \<open>src/libconnth\<close>: what \<open>cs.c\<close>, \<open>ce.c\<close> and \<open>conn.c\<close> let the application
  read and write of an element and of the table, the entry points of \<open>poll.c\<close> and the versions
  of the table operations that take the mutex. Two contracts are stated as locales: a member of an
  element that can be set and read, and a slot of every element of the table. The table under
  deletion and addition is then described by what its access functions give.
\<close>

section \<open>Elements\<close>

definition conn_stats_get_ctime :: "conn_stats_st \<Rightarrow> nat" where
  "conn_stats_get_ctime cs = cs_ctime cs"

definition conn_element_get_fd :: "'db conn_element_st \<Rightarrow> int" where
  "conn_element_get_fd ce = ce_fd ce"
definition conn_element_get_pid :: "'db conn_element_st \<Rightarrow> int" where
  "conn_element_get_pid ce = ce_pid ce"
definition conn_element_get_type :: "'db conn_element_st \<Rightarrow> conn_type" where
  "conn_element_get_type ce = ce_type ce"
definition conn_element_get_ip :: "'db conn_element_st \<Rightarrow> byte list option" where
  "conn_element_get_ip ce = ce_ip ce"
definition conn_element_get_name :: "'db conn_element_st \<Rightarrow> byte list option" where
  "conn_element_get_name ce = ce_name ce"
definition conn_element_get_appdata :: "'db conn_element_st \<Rightarrow> int option" where
  "conn_element_get_appdata ce = appdata ce"
definition conn_element_get_filterdata :: "'db conn_element_st \<Rightarrow> int option" where
  "conn_element_get_filterdata ce = filterdata ce"
definition conn_element_get_queue :: "'db conn_element_st \<Rightarrow> 'db connqueue_st ptr" where
  "conn_element_get_queue ce = ce_cq ce"
definition conn_element_get_cstats :: "'db conn_element_st \<Rightarrow> conn_stats_st" where
  "conn_element_get_cstats ce = ce_cs ce"
definition conn_element_get_ctime :: "'db conn_element_st \<Rightarrow> nat" where
  "conn_element_get_ctime ce = conn_stats_get_ctime (ce_cs ce)"
definition conn_element_get_exit_flag :: "'db conn_element_st \<Rightarrow> bool" where
  "conn_element_get_exit_flag ce = f_exit ce"
definition conn_element_get_write_timeout_ms :: "'db conn_element_st \<Rightarrow> int" where
  "conn_element_get_write_timeout_ms ce = co_write_timeout_ms (ce_opts ce)"
definition conn_element_get_write_timeout_retry :: "'db conn_element_st \<Rightarrow> int" where
  "conn_element_get_write_timeout_retry ce = co_write_timeout_retry (ce_opts ce)"
definition conn_element_get_reconnect_wait_sleep_secs :: "'db conn_element_st \<Rightarrow> int" where
  "conn_element_get_reconnect_wait_sleep_secs ce = co_reconnect_wait_sleep_secs (ce_opts ce)"
definition conn_element_get_reconnect_wait_sleep_retry :: "'db conn_element_st \<Rightarrow> int" where
  "conn_element_get_reconnect_wait_sleep_retry ce = co_reconnect_wait_sleep_retry (ce_opts ce)"
definition conn_element_get_queue_read_timeout_ms :: "'db conn_element_st \<Rightarrow> int" where
  "conn_element_get_queue_read_timeout_ms ce = co_queue_read_timeout_ms (ce_opts ce)"

section \<open>The table\<close>

text \<open>
  Every access to element \<open>i\<close> of the table is a function of its two entries; \<open>None\<close> is the
  failed assertion, and, where the code has none, a read beyond the elements in use.
\<close>

definition element_at :: "nat \<Rightarrow> 'db conn_table_st \<Rightarrow> (pollfd \<times> 'db conn_element_st) option" where
  "element_at i ct = (if i < conn_table_get_numentries ct then Some (ct_pfd ct ! i, ct_ce ct ! i) else None)"

definition conn_table_get_element_fd :: "nat \<Rightarrow> 'db conn_table_st \<Rightarrow> int option" where
  "conn_table_get_element_fd i ct = map_option (\<lambda>(p, ce). p_fd p) (element_at i ct)"
definition conn_table_get_element_type :: "nat \<Rightarrow> 'db conn_table_st \<Rightarrow> conn_type option" where
  "conn_table_get_element_type i ct = map_option (\<lambda>(p, ce). ce_type ce) (element_at i ct)"
definition conn_table_get_element_pid :: "nat \<Rightarrow> 'db conn_table_st \<Rightarrow> int option" where
  "conn_table_get_element_pid i ct = map_option (\<lambda>(p, ce). ce_pid ce) (element_at i ct)"
definition conn_table_get_element_ip :: "nat \<Rightarrow> 'db conn_table_st \<Rightarrow> byte list option option" where
  "conn_table_get_element_ip i ct = map_option (\<lambda>(p, ce). ce_ip ce) (element_at i ct)"
definition conn_table_get_element_name :: "nat \<Rightarrow> 'db conn_table_st \<Rightarrow> byte list option option" where
  "conn_table_get_element_name i ct = map_option (\<lambda>(p, ce). ce_name ce) (element_at i ct)"
definition conn_table_get_element_nameorip :: "nat \<Rightarrow> 'db conn_table_st \<Rightarrow> byte list option option" where
  "conn_table_get_element_nameorip i ct = map_option (\<lambda>(p, ce). conn_element_get_nameorip ce) (element_at i ct)"
definition conn_table_get_element_queue :: "nat \<Rightarrow> 'db conn_table_st \<Rightarrow> 'db connqueue_st ptr option" where
  "conn_table_get_element_queue i ct = map_option (\<lambda>(p, ce). ce_cq ce) (element_at i ct)"
definition conn_table_get_element_fthread_created :: "nat \<Rightarrow> 'db conn_table_st \<Rightarrow> bool option" where
  "conn_table_get_element_fthread_created i ct = map_option (\<lambda>(p, ce). conn_element_get_created_flag ce) (element_at i ct)"
definition conn_table_get_element_fthread_finished :: "nat \<Rightarrow> 'db conn_table_st \<Rightarrow> bool option" where
  "conn_table_get_element_fthread_finished i ct = map_option (\<lambda>(p, ce). conn_element_get_finished_flag ce) (element_at i ct)"
definition conn_table_get_element_filterdata :: "nat \<Rightarrow> 'db conn_table_st \<Rightarrow> int option option" where
  "conn_table_get_element_filterdata i ct = map_option (\<lambda>(p, ce). filterdata ce) (element_at i ct)"
definition conn_table_set_element_filterdata :: "nat \<Rightarrow> int \<Rightarrow> 'db conn_table_st \<Rightarrow> 'db conn_table_st option" where
  "conn_table_set_element_filterdata i data ct =
     (if i \<ge> conn_table_get_numentries ct then None
      else Some (set_element i ((ct_ce ct ! i)\<lparr>filterdata := Some data\<rparr>) ct))"
definition conn_table_get_netclients :: "'db conn_table_st \<Rightarrow> int" where
  "conn_table_get_netclients ct = nclients ct"
definition conn_table_get_netclientsmax :: "'db conn_table_st \<Rightarrow> int" where
  "conn_table_get_netclientsmax ct = nclientsmax ct"
definition conn_table_element_isnetclient :: "nat \<Rightarrow> 'db conn_table_st \<Rightarrow> bool option" where
  "conn_table_element_isnetclient i ct = map_option (\<lambda>(p, ce). conn_element_isnetclient ce) (element_at i ct)"
definition conn_table_element_isnetclient_running :: "nat \<Rightarrow> 'db conn_table_st \<Rightarrow> bool option" where
  "conn_table_element_isnetclient_running i ct = map_option (\<lambda>(p, ce). conn_element_isnetclient_running ce) (element_at i ct)"
definition conn_table_element_isnetclient_stoped :: "nat \<Rightarrow> 'db conn_table_st \<Rightarrow> bool option" where
  "conn_table_element_isnetclient_stoped i ct = map_option (\<lambda>(p, ce). conn_element_isnetclient_stoped ce) (element_at i ct)"
definition conn_table_get_element_ctime :: "nat \<Rightarrow> 'db conn_table_st \<Rightarrow> nat option" where
  "conn_table_get_element_ctime i ct = map_option (\<lambda>(p, ce). conn_element_get_ctime ce) (element_at i ct)"

section \<open>The mutex of the table\<close>

text \<open>
  The table with its mutex (\<open>True\<close>: held) and what \<open>pthread_mutex_lock\<close> and
  \<open>pthread_mutex_unlock\<close> answer. The operations of \<open>Conn\<close> are the versions without the mutex,
  which \<open>poll.c\<close> reaches through these.
\<close>

record 'db locked_table =
  lt_mutex :: bool
  lt_table :: "'db conn_table_st"

definition conn_table_mutex_lock :: "int \<Rightarrow> 'db locked_table \<Rightarrow> int \<times> 'db locked_table" where
  "conn_table_mutex_lock r lt = (if r \<noteq> 0 then (-1, lt) else (0, lt\<lparr>lt_mutex := True\<rparr>))"

definition conn_table_mutex_unlock :: "int \<Rightarrow> 'db locked_table \<Rightarrow> int \<times> 'db locked_table" where
  "conn_table_mutex_unlock r lt = (if r \<noteq> 0 then (-1, lt) else (0, lt\<lparr>lt_mutex := False\<rparr>))"

definition conn_table_add_element_locked ::
  "int \<times> int \<Rightarrow> bool \<Rightarrow> nat \<Rightarrow> int \<Rightarrow> conn_type \<Rightarrow> int \<Rightarrow> byte list option \<Rightarrow> byte list option \<Rightarrow> client_options_st
     \<Rightarrow> 'db locked_table \<Rightarrow> int \<times> 'db locked_table" where
  "conn_table_add_element_locked r mem_ok now fd ty pid ip name opts lt =
     (case conn_table_mutex_lock (fst r) lt of (l, lt) \<Rightarrow>
        if l \<noteq> 0 then (-1, lt)
        else case conn_table_add_element mem_ok now fd ty pid ip name opts (lt_table lt) of (status, ct) \<Rightarrow>
          (status, snd (conn_table_mutex_unlock (snd r) (lt\<lparr>lt_table := ct\<rparr>))))"

definition conn_table_del_element_locked ::
  "int \<times> int \<Rightarrow> close_env \<Rightarrow> nat \<Rightarrow> 'db locked_table \<Rightarrow> (int \<times> int list \<times> 'db locked_table) option" where
  "conn_table_del_element_locked r env i lt =
     (case conn_table_mutex_lock (fst r) lt of (l, lt) \<Rightarrow>
        if l \<noteq> 0 then Some (-1, [], lt)
        else map_option (\<lambda>(status, closed, ct). (status, closed, snd (conn_table_mutex_unlock (snd r) (lt\<lparr>lt_table := ct\<rparr>))))
               (conn_table_del_element env i (lt_table lt)))"

section \<open>Polling with and without waiting\<close>

text \<open>The answers of the kernel depend on the timeout; \<open>INFTIM\<close> is -1, with which \<open>poll\<close> waits.\<close>

definition poll_loop ::
  "(int \<Rightarrow> poll_env) \<Rightarrow> (nat \<Rightarrow> 'db conn_table_st \<Rightarrow> (int \<times> int list \<times> 'db conn_table_st) option)
     \<Rightarrow> 'db conn_table_st \<Rightarrow> (int \<times> int list \<times> 'db conn_table_st) option" where
  "poll_loop envs connproc ct = poll_loop_wait (envs (-1)) connproc ct"

definition poll_loop_nowait ::
  "(int \<Rightarrow> poll_env) \<Rightarrow> (nat \<Rightarrow> 'db conn_table_st \<Rightarrow> (int \<times> int list \<times> 'db conn_table_st) option)
     \<Rightarrow> 'db conn_table_st \<Rightarrow> (int \<times> int list \<times> 'db conn_table_st) option" where
  "poll_loop_nowait envs connproc ct = poll_loop_wait (envs 0) connproc ct"

section \<open>Members that can be set\<close>

text \<open>
  The contract of a member: it reads as it was last set, setting it twice is setting it once, and
  \<open>rest\<close>, what the element is without it, does not change.
\<close>

locale member =
  fixes get :: "'e \<Rightarrow> 'v" and put :: "'v \<Rightarrow> 'e \<Rightarrow> 'e" and rest :: "'e \<Rightarrow> 'r"
  assumes get_put: "get (put v e) = v"
    and put_put: "put v (put w e) = put v e"
    and rest_put: "rest (put v e) = rest e"
begin

lemma puts_last: "vs \<noteq> [] \<Longrightarrow> fold put vs e = put (last vs) e"
  by (induction vs rule: rev_induct) (auto simp: put_put split: if_splits, metis fold_simps(1) append_Nil put_put)

lemma puts_get: "get (fold put vs e) = (if vs = [] then get e else last vs)"
  by (simp add: puts_last get_put)

lemma puts_rest: "rest (fold put vs e) = rest e"
  by (induction vs arbitrary: e) (simp_all add: rest_put)

end

lemmas element_members =
  conn_element_get_fd_def conn_element_set_fd_def
  conn_element_get_write_timeout_ms_def conn_element_set_write_timeout_ms_def
  conn_element_get_write_timeout_retry_def conn_element_set_write_timeout_retry_def
  conn_element_get_reconnect_wait_sleep_secs_def conn_element_set_reconnect_wait_sleep_secs_def
  conn_element_get_reconnect_wait_sleep_retry_def conn_element_set_reconnect_wait_sleep_retry_def
  conn_element_get_queue_read_timeout_ms_def conn_element_set_queue_read_timeout_ms_def

text \<open>
  The descriptor of the element and each of the five options: setting one leaves the table's view
  of the element (type, process, address, data, queue, thread) and the other options as they were.
\<close>

definition element_rest ::
  "'db conn_element_st \<Rightarrow> conn_type \<times> int \<times> byte list option \<times> byte list option \<times> int option \<times> int option
     \<times> 'db connqueue_st ptr \<times> thread_info_st option \<times> bool \<times> conn_stats_st" where
  "element_rest ce = (ce_type ce, ce_pid ce, ce_ip ce, ce_name ce, appdata ce, filterdata ce, ce_cq ce, threadinfo ce,
     f_exit ce, ce_cs ce)"

interpretation fd_member: member conn_element_get_fd conn_element_set_fd "\<lambda>ce. (element_rest ce, ce_opts ce)"
  by unfold_locales (simp_all add: element_members element_rest_def)

interpretation write_timeout: member conn_element_get_write_timeout_ms conn_element_set_write_timeout_ms
  "\<lambda>ce. (element_rest ce, ce_fd ce, (ce_opts ce)\<lparr>co_write_timeout_ms := 0\<rparr>)"
  by unfold_locales (simp_all add: element_members element_rest_def)

interpretation write_retry: member conn_element_get_write_timeout_retry conn_element_set_write_timeout_retry
  "\<lambda>ce. (element_rest ce, ce_fd ce, (ce_opts ce)\<lparr>co_write_timeout_retry := 0\<rparr>)"
  by unfold_locales (simp_all add: element_members element_rest_def)

interpretation reconnect_secs: member conn_element_get_reconnect_wait_sleep_secs conn_element_set_reconnect_wait_sleep_secs
  "\<lambda>ce. (element_rest ce, ce_fd ce, (ce_opts ce)\<lparr>co_reconnect_wait_sleep_secs := 0\<rparr>)"
  by unfold_locales (simp_all add: element_members element_rest_def)

interpretation reconnect_retry: member conn_element_get_reconnect_wait_sleep_retry conn_element_set_reconnect_wait_sleep_retry
  "\<lambda>ce. (element_rest ce, ce_fd ce, (ce_opts ce)\<lparr>co_reconnect_wait_sleep_retry := 0\<rparr>)"
  by unfold_locales (simp_all add: element_members element_rest_def)

interpretation queue_timeout: member conn_element_get_queue_read_timeout_ms conn_element_set_queue_read_timeout_ms
  "\<lambda>ce. (element_rest ce, ce_fd ce, (ce_opts ce)\<lparr>co_queue_read_timeout_ms := 0\<rparr>)"
  by unfold_locales (simp_all add: element_members element_rest_def)

section \<open>A slot of every element\<close>

text \<open>
  The data an application and a filter attach to element \<open>i\<close>: writing needs an element, the slot
  then has the value, no other slot changes and no element comes or goes.
\<close>

locale slots =
  fixes size_of :: "'t \<Rightarrow> nat" and get :: "nat \<Rightarrow> 't \<Rightarrow> 'v option option" and store :: "nat \<Rightarrow> 'v \<Rightarrow> 't \<Rightarrow> 't option"
  assumes get_dom: "get i t = None \<longleftrightarrow> i \<ge> size_of t"
    and store_dom: "store i v t = None \<longleftrightarrow> i \<ge> size_of t"
    and store_size: "store i v t = Some t' \<Longrightarrow> size_of t' = size_of t"
    and get_store: "store i v t = Some t' \<Longrightarrow> get j t' = (if j = i then Some (Some v) else get j t)"
begin

fun store_all :: "(nat \<times> 'v) list \<Rightarrow> 't \<Rightarrow> 't option" where
  "store_all [] t = Some t"
| "store_all ((i, v) # ws) t = Option.bind (store i v t) (store_all ws)"

lemma store_all_total: "(\<forall>(i, v) \<in> set ws. i < size_of t) \<Longrightarrow> \<exists>t'. store_all ws t = Some t' \<and> size_of t' = size_of t"
proof (induction ws arbitrary: t)
  case (Cons w ws)
  obtain i v where w: "w = (i, v)" by (cases w)
  then obtain t1 where s: "store i v t = Some t1" using Cons.prems store_dom [of i v t] by fastforce
  then show ?case using Cons.IH [of t1] Cons.prems w store_size [OF s] by auto
qed simp

lemma store_all_last:
  "store_all ws t = Some t' \<Longrightarrow> get j t' = (case map_of (rev ws) j of Some v \<Rightarrow> Some (Some v) | None \<Rightarrow> get j t)"
proof (induction ws arbitrary: t)
  case (Cons w ws)
  obtain i v where w: "w = (i, v)" by (cases w)
  then obtain t1 where s: "store i v t = Some t1" "store_all ws t1 = Some t'"
    using Cons.prems by (auto simp: bind_eq_Some_conv)
  then show ?case using Cons.IH [OF s(2)] get_store [OF s(1), of j] w
    by (auto simp: map_add_def split: option.splits)
qed simp

end

lemma numentries_set_element [simp]: "conn_table_get_numentries (set_element i ce ct) = conn_table_get_numentries ct"
  by (simp add: conn_table_get_numentries_def set_element_def)

lemma nth_set_element: "j < conn_table_get_numentries ct \<Longrightarrow> ct_ce (set_element i ce ct) ! j = (if j = i then ce else ct_ce ct ! j)"
  by (simp add: conn_table_get_numentries_def set_element_def nth_list_update)

interpretation app_slots: slots conn_table_get_numentries conn_table_get_element_appdata conn_table_set_element_appdata
  by unfold_locales (auto simp: conn_table_get_element_appdata_def conn_table_set_element_appdata_def nth_set_element
      split: if_splits)

interpretation filter_slots: slots conn_table_get_numentries conn_table_get_element_filterdata conn_table_set_element_filterdata
  by unfold_locales (auto simp: conn_table_get_element_filterdata_def conn_table_set_element_filterdata_def element_at_def
      nth_set_element split: if_splits)

text \<open>What is written for the application does not disturb the filter, and the other way round.\<close>

lemma slots_separate:
  "conn_table_set_element_appdata i v ct = Some ct' \<Longrightarrow>
     conn_table_get_element_filterdata j ct' = conn_table_get_element_filterdata j ct"
  "conn_table_set_element_filterdata i v ct = Some ct' \<Longrightarrow>
     conn_table_get_element_appdata j ct' = conn_table_get_element_appdata j ct"
  by (auto simp: conn_table_set_element_appdata_def conn_table_get_element_filterdata_def element_at_def
      conn_table_set_element_filterdata_def conn_table_get_element_appdata_def nth_set_element split: if_splits)

section \<open>What the access functions see\<close>

lemmas table_reads =
  conn_table_get_element_fd_def conn_table_get_element_type_def conn_table_get_element_pid_def
  conn_table_get_element_ip_def conn_table_get_element_name_def conn_table_get_element_nameorip_def
  conn_table_get_element_queue_def conn_table_get_element_fthread_created_def
  conn_table_get_element_fthread_finished_def conn_table_get_element_filterdata_def
  conn_table_element_isnetclient_def conn_table_element_isnetclient_running_def
  conn_table_element_isnetclient_stoped_def conn_table_get_element_ctime_def

lemma nth_remove_nth: "i < length xs \<Longrightarrow> j < length xs - 1 \<Longrightarrow> remove_nth i xs ! j = (if j < i then xs ! j else xs ! Suc j)"
  by (auto simp: remove_nth_def nth_append)

text \<open>
  After a deletion every index from the deleted one on gives what the next one gave: a loop that
  goes on with \<open>i + 1\<close> does not see the element that is at \<open>i\<close> now.
\<close>

lemma element_at_deleted:
  assumes "table_ok ct" "conn_table_del_element env i ct = Some (st, cl, ct')"
  shows "element_at j ct' = (if j < i then element_at j ct else element_at (Suc j) ct)"
proof -
  have i: "i < conn_table_get_numentries ct"
    using assms(2) by (auto simp: conn_table_del_element_def split: if_splits)
  have l: "length (ct_pfd ct) = length (ct_ce ct)" using assms(1) by (simp add: table_ok_def)
  have t: "ct_pfd ct' = remove_nth i (ct_pfd ct)" "ct_ce ct' = remove_nth i (ct_ce ct)"
    using assms(2) by (auto simp: conn_table_del_element_def Let_def split: if_splits prod.splits option.splits)
  have "length (ct_ce ct') = length (ct_ce ct) - 1"
    using i t by (simp add: remove_nth_def conn_table_get_numentries_def)
  then show ?thesis
    using i l t nth_remove_nth [of i "ct_pfd ct" j] nth_remove_nth [of i "ct_ce ct" j]
    by (auto simp: element_at_def conn_table_get_numentries_def)
qed

lemma deleted_reads:
  assumes "table_ok ct" "conn_table_del_element env i ct = Some (st, cl, ct')"
  shows "conn_table_get_element_fd j ct' = conn_table_get_element_fd (if j < i then j else Suc j) ct"
    and "conn_table_get_element_ip j ct' = conn_table_get_element_ip (if j < i then j else Suc j) ct"
    and "conn_table_get_element_queue j ct' = conn_table_get_element_queue (if j < i then j else Suc j) ct"
    and "conn_table_element_isnetclient_stoped j ct' = conn_table_element_isnetclient_stoped (if j < i then j else Suc j) ct"
  by (simp_all add: table_reads element_at_deleted [OF assms])

text \<open>A new element comes last, without thread, queue or data, and nothing else moves.\<close>

lemma element_at_added:
  assumes "table_ok ct" "conn_table_add_element mem_ok now fd ty pid ip name opts ct = (0, ct')"
  shows "element_at j ct' = (if j = conn_table_get_numentries ct
           then Some (\<lparr>p_fd = fd, p_in = False, p_bad = False\<rparr>, conn_element_init1 now fd ty pid ip name opts)
           else element_at j ct)"
proof -
  have l: "length (ct_pfd ct) = length (ct_ce ct)" using assms(1) by (simp add: table_ok_def)
  have t: "ct_pfd ct' = ct_pfd ct @ [\<lparr>p_fd = fd, p_in = False, p_bad = False\<rparr>]"
    "ct_ce ct' = ct_ce ct @ [conn_element_init1 now fd ty pid ip name opts]"
    using assms(2) by (auto simp: conn_table_add_element_def conn_table_grow_def split: if_splits)
  show ?thesis
    using l t nth_append_length [of "ct_pfd ct"]
    by (auto simp: element_at_def conn_table_get_numentries_def nth_append)
qed

lemma added_reads:
  assumes "table_ok ct" "conn_table_add_element mem_ok now fd ty pid ip name opts ct = (0, ct')"
  defines "n \<equiv> conn_table_get_numentries ct"
  shows "conn_table_get_element_fd n ct' = Some fd" "conn_table_get_element_type n ct' = Some ty"
    and "conn_table_get_element_pid n ct' = Some pid" "conn_table_get_element_ip n ct' = Some ip"
    and "conn_table_get_element_name n ct' = Some name" "conn_table_get_element_ctime n ct' = Some now"
    and "conn_table_get_element_queue n ct' = Some Null"
    and "conn_table_get_element_fthread_created n ct' = Some False"
    and "conn_table_get_element_nameorip n ct' = Some (if name \<noteq> None then name else ip)"
  unfolding n_def
  by (auto simp: table_reads element_at_added [OF assms(1,2)] conn_element_init1_def conn_element_get_ctime_def
      conn_stats_get_ctime_def conn_stats_init_def conn_element_get_created_flag_def conn_element_get_nameorip_def
      split: option.splits)

text \<open>The search by address finds the first element that reads as this address, and nothing only when none does.\<close>

lemma find_byip_least:
  "find_byip ip k ces = (if \<exists>i < length ces. ce_ip (ces ! i) = Some ip
     then Some (k + (LEAST i. i < length ces \<and> ce_ip (ces ! i) = Some ip)) else None)"
proof (induction ces arbitrary: k)
  case (Cons ce ces)
  show ?case
  proof (cases "ce_ip ce = Some ip")
    case True
    then have "(LEAST i. i < length (ce # ces) \<and> ce_ip ((ce # ces) ! i) = Some ip) = 0"
      by (intro Least_equality) auto
    then show ?thesis using True by auto
  next
    case False
    let ?P = "\<lambda>i. i < length (ce # ces) \<and> ce_ip ((ce # ces) ! i) = Some ip"
    have ex: "(\<exists>i < length (ce # ces). ce_ip ((ce # ces) ! i) = Some ip) \<longleftrightarrow> (\<exists>i < length ces. ce_ip (ces ! i) = Some ip)"
      using False by (auto simp: less_Suc_eq_0_disj)
    have "(LEAST i. ?P i) = Suc (LEAST i. ?P (Suc i))" if "?P (Suc m)" for m
      using Least_Suc [of ?P "Suc m"] that False by simp
    then have "(LEAST i. ?P i) = Suc (LEAST i. i < length ces \<and> ce_ip (ces ! i) = Some ip)"
      if "\<exists>i < length ces. ce_ip (ces ! i) = Some ip" using that by auto
    then show ?thesis using False Cons.IH [of "Suc k"] ex by auto
  qed
qed simp

lemma find_byip_reads:
  "conn_table_find_element_byip ip ct = (if \<exists>i. conn_table_get_element_ip i ct = Some (Some ip)
     then Some (LEAST i. conn_table_get_element_ip i ct = Some (Some ip)) else None)"
proof -
  have "conn_table_get_element_ip i ct = Some (Some ip) \<longleftrightarrow> i < length (ct_ce ct) \<and> ce_ip (ct_ce ct ! i) = Some ip" for i
    by (auto simp: conn_table_get_element_ip_def element_at_def conn_table_get_numentries_def)
  then show ?thesis by (simp add: conn_table_find_element_byip_def find_byip_least)
qed

text \<open>The number of network clients that the table reports is the number of elements that read as one.\<close>

lemma netclients_reads:
  assumes "table_ok ct"
  shows "conn_table_get_netclients ct
    = int (card {i. conn_table_element_isnetclient i ct = Some True})"
proof -
  have "{i. conn_table_element_isnetclient i ct = Some True} = {i. i < length (ct_ce ct) \<and> conn_element_isnetclient (ct_ce ct ! i)}"
    by (auto simp: conn_table_element_isnetclient_def element_at_def conn_table_get_numentries_def)
  then show ?thesis
    using assms by (simp add: conn_table_get_netclients_def table_ok_def netclients_def length_filter_conv_card)
qed

section \<open>The mutex\<close>

text \<open>
  An operation under the mutex is the operation without it when the mutex can be had, and then
  gives it back; when it cannot, nothing changes and the status is -1, which for a deletion during
  \<open>poll_loop_wait\<close> ends the program at an assertion.
\<close>

lemma add_element_locked:
  assumes "lt_mutex lt = False"
  shows "conn_table_add_element_locked (0, 0) mem_ok now fd ty pid ip name opts lt
      = (case conn_table_add_element mem_ok now fd ty pid ip name opts (lt_table lt) of (status, ct) \<Rightarrow> (status, lt\<lparr>lt_table := ct\<rparr>))"
    and "l \<noteq> 0 \<Longrightarrow> conn_table_add_element_locked (l, u) mem_ok now fd ty pid ip name opts lt = (-1, lt)"
  using assms by (cases lt; auto simp: conn_table_add_element_locked_def conn_table_mutex_lock_def conn_table_mutex_unlock_def
      split: prod.splits)+

lemma del_element_locked:
  assumes "lt_mutex lt = False"
  shows "conn_table_del_element_locked (0, 0) env i lt
      = map_option (\<lambda>(status, closed, ct). (status, closed, lt\<lparr>lt_table := ct\<rparr>)) (conn_table_del_element env i (lt_table lt))"
    and "l \<noteq> 0 \<Longrightarrow> conn_table_del_element_locked (l, u) env i lt = Some (-1, [], lt)"
  using assms by (cases lt; auto simp: conn_table_del_element_locked_def conn_table_mutex_lock_def conn_table_mutex_unlock_def
      fun_eq_iff intro!: option.map_cong0 split: prod.splits)+

end
