(* ===== verification/Accept.thy ===== *)
theory Accept
  imports Conn_Access Sockets Messages
begin

text \<open>
  How a client comes into the table of the packet server: the options that \<open>process_connections\<close> of
  \<open>src/serverm.c\<close> makes, accepting and finding the address and the name of the client
  (\<open>libconnth/tcpsock.c\<close>), the access control (\<open>src/access.c\<close>), and \<open>poll_add_connection_net\<close>, whose
  answers of the kernel are here those of the functions it calls.
\<close>

section \<open>Options\<close>

text \<open>
  All the members of \<open>struct client_options_st\<close>: the two that only accepting reads, and those that the element
  keeps. \<open>process_connections\<close> gives no value to \<open>write_timeout_retry\<close>: it is an argument. The time limit in
  milliseconds is taken to be in the range of \<open>int\<close>.
\<close>

record accept_options_st = client_options_st +
  co_nonblock :: int
  co_cloexec :: int

definition server_clientopts :: "int \<Rightarrow> int \<Rightarrow> int \<Rightarrow> accept_options_st" where
  "server_clientopts retry writetimeout_s client_queue_timeout_msecs =
     \<lparr>co_write_timeout_ms = writetimeout_s * 1000, co_write_timeout_retry = retry, co_reconnect_wait_sleep_secs = 0,
      co_reconnect_wait_sleep_retry = 0, co_queue_read_timeout_ms = client_queue_timeout_msecs,
      co_nonblock = 1, co_cloexec = 1\<rparr>"

section \<open>Accepting\<close>

text \<open>
  What \<open>accept\<close>, the calls that set the modes, \<open>getpeername\<close>, \<open>gethostbyaddr\<close>, \<open>malloc\<close> and the wrapper
  library answer.
\<close>

record accept_env =
  ae_accept :: "bool + int"
  ae_nonblock :: bool
  ae_cloexec :: bool
  ae_peer :: "in_addr option"
  ae_host :: "in_addr \<Rightarrow> byte list option"
  ae_ip_mem :: bool
  ae_name_mem :: bool
  ae_wrapped :: bool
  ae_hosts_access :: int

definition tcp_server_accept_conn :: "accept_options_st \<Rightarrow> accept_env \<Rightarrow> int \<times> int list \<times> int list" where
  "tcp_server_accept_conn opts e =
     tcp_server_accept_conn2 (ae_accept e) (co_nonblock opts = 1) (co_cloexec opts = 1) (ae_nonblock e) (ae_cloexec e)"

text \<open>\<open>None\<close>: \<open>get_peer_ip\<close> copies the address to a null pointer.\<close>

definition accept_answer :: "log_st \<Rightarrow> accept_env \<Rightarrow> int \<Rightarrow> accept_net option" where
  "accept_answer l e cfd =
     (if cfd < 0 then Some (Acc_fail cfd)
      else case get_peer_ip (ae_peer e) (ae_ip_mem e) of
          None \<Rightarrow> None
        | Some client_ip \<Rightarrow>
            let client_name = get_peer_name (ae_peer e) (ae_host e) (ae_name_mem e) in
            Some (Acc cfd client_ip client_name
                    (fst (client_allow_nconn l (ae_wrapped e) (ae_hosts_access e) client_ip client_name) \<noteq> 0)))"

text \<open>The status, the descriptors opened and closed, and the table.\<close>

definition accept_client ::
  "close_env \<Rightarrow> bool \<Rightarrow> nat \<Rightarrow> log_st \<Rightarrow> accept_options_st \<Rightarrow> accept_env \<Rightarrow> 'db conn_table_st
     \<Rightarrow> (int \<times> int list \<times> int list \<times> 'db conn_table_st) option" where
  "accept_client env mem_ok now l opts e ct =
     (case tcp_server_accept_conn opts e of
        (cfd, opened, cl) \<Rightarrow>
          Option.bind (accept_answer l e cfd) (\<lambda>acc.
          map_option (\<lambda>(status, closed, ct). (status, opened, cl @ closed, ct))
            (poll_add_connection_net env mem_ok now (client_options_st.truncate opts) acc ct)))"

section \<open>The client in the table\<close>

text \<open>A connection that was added is the last element of the table, and the only one with its address.\<close>

lemma add_net_last:
  assumes "table_ok ct" "poll_add_connection_net env mem_ok now opts (Acc fd ip name allowed) ct = Some (0, closed, ct')"
  obtains ct1 addr where "ip = Some addr" "table_ok ct1" "addr \<notin> set (ips (ct_ce ct1))"
    "conn_table_add_element mem_ok now fd CONN_TYPE_CLIENT_NET (-1) (Some addr) name opts ct1 = (0, ct')"
proof -
  obtain addr where ip: "ip = Some addr"
    using assms(2) by (cases ip) (auto simp: poll_add_connection_net_def)
  obtain st cl ct1 where r: "poll_restore_connection env addr fd ct = Some (st, cl, ct1)"
    "table_ok ct1" "st = -1 \<or> st = 1" "addr \<notin> set (ips (ct_ce ct1))"
    using restore_ok [OF assms(1), where env = env and fd = fd and ip = addr] by metis
  have "conn_table_add_element mem_ok now fd CONN_TYPE_CLIENT_NET (-1) (Some addr) name opts ct1 = (0, ct')"
    using assms(2) ip r(1,3) by (auto simp: poll_add_connection_net_def split: if_splits prod.splits)
  with that ip r(2,4) show ?thesis by blast
qed

lemma added_found:
  assumes "table_ok ct" "ip \<notin> set (ips (ct_ce ct))"
    and "conn_table_add_element mem_ok now fd ty pid (Some ip) name opts ct = (0, ct')"
  shows "conn_table_find_element_byip ip ct' = Some (conn_table_get_numentries ct)"
proof -
  let ?n = "conn_table_get_numentries ct"
  have "conn_table_get_element_ip i ct' = (if i = ?n then Some (Some ip) else conn_table_get_element_ip i ct)" for i
    by (simp add: conn_table_get_element_ip_def element_at_added [OF assms(1,3)] conn_element_init1_def)
  moreover have "conn_table_get_element_ip i ct \<noteq> Some (Some ip)" for i
    using assms(2) by (auto simp: in_ips conn_table_get_element_ip_def element_at_def conn_table_get_numentries_def)
  ultimately have "conn_table_get_element_ip i ct' = Some (Some ip) \<longleftrightarrow> i = ?n" for i by simp
  then show ?thesis by (simp add: find_byip_reads Least_equality)
qed

text \<open>
  C13. Accepting a client, with everything it takes: no descriptor that the kernel gave is lost or
  closed twice, and the table stays good. With status 0 the client is in the table, found by
  its address in text form, with the new descriptor, which does not block, the name of its
  host if that could be determined and the configured time limits; it was let in by the
  access control. Otherwise nothing of the new connection stays. (There is memory for the text of
  the address.)
\<close>

theorem accepted_client:
  assumes "table_ok ct" and "\<And>cfd. ae_accept e = Inr cfd \<Longrightarrow> cfd \<ge> 0" and "ae_ip_mem e"
  shows "\<exists>st opened closed ct'.
    accept_client env mem_ok now l (server_clientopts retry wt qt) e ct = Some (st, opened, closed, ct') \<and> table_ok ct'
    \<and> mset (client_fds ct') + mset closed = mset (client_fds ct) + mset opened
    \<and> (st = 0 \<longrightarrow> (\<exists>cfd addr i. ae_accept e = Inr cfd \<and> ae_nonblock e \<and> ae_cloexec e \<and> ae_peer e = Some addr
         \<and> (ae_wrapped e \<longrightarrow> ae_hosts_access e \<noteq> 0)
         \<and> conn_table_find_element_byip (inet_ntoa addr) ct' = Some i
         \<and> conn_table_get_element_fd i ct' = Some cfd
         \<and> conn_table_get_element_name i ct' = Some (get_peer_name (Some addr) (ae_host e) (ae_name_mem e))
         \<and> map_option (\<lambda>(p, ce). (conn_element_get_write_timeout_ms ce, conn_element_get_queue_read_timeout_ms ce)) (element_at i ct') = Some (wt * 1000, qt)))
    \<and> (st \<noteq> 0 \<longrightarrow> set opened \<subseteq> set closed)"
proof -
  define opts where "opts = server_clientopts retry wt qt"
  obtain cfd op cl where a: "tcp_server_accept_conn opts e = (cfd, op, cl)" by (metis prod_cases3)
  have acct: "mset op = mset cl + (if cfd \<ge> 0 then {#cfd#} else {#})"
    using accept_accounted [of "ae_accept e" True True "ae_nonblock e" "ae_cloexec e"] assms(2) a
    by (simp add: tcp_server_accept_conn_def opts_def server_clientopts_def)
  show ?thesis
  proof (cases "cfd < 0")
    case True
    then have "accept_client env mem_ok now l opts e ct = Some (cfd, op, cl, ct)"
      using a by (simp add: accept_client_def accept_answer_def poll_add_connection_net_def)
    moreover have "mset op = mset cl" using acct True by simp
    ultimately show ?thesis using True assms(1) mset_eq_setD [of op cl] unfolding opts_def by auto
  next
    case False
    then have fd: "cfd \<noteq> -1" by simp
    define ip where "ip = map_option inet_ntoa (ae_peer e)"
    define nm where "nm = get_peer_name (ae_peer e) (ae_host e) (ae_name_mem e)"
    define ok where "ok \<longleftrightarrow> fst (client_allow_nconn l (ae_wrapped e) (ae_hosts_access e) ip nm) \<noteq> 0"
    have ans: "accept_answer l e cfd = Some (Acc cfd ip nm ok)"
      using False assms(3) by (auto simp: accept_answer_def get_peer_ip_def ip_def nm_def ok_def Let_def split: option.splits)
    have acc: "ae_accept e = Inr cfd" "ae_nonblock e" "ae_cloexec e" "op = [cfd]" "cl = []"
      using a False by (auto simp: tcp_server_accept_conn_def tcp_server_accept_conn2_def opts_def server_clientopts_def
          andthen_def Let_def split: sum.splits if_splits)
    obtain st closed ct' where p: "poll_add_connection_net env mem_ok now (client_options_st.truncate opts) (Acc cfd ip nm ok) ct
        = Some (st, closed, ct')" "table_ok ct'" "mset (client_fds ct') + mset closed = mset (client_fds ct) + {#cfd#}"
      "st = 0 \<Longrightarrow> ok" "st \<noteq> 0 \<Longrightarrow> cfd \<in> set closed"
      using add_net_ok [OF assms(1) refl fd, where env = env and mem_ok = mem_ok and now = now
          and opts = "client_options_st.truncate opts" and ip = ip and name = nm and allowed = ok]
      by metis
    have r: "accept_client env mem_ok now l opts e ct = Some (st, [cfd], closed, ct')"
      using a ans p(1) acc(4,5) by (simp add: accept_client_def)
    have "\<exists>addr i. ae_peer e = Some addr \<and> (ae_wrapped e \<longrightarrow> ae_hosts_access e \<noteq> 0)
         \<and> conn_table_find_element_byip (inet_ntoa addr) ct' = Some i
         \<and> conn_table_get_element_fd i ct' = Some cfd \<and> conn_table_get_element_name i ct' = Some nm
         \<and> map_option (\<lambda>(p, ce). (conn_element_get_write_timeout_ms ce, conn_element_get_queue_read_timeout_ms ce)) (element_at i ct') = Some (wt * 1000, qt)" if "st = 0"
    proof -
      from p(1) that have p0: "poll_add_connection_net env mem_ok now (client_options_st.truncate opts) (Acc cfd ip nm ok) ct
        = Some (0, closed, ct')" by simp
      obtain ct1 addr where n: "ip = Some addr" "table_ok ct1" "addr \<notin> set (ips (ct_ce ct1))"
        "conn_table_add_element mem_ok now cfd CONN_TYPE_CLIENT_NET (-1) (Some addr) nm (client_options_st.truncate opts) ct1 = (0, ct')"
        by (rule add_net_last [OF assms(1) p0])
      have "ae_wrapped e \<longrightarrow> ae_hosts_access e \<noteq> 0"
        using p(4) [OF that] by (auto simp: ok_def client_allowed)
      moreover have "map_option (\<lambda>(p, ce). (conn_element_get_write_timeout_ms ce, conn_element_get_queue_read_timeout_ms ce))
          (element_at (conn_table_get_numentries ct1) ct') = Some (wt * 1000, qt)"
        by (simp add: element_at_added [OF n(2,4)] conn_element_init1_def conn_element_get_write_timeout_ms_def
            conn_element_get_queue_read_timeout_ms_def opts_def
            server_clientopts_def client_options_st.truncate_def)
      ultimately show ?thesis
        using n(1) added_reads(1,5) [OF n(2,4)] added_found [OF n(2-4)] by (auto simp: ip_def)
    qed
    then show ?thesis using r p(2,3,5) acc unfolding opts_def nm_def by auto
  qed
qed

text \<open>A good table, a client at 10.0.0.1 that is let in.\<close>

definition accept_env0 :: accept_env where
  "accept_env0 = \<lparr>ae_accept = Inr 7, ae_nonblock = True, ae_cloexec = True, ae_peer = Some (10, 0, 0, 1), ae_host = (\<lambda>_. None),
     ae_ip_mem = True, ae_name_mem = True, ae_wrapped = True, ae_hosts_access = 1\<rparr>"

theorem accepted_client_witness:
  "\<exists>st opened closed ct'. accept_client (\<lambda>_. (True, True)) True 5 \<lparr>l_daemon = 1, l_verbose = 0, l_debug = 0\<rparr>
      (server_clientopts 0 30 1000) accept_env0 table0 = Some (st, opened, closed, ct') \<and> table_ok ct'
     \<and> mset (client_fds ct') + mset closed = mset (client_fds table0) + mset opened"
  using accepted_client [OF table0_ok, of accept_env0 "\<lambda>_. (True, True)" True 5 "\<lparr>l_daemon = 1, l_verbose = 0, l_debug = 0\<rparr>" 0 30 1000]
  by (auto simp: accept_env0_def)

end
