(* ===== verification/Spec2Isabelle.thy ===== *)
theory Spec2Isabelle
  imports Insert_Tool Relay Periodic Multicast Accept
begin

text \<open>
  npemwin receives EMWIN weather data and hands it on. It reads packets of 1116 bytes from a
  ByteBlaster server on the network, a serial line, a WX14 satellite receiver or a fifo, decodes
  them, passes them to its own clients over the network, and saves the parts of the files they
  carry in a spool directory, where another program, the queue runner, takes over. The tool
  \<open>npemwininsert\<close> cuts a file into such packets and writes them to the fifo. This development
  models the C sources of the server under \<open>src/\<close> and of the tool under \<open>tools/npemwininsert\<close>.

  \<^bold>\<open>The parts and their theories\<close>, in the order of the calls:

  \<^item> \<open>Npemwin_Prelude\<close>, \<open>Scanf\<close>: bytes, C strings and integers, \<open>printf\<close> and \<open>sscanf\<close> as far as the
    program uses them, and shared lemmas.
  \<^item> \<open>Util\<close> (\<open>util.c\<close>), \<open>Stats\<close> (\<open>stats.c\<close>, \<open>seqnum.c\<close>), \<open>Tsv\<close> (\<open>tsv.c\<close>), \<open>Strsplit\<close> (\<open>strsplit.c\<close> and
    the settings of \<open>ser.c\<close>): conversions, counters, keys of the spool, splitting of text.
  \<^item> \<open>Nreadn\<close> (\<open>nreadn.c\<close>): blocks on a descriptor. A descriptor is a channel, the list of what the
    kernel will answer to \<open>poll\<close>, \<open>read\<close> and \<open>write\<close>, with the bytes written so far; all theories
    that read or write use it. Its interface is the locale \<open>byte_source\<close>.
  \<^item> \<open>Bb\<close> (\<open>bb.c\<close>), \<open>Wx14\<close> (\<open>wx14*.c\<close>), \<open>Emwin_Packet\<close> (\<open>v2.c\<close> and the decoder of \<open>emwin.c\<close>),
    \<open>Emwin_Read\<close> (the readers and the synchronisation of \<open>emwin.c\<close>): from the bytes of a source to
    the structure of a packet.
  \<^item> \<open>Spool\<close> (the rest of \<open>emwin.c\<close>, \<open>file.c\<close>): from the packet to the files of the spool. The file
    system is a map from path names to contents; which calls fail is an argument.
  \<^item> \<open>Servers\<close> (\<open>servers.c\<close>): the list of the sources, written as \<open>conf/servers.conf\<close> describes it, and the
    choice among them.
  \<^item> \<open>Qdb\<close> (\<open>libqdb\<close>): the client queues over Berkeley DB, whose methods are a record of functions
    with their documented behaviour as the hypothesis \<open>db_fifo\<close>. Interface: the locale \<open>fifo_queue\<close>.
  \<^item> \<open>Sockets\<close> (\<open>tcpsock.c\<close>, \<open>connect_timed.c\<close>, \<open>sock.c\<close> of \<open>libconnth\<close>): opening and accepting
    connections, and the address of a peer, whose text is the key of a client. The locale \<open>descriptor_user\<close> says
    what such a function does with descriptors.
  \<^item> \<open>Connect\<close> (the openers of \<open>emwin.c\<close>, \<open>infeed.c\<close>, \<open>ser.c\<close>): \<open>Servers\<close>, \<open>Emwin_Read\<close> and \<open>Sockets\<close> together,
    from the choice of a server to its open descriptor.
  \<^item> \<open>Multicast\<close> (\<open>filters/panfilter/c\<close>): the sockets of the multicast filter and its two programs.
  \<^item> \<open>Conn\<close> (\<open>libconnth\<close>): the table of the connections and the poll loop. What the poll loop asks of
    the handler of the application is the locale \<open>conn_handler\<close>.
  \<^item> \<open>Conn_Access\<close> (\<open>libconnth\<close>): the functions that read and write an element or the table, the mutex of the
    table, and what the reading functions give after an addition or a deletion. The locales \<open>member\<close> and
    \<open>slots\<close> are the contracts of a settable member and of the data attached to the elements.
  \<^item> \<open>Accept\<close>: \<open>Sockets\<close>, the access control of \<open>Messages\<close> and \<open>Conn\<close> together, from \<open>accept\<close> to the new
    element, with the options that \<open>process_connections\<close> makes.
  \<^item> \<open>Server\<close> (\<open>appdata.c\<close>, \<open>serverm.c\<close>, \<open>serverc.c\<close>): logins, upkeep, sending, the client threads.
    It interprets \<open>conn_handler\<close> with \<open>handle_client\<close>.
  \<^item> \<open>Npemwin\<close> (\<open>npemwin.c\<close>, \<open>per.c\<close>): the main loop, the queue runner and the periodic tasks.
  \<^item> \<open>Daemon\<close> (\<open>signal.c\<close>, \<open>pid.c\<close>, \<open>pw.c\<close>, \<open>exec.c\<close>, \<open>bbreg.c\<close>, \<open>httpd.c\<close>, parts of \<open>init.c\<close>): signals, the
    lock file, users and groups, and the programs the server starts. The programs and the environment of the
    data base are opened and closed under the contract of the locale \<open>owned_handle\<close> of \<open>Npemwin_Prelude\<close>.
  \<^item> \<open>Config\<close> (\<open>libtclconf/tclconf.c\<close>, \<open>conf.c.in\<close>, \<open>init_globals\<close> of \<open>init.c\<close>): the table of the options, the
    variables of the program that they set, the checks and the listing. The options, the defaults, the
    checks and the listing are transcribed line by line; the configuration file is what the Tcl library makes of it.
  \<^item> \<open>Startup\<close> (\<open>main.c\<close>, the rest of \<open>init.c\<close> and \<open>signal.c\<close>, \<open>tclevalfile.c\<close>): the process from \<open>main\<close> to the clean-up at
    the exit, with the steps of \<open>Config\<close>, \<open>Daemon\<close>, \<open>Servers\<close> and \<open>Npemwin\<close> in the order of the code.
  \<^item> \<open>Thread\<close> (\<open>npemwin_main\<close> of \<open>npemwin.c\<close>, the threads of \<open>serverm.c\<close>, \<open>solaris.c\<close>): the threads from start to end.
  \<^item> \<open>Periodic\<close> (\<open>per.c\<close>): what the periodic tasks call, and that the scheduler is started once in every minute.
  \<^item> \<open>Messages\<close> (\<open>err.c\<close>, \<open>access.c\<close>, \<open>dbenv.c\<close>, \<open>solaris.c\<close>): where messages go, who is let in.
  \<^item> \<open>Insert\<close>, \<open>Insert_Tool\<close> (\<open>tools/npemwininsert\<close>): from a file to packets in the fifo, and the program around it.
  \<^item> \<open>Delivery\<close>, \<open>Relay\<close> and this theory: what the parts do together.

  \<^bold>\<open>How the code is modelled.\<close> A structure of the source is a record with its fields, the variables
  of a file are a record too, a function of the source is a definition of the same name that takes
  and returns the state it uses; a loop is a recursive function of its own beside it. A buffer with
  its size is the list of its bytes. Status codes are the integers of the code. \<open>None\<close> stands for a
  failed assertion, an access outside of an object or the use of freed memory. What the operating
  system, the libraries and the clock answer are arguments of the definitions, so that the
  theorems hold for all their answers; memory that cannot be allocated is such an answer in \<open>Tsv\<close>, \<open>Servers\<close>,
  \<open>Qdb\<close>, \<open>Conn\<close>, \<open>Accept\<close> and \<open>Startup\<close>, while \<open>Strsplit\<close> and the list of groups of \<open>Daemon\<close> always get theirs.
  Log messages are left out except in \<open>Messages\<close> and \<open>Insert_Tool\<close>. Machine integers are words where their width matters (counters, sizes in packets, the count of a queue).

  \<^bold>\<open>What is shown.\<close> Reading loses and invents no byte whatever the kernel does, delivers whole blocks
  from a channel that flows, and finds the packet boundary in a stream that starts anywhere. The
  decoder accepts a packet only with a header of five fields, the right checksum and a proper name,
  its two copies for the network and for serial lines agree, and nothing that arrives
  makes the program fail an assertion while it decodes, sends and saves it. The blocks of a file end up in the
  spool under distinct keys with exactly their data, and the insert tool and the main loop together
  spool the file that was inserted. The queue of a client is first-in first-out through all failures
  of the database; the table of the connections stays consistent and accounts for every descriptor
  through any round of its upkeep, and a client that is accepted is in the table under its address, with its
  descriptor and time limits; a packet goes to every client that is served, and a
  client gets a prefix of the accepted packets whatever happens, and all of them when the database
  works and it reads on. Both threads together relay a ByteBlaster feed byte for byte.
  Of the surroundings: no reconnection loses a descriptor, no hangup signal is lost, the scheduler runs once a minute,
  at most one server has the lock file, and privileges are given up for good. Of the process: the
  configuration files are layers that set exactly the variables of their options, under the names of the
  documentation, and the checks pass exactly the usable ones; the main loop is entered
  only with everything in place; and however the process ends, short of being aborted, it waits for the programs it
  started, removes its lock and nobody else's, and does not hang. The exit status of the insert tool tells the truth,
  for files of fewer than \<open>2 ^ 31\<close> parts.

  \<^bold>\<open>Loops and fuel.\<close> All loops are total functions: their arguments are consumed (lists of bytes, of
  answers, of elements), or a measure decreases. The loop over the clients in \<open>poll_loop_wait\<close>, whose
  handler may change the table, is a \<open>partial_function\<close>, and \<open>process_connections_ok\<close> shows that
  it returns. The synchronisation loop has the bound of the code, the length of four packets.
  The endless loops of the two threads are runs over the list of their turns, for every length.

  \<^bold>\<open>Not modelled.\<close> Mutexes and condition variables as such, apart from the mutex of the table of
  connections (\<open>Conn_Access\<close>): an operation under a mutex is one step, and what other threads do between steps is in the runs of \<open>Delivery\<close> and \<open>Relay\<close>, in the
  events of \<open>queue_wait\<close> and in the rounds of \<open>Startup\<close>. The evaluation of a Tcl script, of which only the
  assignments to linked variables and the status are kept; the splitting of the command line by \<open>getopt\<close>; the
  resolver; and the filters written in Tcl, which are other programs. Tests under \<open>test\<close> and \<open>tests\<close> are left out.
\<close>

section \<open>From the insert tool to the server\<close>

text \<open>The header the tool prints is read back field by field.\<close>

lemma cstr_tags:
  "cstr ''/PN '' = cstr ''/PN'' @ [32]" "cstr ''/PT '' = cstr ''/PT'' @ [32]"
  "cstr ''/CS '' = cstr ''/CS'' @ [32]"
  by (simp_all add: cstr_def)

lemma cstr_slash:
  "cstr ''/PN'' = 47 # cstr ''PN''" "cstr ''/PT'' = 47 # cstr ''PT''"
  "cstr ''/CS'' = 47 # cstr ''CS''" "cstr ''/FD'' = 47 # cstr ''FD''"
  by (simp_all add: cstr_def)

lemma sscanf_tag [scan_simps]:
  "sscanf (SWs # scan_lit (47 # t) @ ds) (replicate k 32 @ 47 # t @ s) = sscanf ds s"
  using sscanf_lit [of "47 # t" ds s] by simp

lemma sscanf_ws_int_pad [scan_simps]:
  assumes "\<not> isdigit c" and "n < 2 ^ 31"
  shows "sscanf (SWs # SInt # ds) (32 # pad_right w (dec n) @ c # s) =
           VInt (int n) # sscanf ds (replicate (w - length (dec n)) 32 @ c # s)"
proof -
  obtain d e where d: "dec n = d # e" by (cases "dec n") auto
  have "skip_ws (32 # pad_right w (dec n) @ c # s) = pad_right w (dec n) @ c # s"
    using dec_hd_not_sign [OF d] by (simp add: skip_ws_def pad_right_def d)
  then show ?thesis using sscanf_int_pad [OF assms, of ds w s] by (simp only: sscanf.simps)
qed

lemma scan_header:
  assumes "tok \<noteq> []" "\<forall>c \<in> set tok. \<not> isspace c" "length tok \<le> 12"
    and "k < 2 ^ 31" "t < 2 ^ 31" "cs < 2 ^ 31" "length date = 22"
  shows "sscanf header_fmt (cstr ''/PF'' @ pad_right 12 tok @ cstr ''/PN '' @ pad_right 5 (dec k)
      @ cstr ''/PT '' @ pad_right 5 (dec t) @ cstr ''/CS '' @ pad_right 6 (dec cs) @ cstr ''/FD'' @ date @ r)
    = [VStr tok, VInt (int k), VInt (int t), VInt (int cs), VStr date]"
proof -
  have d: "\<not> isdigit 47" by simp
  note int = sscanf_ws_int_pad [OF d]
  show ?thesis
    unfolding header_fmt_def cstr_tags cstr_slash append_assoc append_Cons append_Nil
    by (simp only: sscanf_lit sscanf_str_pad [OF assms(1-3)] sscanf_tag int [OF assms(4)]
        int [OF assms(5)] int [OF assms(6)])
       (use assms(7) in auto)
qed

lemma checkfilename_accepts:
  assumes "name = root @ [46] @ ext" "length ext = 3" "\<forall>c \<in> set (root @ ext). isalnum c"
  shows "checkfilename below name = (0, map tolower name)"
proof -
  have at: "fname_at below name i = name ! nat i" if "0 \<le> i" "i < int (length name)" for i
    using that by (simp add: fname_at_def nat_less_iff)
  have r: "int (length name) - 4 = int (length root)" using assms(1,2) by simp
  have "isalnum (name ! nat i)" if "0 \<le> i" "i < int (length root)" for i
    using assms(3) that by (simp add: assms(1) nth_append nat_less_iff)
  moreover have "isalnum (name ! nat i)" if "int (length root) < i" "i < int (length name)" for i
  proof -
    have "length root < nat i" using that(1) by simp
    then have "name ! nat i = ext ! (nat i - length root - 1)" "nat i - length root - 1 < length ext"
      using that by (auto simp: assms(1) nth_append nth_Cons' nat_less_iff)
    then show ?thesis using assms(3) by auto
  qed
  moreover have "name ! length root = 46" by (simp add: assms(1))
  ultimately show ?thesis
    using r at [of "int (length root)"] length_append [of root "[46] @ ext"]
    by (auto simp: checkfilename_def Let_def at assms(1) [symmetric])
qed

lemma decode_header_accepts:
  assumes "sscanf header_fmt (cstring (rawdata ep)) = [VStr n, VInt b, VInt t, VInt c, VStr d]"
    and "data_size ep = length (rawdata ep) - 80" "c = byte_sum (drop 80 (rawdata ep))"
    and "checkfilename (fe_below env) n = (0, n')"
  shows "\<exists>ep'. decode_header env ep = (0, ep')
    \<and> header ep' = \<lparr>filename = n', blockno = b, numblocks = t, hdr_checksum = c, dtstamp = d\<rparr>
    \<and> ep_data ep' = (if is_text_file (fe_below env) n' then takeWhile (\<lambda>b. b \<noteq> 0) (drop 80 (rawdata ep))
         else drop 80 (rawdata ep))"
  using assms
  by (cases "header ep")
     (auto simp: decode_header_def Let_def checksum_def ep_data_def emwin_consts take_length_takeWhile)

lemma byte_sum_padded: "byte_sum (data @ replicate k 0) = int (calc_checksum data)"
  by (induction data) (simp_all add: byte_sum_def calc_checksum_def sum_list_replicate)

lemma takeWhile_padded: "takeWhile (\<lambda>b. b \<noteq> 0) (data @ replicate k (0 :: byte)) = takeWhile (\<lambda>b. b \<noteq> 0) data"
  by (induction data) (simp_all add: takeWhile_replicate)

lemma header_text_no_nul:
  "0 \<notin> set (fname ep) \<Longrightarrow> 0 \<notin> set (header_date ep) \<Longrightarrow> 0 \<notin> set (header_text ep)"
  by (auto simp: header_text_def cstr_def pad_right_def toupper_def islower_def word_le_nat_alt split: if_splits)

lemma inserted_packet:
  assumes "name = root @ [46] @ ext" "length ext = 3" "length name \<le> 12"
    "\<forall>c \<in> set (root @ ext). isalnum c" and "length date = 22" "0 \<notin> set date"
    and "1 \<le> k" "k \<le> get_parts_total (length file)" "get_parts_total (length file) < 10 ^ 5"
  shows "\<exists>ep' g'. fill_packet_struct_serial env ep (packet_for file date name k) g = (0, ep', g')
    \<and> filename (header ep') = map tolower name \<and> blockno (header ep') = int k
    \<and> numblocks (header ep') = int (get_parts_total (length file)) \<and> dtstamp (header ep') = date
    \<and> ep_data ep' = (if is_text_file (fe_below env) (map tolower name)
         then takeWhile (\<lambda>b. b \<noteq> 0) (file_part file k)
         else file_part file k @ replicate (1024 - length (file_part file k)) 0)
    \<and> bbtype ep' = bbtype ep \<and> queue_data_v1 ep' = envelope (bb_xor (packet_for file date name k))"
proof -
  let ?d = "file_part file k" and ?t = "get_parts_total (length file)"
  let ?h = "header_text \<lparr>fname = name, header_date = date, packet = [], ep_file = [],
      parts_total = ?t, last_part_size = 0, part_number = k, ep_checksum = calc_checksum ?d\<rparr>"
  let ?raw = "?h @ ?d @ replicate (1024 - length ?d) 0"
  let ?name = "map toupper name"
  have dl: "length ?d \<le> 1024" by (simp add: file_part_def)
  have cs: "calc_checksum ?d < 10 ^ 6" using calc_checksum_bound [of ?d] dl by simp
  have hl: "length ?h = 80" using assms cs by (intro length_header_text) auto
  define ep1 where "ep1 = ep\<lparr>bbdata := map (\<lambda>b. b XOR 0xff) (packet_for file date name k),
      rawdata := ?raw, data_size := 1024\<rparr>"
  have f: "fill_packet_struct_serial env ep (packet_for file date name k) g = fill_packet_rest env ep1 g"
    using hl dl by (simp add: fill_serial_rest packet_for_def Let_def emwin_consts ep1_def)
  obtain ep2 g2 where q: "build_queues env ep1 g = (ep2, g2)" by (cases "build_queues env ep1 g")
  note fr = build_queues_frame [OF q]
  have tok: "?name \<noteq> []" "\<forall>c \<in> set ?name. \<not> isspace c" "length ?name \<le> 12"
    using assms(1,3,4) by (auto simp: ctype_simps)
  have "0 \<notin> set name" using assms(1,4) isalnum_not_nul by fastforce
  then have nul: "0 \<notin> set ?h" using assms(6) by (intro header_text_no_nul) auto
  have scan: "sscanf header_fmt (cstring (rawdata ep2)) =
      [VStr ?name, VInt (int k), VInt (int ?t), VInt (int (calc_checksum ?d)), VStr date]"
    using nul fr scan_header [OF tok, of k ?t "calc_checksum ?d" date] assms(5,8,9) cs
    by (simp add: ep1_def header_text_def)
  have data: "drop 80 (rawdata ep2) = ?d @ replicate (1024 - length ?d) 0" "data_size ep2 = length (rawdata ep2) - 80"
    using fr hl dl by (simp_all add: ep1_def)
  have "checkfilename (fe_below env) ?name = (0, map tolower name)"
    using checkfilename_accepts [of ?name "map toupper root" "map toupper ext" "fe_below env"] assms(1,2,4)
    by (simp add: comp_def ball_Un)
  from decode_header_accepts [OF scan data(2) _ this] obtain ep' where
    "decode_header env ep2 = (0, ep')"
    "header ep' = \<lparr>filename = map tolower name, blockno = int k, numblocks = int ?t,
       hdr_checksum = int (calc_checksum ?d), dtstamp = date\<rparr>"
    "ep_data ep' = (if is_text_file (fe_below env) (map tolower name) then takeWhile (\<lambda>b. b \<noteq> 0) ?d
       else ?d @ replicate (1024 - length ?d) 0)"
    by (auto simp: data byte_sum_padded takeWhile_padded)
  moreover from decode_header_frame [OF this(1)] fr have "bbtype ep' = bbtype ep"
    "queue_data_v1 ep' = envelope (bb_xor (packet_for file date name k))"
    by (simp_all add: ep1_def bb_xor_def)
  ultimately show ?thesis unfolding f fill_packet_rest_def q by (simp add: Let_def)
qed

text \<open>
  A file given to the insert tool arrives: the server decodes each packet the tool
  builds for the file, takes it as the packet of that number of the lower-cased file name, and
  the data it saves is that part of the file. The last part of a text file is cut at its
  first NUL, and of any other file is padded with zero bytes to 1024.
\<close>

theorem inserted_packet_decodes:
  assumes "name = root @ [46] @ ext" "length ext = 3" "length name \<le> 12"
    "\<forall>c \<in> set (root @ ext). isalnum c" and "length date = 22" "0 \<notin> set date"
    and "1 \<le> k" "k \<le> get_parts_total (length file)" "get_parts_total (length file) < 10 ^ 5"
  shows "\<exists>ep' g'. fill_packet_struct_serial env ep (packet_for file date name k) g = (0, ep', g')
    \<and> filename (header ep') = map tolower name \<and> blockno (header ep') = int k
    \<and> numblocks (header ep') = int (get_parts_total (length file)) \<and> dtstamp (header ep') = date
    \<and> ep_data ep' = (if is_text_file (fe_below env) (map tolower name)
         then takeWhile (\<lambda>b. b \<noteq> 0) (file_part file k)
         else file_part file k @ replicate (1024 - length (file_part file k)) 0)"
  using inserted_packet [OF assms, of env ep g] by blast

theorem inserted_packet_decodes_witness:
  "\<exists>ep' g'. fill_packet_struct_serial env0 ep0 (packet_for [72, 105] (replicate 22 48) [65, 46, 84, 88, 84] 1) g0
       = (0, ep', g') \<and> filename (header ep') = [97, 46, 116, 120, 116] \<and> ep_data ep' = [72, 105]"
proof -
  have t: "get_parts_total (Suc (Suc 0)) = 1" "file_part [72, 105] 1 = [72, 105]"
    by (simp_all add: get_parts_total_def insert_consts file_part_def)
  have l: "map tolower [65, 46, 84, 88, 84] = [97, 46, 116, 120, 116]"
    "is_text_file (fe_below env0) [97, 46, 116, 120, 116]"
    by code_simp+
  show ?thesis
    using inserted_packet_decodes [of "[65, 46, 84, 88, 84]" "[65]" "[84, 88, 84]" "replicate 22 48" 1
        "[72, 105]" env0 ep0 g0] t l
    by (auto simp: ctype_defs)
qed

section \<open>From the insert tool to the spool directory\<close>

text \<open>A turn of the main loop with a packet from the fifo, with the server disabled.\<close>

lemma infeed_turn:
  assumes "server_type_infeed es" "np_sv np = None" "\<not> te_reload te" "\<not> te_send te" "te_ne te = ne"
    and "get_emwin_packet_serial (ne_fill ne) (ne_retry ne) c (ne_uninit ne) (np_g np) = (0, ep, g, c')"
    and "bbtype ep = BB_PACKET_TYPE_DATA"
    and "save_emwin_packet (ne_os ne) (ne_stamp ne) (ne_conf ne) (init_emwin_qfiles (ne_conf ne)) ep (np_fs np) (np_seq np)
      = Some (0, fs, seq)"
  shows "\<exists>np'. npemwin_turn ops cf te es x c np = Turned (0, x, c', np')
    \<and> np_sv np' = None \<and> np_g np' = g \<and> np_fs np' = fs \<and> np_seq np' = seq \<and> packet_count np' = packet_count np + 1"
proof -
  have t: "\<not> server_type_wx14_msg_device es" "\<not> server_type_wx14_raw_device es" "\<not> server_type_serial_device es"
    using assms(1) by (simp_all add: server_type_infeed_def server_type_wx14_msg_device_def server_type_wx14_raw_device_def
        server_type_serial_device_def)
  have "get_packet ne es c np = Some (0, ep, c', np\<lparr>np_g := g\<rparr>)"
    using t assms(1,6) by (simp add: get_packet_def get_emwin_packet_infeed_def Let_def)
  then have "process_packets ops ne es c np =
      (let np1 = packet_stats ne es 0 (np\<lparr>np_g := g\<rparr>)
       in Some (0, c', np1\<lparr>np_fs := fs, np_seq := seq, packet_count := packet_count np1 + 1\<rparr>))"
    using assms(2,7,8) packet_stats_frame [OF t(1), of ne 0 "np\<lparr>np_g := g\<rparr>"]
    by (simp add: process_packets_def exec_filter_def Let_def)
  then show ?thesis
    using assms(2-5) packet_stats_frame [OF t(1), of ne 0 "np\<lparr>np_g := g\<rparr>"]
    by (simp add: npemwin_turn_def Let_def)
qed

text \<open>
  A sequence of packets that decode, whatever the state: the decoded packets depend on the
  state of the decoder only, and saving them all is what the turns of the main loop do.
\<close>

lemma infeed_turns:
  assumes es: "server_type_infeed es"
    and "\<forall>k \<in> set ks. length (pk k) = EMWIN_PACKET_SIZE
      \<and> (\<forall>ep g. \<exists>ep' g'. fill_packet_struct_serial (ne_fill ne) ep (pk k) g = (0, ep', g') \<and> bbtype ep' = bbtype ep \<and> Q k ep')"
    and "\<forall>te \<in> set tes. \<not> te_reload te \<and> \<not> te_send te \<and> te_ne te = ne" "length tes = length ks"
    and "flowing (ne_retry ne) c" "pending c = concat (map pk ks) @ rest"
  shows "\<exists>eps. list_all2 Q ks eps
    \<and> (\<forall>np fs seq. np_g np = g \<and> np_sv np = None
        \<and> save_all (ne_os ne) (ne_stamp ne) (ne_conf ne) (init_emwin_qfiles (ne_conf ne)) eps (np_fs np) (np_seq np) = Some (0, fs, seq)
        \<longrightarrow> (\<exists>c' np'. npemwin_turns ops cf tes es x c np = Turned (0, x, c', np') \<and> pending c' = rest
              \<and> np_fs np' = fs \<and> np_seq np' = seq \<and> packet_count np' = packet_count np + length ks))"
  using assms(2-)
proof (induction ks arbitrary: c g tes)
  case Nil
  then show ?case by (intro exI [of _ "[]"]) simp
next
  case (Cons k ks)
  obtain te tes' where te: "tes = te # tes'" using Cons.prems(3) by (cases tes) auto
  obtain ep g1 where f: "fill_packet_struct_serial (ne_fill ne) ((ne_uninit ne)\<lparr>bbtype := BB_PACKET_TYPE_DATA\<rparr>) (pk k) g = (0, ep, g1)"
    "bbtype ep = BB_PACKET_TYPE_DATA" "Q k ep"
    using Cons.prems(1) by (metis emwin_packet.select_convs(5) emwin_packet.surjective emwin_packet.update_convs(5) list.set_intros(1))
  have len: "length (pk k) = EMWIN_PACKET_SIZE" and pc: "pending c = pk k @ (concat (map pk ks) @ rest)" using Cons.prems(1,5) by simp_all
  have tep: "\<not> te_reload te" "\<not> te_send te" "te_ne te = ne" using Cons.prems(2) te by auto
  obtain c1 where c1: "get_emwin_packet_serial (ne_fill ne) (ne_retry ne) c (ne_uninit ne) g = (0, ep, g1, c1)"
    "flowing (ne_retry ne) c1" "pending c1 = concat (map pk ks) @ rest"
    using get_emwin_packet_serial_deliver [OF Cons.prems(4) pc len, of "ne_fill ne" "ne_uninit ne" g] f(1) by auto
  obtain eps where eps: "list_all2 Q ks eps"
    "\<And>np fs seq. np_g np = g1 \<Longrightarrow> np_sv np = None \<Longrightarrow>
      save_all (ne_os ne) (ne_stamp ne) (ne_conf ne) (init_emwin_qfiles (ne_conf ne)) eps (np_fs np) (np_seq np) = Some (0, fs, seq) \<Longrightarrow>
      \<exists>c' np'. npemwin_turns ops cf tes' es x c1 np = Turned (0, x, c', np') \<and> pending c' = rest
        \<and> np_fs np' = fs \<and> np_seq np' = seq \<and> packet_count np' = packet_count np + length ks"
    using Cons.IH [of tes' c1 g1] Cons.prems(1-3) c1(2,3) te by auto
  have "\<exists>c' np'. npemwin_turns ops cf tes es x c np = Turned (0, x, c', np') \<and> pending c' = rest
      \<and> np_fs np' = fs \<and> np_seq np' = seq \<and> packet_count np' = packet_count np + length (k # ks)"
    if np: "np_g np = g" "np_sv np = None"
      "save_all (ne_os ne) (ne_stamp ne) (ne_conf ne) (init_emwin_qfiles (ne_conf ne)) (ep # eps) (np_fs np) (np_seq np) = Some (0, fs, seq)"
    for np fs seq
  proof -
    obtain fs1 seq1 where s: "save_emwin_packet (ne_os ne) (ne_stamp ne) (ne_conf ne) (init_emwin_qfiles (ne_conf ne)) ep (np_fs np) (np_seq np)
        = Some (0, fs1, seq1)"
      "save_all (ne_os ne) (ne_stamp ne) (ne_conf ne) (init_emwin_qfiles (ne_conf ne)) eps fs1 seq1 = Some (0, fs, seq)"
      using np(3) by (auto split: option.splits prod.splits if_splits)
    obtain np1 where t: "npemwin_turn ops cf te es x c np = Turned (0, x, c1, np1)" "np_sv np1 = None" "np_g np1 = g1"
      "np_fs np1 = fs1" "np_seq np1 = seq1" "packet_count np1 = packet_count np + 1"
      using infeed_turn [OF es np(2) tep _ f(2) s(1)] c1(1) np(1) by blast
    show ?thesis using eps(2) [OF t(3,2), of fs seq] s(2) t te by simp
  qed
  with f(3) eps(1) show ?case by (intro exI [of _ "ep # eps"]) auto
qed

lemma length_packet_for:
  assumes "length name \<le> 12" "length date = 22" "k \<le> get_parts_total (length file)" "get_parts_total (length file) < 10 ^ 5"
  shows "length (packet_for file date name k) = EMWIN_PACKET_SIZE"
proof -
  have d: "length (file_part file k) \<le> 1024" by (simp add: file_part_def)
  then have "calc_checksum (file_part file k) < 10 ^ 6" using calc_checksum_bound [of "file_part file k"] by simp
  then have "length (header_text \<lparr>fname = name, header_date = date, packet = [], ep_file = [],
      parts_total = get_parts_total (length file), last_part_size = 0, part_number = k,
      ep_checksum = calc_checksum (file_part file k)\<rparr>) = 80"
    using assms by (intro length_header_text) auto
  with d show ?thesis by (simp add: packet_for_def Let_def emwin_consts)
qed

text \<open>What the server saves of part \<open>k\<close> of a file.\<close>

definition saved_part :: "(nat \<Rightarrow> byte) \<Rightarrow> byte list \<Rightarrow> byte list \<Rightarrow> nat \<Rightarrow> byte list" where
  "saved_part below name file k =
     (if is_text_file below (map tolower name) then takeWhile (\<lambda>b. b \<noteq> 0) (file_part file k)
      else file_part file k @ replicate (1024 - length (file_part file k)) 0)"

lemma length_saved_part: "length (saved_part below name file k) \<le> 1024"
proof -
  have "length (file_part file k) \<le> 1024" by (simp add: file_part_def)
  then show ?thesis
    using length_takeWhile_le [of "\<lambda>b. b \<noteq> 0" "file_part file k"] by (simp add: saved_part_def)
qed

definition is_part :: "(nat \<Rightarrow> byte) \<Rightarrow> byte list \<Rightarrow> byte list \<Rightarrow> nat \<Rightarrow> emwin_packet \<Rightarrow> bool" where
  "is_part below name file k ep \<longleftrightarrow> filename (header ep) = map tolower name \<and> blockno (header ep) = int k
     \<and> numblocks (header ep) = int (get_parts_total (length file)) \<and> ep_data ep = saved_part below name file k"

text \<open>Saving all the parts of a file in order.\<close>

lemma save_parts:
  assumes "good_os os" "spool_conf_ok cf" "seqnum_ok seq" "fs (tmp_file cf (map tolower name)) = None"
    and "list_all2 (is_part below name file) [1..<Suc T] eps" "T = get_parts_total (length file)"
    and "0 < T" "T < 10 ^ 5" "length name \<le> 12" "key = dec (seqnum_next seq)"
  shows "\<exists>fs'. save_all os stamp cf (init_emwin_qfiles cf) eps fs seq = Some (0, fs', seqnum_next seq)
    \<and> (\<forall>k \<in> {1..T}. fs' (data_file cf key (int k)) = Some (FBytes (saved_part below name file k)))
    \<and> fs' (q_file cf (map tolower name)) = Some (FBytes (q_line
         \<lparr>q_filename = map tolower name, q_seqnumkey = key, q_numblocks = int T, q_rcvblocks = int T\<rparr> stamp))"
proof -
  have len: "length eps = T" using list_all2_lengthD [OF assms(5)] by (simp del: upt_Suc)
  have part: "is_part below name file (Suc i) (eps ! i)" if "i < T" for i
    using list_all2_nthD [OF assms(5), of i] that by (simp del: upt_Suc)
  obtain ep es where e: "eps = ep # es" using len assms(7) by (cases eps) auto
  have ok: "\<forall>x \<in> set eps. block_ok (map tolower name) x"
  proof
    fix x assume "x \<in> set eps"
    then obtain i where "i < T" "x = eps ! i" using len by (auto simp: in_set_conv_nth)
    with part [of i] assms(8,9) length_saved_part [of below name "file" "Suc i"]
    show "block_ok (map tolower name) x" by (simp add: is_part_def block_ok_def)
  qed
  have first: "blockno (header ep) = 1" "numblocks (header ep) = int T"
    using part [of 0] e assms(6,7) by (simp_all add: is_part_def)
  have rest: "\<forall>x \<in> set es. blockno (header x) \<noteq> 1"
  proof
    fix x assume "x \<in> set es"
    then obtain i where "i < length es" "x = eps ! Suc i" using e by (auto simp: in_set_conv_nth)
    with part [of "Suc i"] len e show "blockno (header x) \<noteq> 1" by (simp add: is_part_def)
  qed
  have mid: "\<forall>x \<in> set (butlast eps). blockno (header x) \<noteq> numblocks (header x)"
  proof
    fix x assume "x \<in> set (butlast eps)"
    then obtain i where "i < T - 1" "x = eps ! i" using len by (auto simp: in_set_conv_nth nth_butlast)
    with part [of i] assms(6) show "blockno (header x) \<noteq> numblocks (header x)" by (simp add: is_part_def)
  qed
  have "last eps = eps ! (T - 1)" using len assms(7) e by (metis last_conv_nth list.discI)
  then have fin: "blockno (header (last eps)) = numblocks (header (last eps))"
    using part [of "T - 1"] assms(6,7) by (simp add: is_part_def)
  note sf = save_all_file [where fs = fs, OF assms(1-4) ok [unfolded e] first(1) rest mid [unfolded e] fin [unfolded e] assms(10), of stamp]
  have "map (\<lambda>x. blockno (header x)) eps = map int [1..<Suc T]"
    using part len by (intro nth_equalityI) (auto simp: is_part_def simp del: upt_Suc)
  then have dist: "distinct (map (\<lambda>x. blockno (header x)) eps)" by (simp add: distinct_map del: upt_Suc)
  have dot: "46 \<notin> set key" by (simp add: assms(10) key_no_dot)
  have saved: "save_data cf key eps fs (data_file cf key (int k)) = Some (FBytes (saved_part below name file k))" if "k \<in> {1..T}" for k
  proof -
    have "k - 1 < T" using that by auto
    then have "eps ! (k - 1) \<in> set eps" "is_part below name file k (eps ! (k - 1))" using len part [of "k - 1"] that by auto
    then show ?thesis using save_data_saved [OF assms(2) dot dist, of "eps ! (k - 1)" fs] by (simp add: is_part_def)
  qed
  show ?thesis
    using sf saved spool_files_distinct [OF assms(2)] first(2) len e by (auto simp del: save_data_simps)
qed

text \<open>
  C3. A file given to the insert tool ends up in the spool directory: when the tool has reported
  success for a file of one part or more under a well-formed name of at most twelve characters
  (whatever its options, and however the fifo took the bytes) and the main loop of the server, with
  its fifo as the source, takes as many turns as there are parts, every turn succeeds, the fifo is
  read up to the end of the file whatever pieces it comes in, and the data file number \<open>k\<close> under the
  next key holds part number \<open>k\<close> of the file: for a text file that part up to its first NUL, for
  any other file the part as it is, the last one filled up with NULs to the 1024 bytes of a block. The
  queue file tells the queue runner that all parts of the lower-cased name have been received.
  This is for a server without clients of its own, on a system where the calls on the
  spool succeed and no temporary file of that name is left from an earlier attempt.
\<close>

theorem inserted_file_is_spooled:
  assumes "name = root @ [46] @ ext" "length ext = 3" "length name \<le> 12" "\<forall>c \<in> set (root @ ext). isalnum c"
    and "length date = 22" "0 \<notin> set date" "tool_main env opts [name, fpath] tool_init = (0, [], ts)"
    and "T = get_parts_total (length bytes)" "0 < T" "T < 10 ^ 5"
    and "server_type_infeed es" "np_sv np = None" "length tes = T"
    and "\<forall>te \<in> set tes. \<not> te_reload te \<and> \<not> te_send te \<and> te_ne te = ne"
    and "flowing (ne_retry ne) c" "pending c = t_out ts @ rest"
    and "good_os (ne_os ne)" "spool_conf_ok (ne_conf ne)" "seqnum_ok (np_seq np)"
    and "np_fs np (tmp_file (ne_conf ne) (map tolower name)) = None" "key = dec (seqnum_next (np_seq np))"
    and "\<forall>f p. to_open (env f p) \<ge> -1 \<and> to_infd (env f p) \<ge> -1"
    and "\<forall>f. to_size (env f fpath) = Some (length bytes) \<and> to_file (env f fpath) = bytes \<and> to_date (env f fpath) = date"
  shows "\<exists>c' np'. npemwin_turns ops cf tes es x c np = Turned (0, x, c', np') \<and> pending c' = rest
    \<and> (\<forall>k \<in> {1..T}. np_fs np' (data_file (ne_conf ne) key (int k)) =
         Some (FBytes (saved_part (fe_below (ne_fill ne)) name bytes k)))
    \<and> np_fs np' (q_file (ne_conf ne) (map tolower name)) = Some (FBytes (q_line
         \<lparr>q_filename = map tolower name, q_seqnumkey = key, q_numblocks = int T, q_rcvblocks = int T\<rparr> (ne_stamp ne)))
    \<and> packet_count np' = packet_count np + T"
proof -
  let ?below = "fe_below (ne_fill ne)" and ?pk = "packet_for bytes date name"
  have "t_out ts = concat (map ?pk [1..<Suc T])"
    using tool_main_result [OF assms(22,7)] assms(3,8,10,23) by auto
  then have pend: "pending c = concat (map ?pk [1..<Suc T]) @ rest" using assms(16) by simp
  have dec: "\<forall>k \<in> set [1..<Suc T]. length (?pk k) = EMWIN_PACKET_SIZE \<and> (\<forall>ep g. \<exists>ep' g'.
      fill_packet_struct_serial (ne_fill ne) ep (?pk k) g = (0, ep', g') \<and> bbtype ep' = bbtype ep \<and> is_part ?below name bytes k ep')"
  proof (intro ballI conjI allI)
    fix k assume k: "k \<in> set [1..<Suc T]"
    then show "length (?pk k) = EMWIN_PACKET_SIZE" using assms(3,5,8,10) by (intro length_packet_for) auto
    fix ep g
    show "\<exists>ep' g'. fill_packet_struct_serial (ne_fill ne) ep (?pk k) g = (0, ep', g') \<and> bbtype ep' = bbtype ep
        \<and> is_part ?below name bytes k ep'"
      using inserted_packet [OF assms(1-6), of k bytes "ne_fill ne" ep g] k assms(8,10)
      by (auto simp: is_part_def saved_part_def)
  qed
  have "length tes = length [1..<Suc T]" using assms(13) by simp
  from infeed_turns [OF assms(11) dec assms(14) this assms(15) pend, of "np_g np" ops cf x]
  obtain eps where eps: "list_all2 (is_part ?below name bytes) [1..<Suc T] eps"
    "\<And>fs seq. save_all (ne_os ne) (ne_stamp ne) (ne_conf ne) (init_emwin_qfiles (ne_conf ne)) eps (np_fs np) (np_seq np) = Some (0, fs, seq)
        \<Longrightarrow> \<exists>c' np'. npemwin_turns ops cf tes es x c np = Turned (0, x, c', np') \<and> pending c' = rest
              \<and> np_fs np' = fs \<and> np_seq np' = seq \<and> packet_count np' = packet_count np + length [1..<Suc T]"
    using assms(12) by blast
  obtain fs' where fs': "save_all (ne_os ne) (ne_stamp ne) (ne_conf ne) (init_emwin_qfiles (ne_conf ne)) eps (np_fs np) (np_seq np)
      = Some (0, fs', seqnum_next (np_seq np))"
    "\<forall>k \<in> {1..T}. fs' (data_file (ne_conf ne) key (int k)) = Some (FBytes (saved_part ?below name bytes k))"
    "fs' (q_file (ne_conf ne) (map tolower name)) = Some (FBytes (q_line
         \<lparr>q_filename = map tolower name, q_seqnumkey = key, q_numblocks = int T, q_rcvblocks = int T\<rparr> (ne_stamp ne)))"
    using save_parts [where fs = "np_fs np" and name = name, OF assms(17-20) eps(1) assms(8,9,10,3,21), of "ne_stamp ne"] by blast
  show ?thesis using eps(2) [OF fs'(1)] fs'(2,3) by auto
qed

text \<open>A server with its fifo, to evaluate on.\<close>

definition te0 :: "byte list list turn_env" where
  "te0 = \<lparr>te_net = (\<lambda>_. (True, True, (0, True, []), True), \<lambda>_. \<lparr>ch_rx = [], ch_tx = [], ch_intr = [], ch_out = []\<rparr>, pe0, True, True),
     te_reload = False, te_list = (None, list_env0, tsv_init), te_send = False, te_mem = True, te_ne = ne0\<rparr>"

definition hi_bytes :: "byte list" where
  "hi_bytes = t_out (snd (snd (tool_main (\<lambda>_ _. tool_env0) [Tool_b] [[65, 46, 84, 88, 84], [47, 97]] tool_init)))"

theorem inserted_file_is_spooled_witness:
  "\<exists>c' np'. npemwin_turns list_db \<lparr>nc_server = \<lparr>sc_serverprotocol = 3, sc_client_id_wait_secs = 10, sc_serverstatefile = None,
        sc_serveractivefile = None\<rparr>, nc_bbclientid = None\<rparr> [te0] (raw_server\<lparr>es_type := EMWIN_SERVER_TYPE_INFEED\<rparr>) None
       \<lparr>ch_rx = [Rx_data hi_bytes], ch_tx = [], ch_intr = [], ch_out = []\<rparr> np0 = Turned (0, None, c', np')
     \<and> np_fs np' (data_file cf0 (dec 123457) 1) = Some (FBytes [72, 105])"
proof -
  have t: "get_parts_total (Suc (Suc 0)) = 1" "file_part [72, 105] 1 = [72, 105]"
    by (simp_all add: get_parts_total_def insert_consts file_part_def)
  obtain ts where a: "tool_main (\<lambda>_ _. tool_env0) [Tool_b] [[65, 46, 84, 88, 84], [47, 97]] tool_init = (0, [], ts)"
    "t_out ts = packet_for [72, 105] (replicate 22 48) [65, 46, 84, 88, 84] 1"
    using example_tool_run by blast
  then have b: "hi_bytes = packet_for [72, 105] (replicate 22 48) [65, 46, 84, 88, 84] 1" by (simp add: hi_bytes_def)
  have ne: "hi_bytes \<noteq> []" unfolding b by (simp add: packet_for_def Let_def)
  have l: "map tolower [65, 46, 84, 88, 84] = [97, 46, 116, 120, 116]" "is_text_file (fe_below env0) [97, 46, 116, 120, 116]"
    by code_simp+
  have n: "seqnum_ok 123456" "seqnum_next 123456 = 123457" by (simp_all add: seqnum_ok_def seqnum_consts seqnum_next_eq)
  have s: "saved_part (fe_below env0) [65, 46, 84, 88, 84] [72, 105] 1 = [72, 105]"
    using l t(2) by (simp add: saved_part_def)
  show ?thesis
    using inserted_file_is_spooled [where name = "[65, 46, 84, 88, 84]" and root = "[65]" and ext = "[84, 88, 84]"
        and date = "replicate 22 48" and env = "\<lambda>_ _. tool_env0" and opts = "[Tool_b]" and fpath = "[47, 97]" and ts = ts and bytes = "[72, 105]" and T = 1 and tes = "[te0]" and ne = ne0
        and es = "raw_server\<lparr>es_type := EMWIN_SERVER_TYPE_INFEED\<rparr>" and np = np0 and rest = "[]"
        and c = "\<lparr>ch_rx = [Rx_data hi_bytes], ch_tx = [], ch_intr = [], ch_out = []\<rparr>" and key = "dec 123457"
        and ops = list_db and x = None and cf = "\<lparr>nc_server = \<lparr>sc_serverprotocol = 3, sc_client_id_wait_secs = 10,
          sc_serverstatefile = None, sc_serveractivefile = None\<rparr>, nc_bbclientid = None\<rparr>"]
      t a b ne l n s cf0_ok
    by (auto simp: ctype_defs te0_def ne0_def np0_def server_type_infeed_def flowing_def pending_def tool_env0_def)
qed

section \<open>From a server to a client\<close>

text \<open>
  C2. The main thread and the thread of a client, taking turns in any order on the table they
  share, do what the thread alone does on a queue into which the packets of the stream are put:
  every packet read from a ByteBlaster server, when it is a good one and its queue file can be written,
  goes into the queue byte for byte, and nothing else does. Whatever the database and the connection
  of the client do otherwise, what is written to the client is a prefix of the accepted packets
  of the stream. (The database must be able to discard its records when the queue is empty.)
\<close>

theorem feed_refines_client:
  assumes "server_type_bbserver es" "spool_conf_ok cf" "np_ok cf np" "served i np" "ce_cq ce = ce_cq (client_at i np)"
    and "\<forall>ne \<in> set (packets acts). feed_env cf r ne \<and> (\<forall>p \<in> set ps. good_packet ne p)" "length ps = length (packets acts)"
    and "flowing r c" "pending c = concat ps @ rest"
    and "queued ops content reclen pad [] ce" "truncates ops" "ch_out d = []"
  shows "\<exists>acc c' np' ce' d'. run_client ops ms retry lf (client_acts acts ps) (ce, d) = Some (acc, ce', d')
    \<and> run_feed ops es i ms retry lf acts (c, np, ce, d) = Some (c', np', ce', d')
    \<and> pending c' = rest \<and> (\<exists>later. concat acc = ch_out d' @ later)"
proof -
  have l: "\<forall>bb. Put bb \<in> set (client_acts acts ps) \<longrightarrow> length bb < 2 ^ 32"
  proof (intro allI impI)
    fix bb assume b: "Put bb \<in> set (client_acts acts ps)"
    then have "bb \<in> set (puts (client_acts acts ps))" by (auto simp: puts_def)
    then have "bb \<in> set ps" "packets acts \<noteq> []" using puts_client_acts [OF assms(7)] assms(7) by auto
    then obtain ne where "good_packet ne bb" using assms(6) by (cases "packets acts") auto
    then show "length bb < 2 ^ 32" by (simp add: good_packet_def emwin_consts)
  qed
  obtain acc ce' d' later where r: "run_client ops ms retry lf (client_acts acts ps) (ce, d) = Some (acc, ce', d')"
    "concat acc = ch_out d' @ later"
    using run_client_sends [OF assms(10,11) _ l, of ms retry lf d] assms(12) by auto
  with run_feed_simulates [OF assms(1-9) r(1)] show ?thesis by blast
qed

text \<open>
  C1. A client of the first protocol gets the feed: when the packets of the stream are good, the
  database works and the client keeps reading, then after any interleaving of the main thread
  and the thread of the client, as many more turns of that thread as there were packets make the
  bytes written to the client exactly the bytes read from the server, however the network cut
  them into pieces on either side.
\<close>

theorem feed_relayed:
  assumes "server_type_bbserver es" "spool_conf_ok cf" "np_ok cf np" "served i np" "ce_cq ce = ce_cq (client_at i np)"
    and "\<forall>ne \<in> set (packets acts). feed_env cf r ne \<and> (\<forall>p \<in> set ps. good_packet ne p)" "length ps = length (packets acts)"
    and "flowing r c" "pending c = concat ps @ rest"
    and "ready ops content QUEUE_PACKET_SIZE pad [] ce" "\<not> f_exit ce" "reliable_db ops content QUEUE_PACKET_SIZE cap"
    and "length ps \<le> cap" "length ps \<le> length ts" "taking retry (length (concat ps)) d"
  shows "\<exists>c' np' ce' d'. run_feed ops es i ms retry lf (acts @ map Thread ts) (c, np, ce, d) = Some (c', np', ce', d')
    \<and> pending c' = rest \<and> ch_out d' = ch_out d @ concat ps \<and> \<not> f_exit ce'"
proof -
  note p = puts_client_acts [OF assms(7)] and a = client_acts_turns [OF assms(7), of ts]
  have l: "\<forall>bb \<in> set (puts (client_acts acts ps)). length bb + 4 \<le> QUEUE_PACKET_SIZE"
  proof
    fix bb assume "bb \<in> set (puts (client_acts acts ps))"
    then have "bb \<in> set ps" "packets acts \<noteq> []" using p assms(7) by auto
    then obtain ne where "good_packet ne bb" using assms(6) by (cases "packets acts") auto
    then show "length bb + 4 \<le> QUEUE_PACKET_SIZE" by (simp add: good_packet_def emwin_consts)
  qed
  have q: "QUEUE_PACKET_SIZE < 2 ^ 32" by (simp add: emwin_consts)
  obtain ce' d' where r: "run_client ops ms retry lf (client_acts acts ps @ map Turn ts) (ce, d) = Some (ps, ce', d')"
    "ch_out d' = ch_out d @ concat ps" "\<not> f_exit ce'"
    using run_client_all [OF assms(10-12) q l, of retry d ts ms lf] p assms(13-15) by auto
  have "\<exists>c' np'. run_feed ops es i ms retry lf (acts @ map Thread ts) (c, np, ce, d) = Some (c', np', ce', d')
      \<and> np_ok cf np' \<and> pending c' = rest"
    by (rule run_feed_simulates [OF assms(1-5) _ _ assms(8,9)]) (use assms(6,7) r(1) a in auto)
  with r show ?thesis by blast
qed

text \<open>A server with one client and a stream of one packet, to evaluate on.\<close>

definition wide_db :: "byte list list dbops" where
  "wide_db = \<lparr>db_put = (\<lambda>bs d. if length bs \<le> 1120 \<and> length d + 1 < 2 ^ 31 then (0, d @ [padded 1120 0 bs]) else (22, d)),
     db_consume = (\<lambda>d. case d of [] \<Rightarrow> (1, [], []) | x # d \<Rightarrow> (0, x, d)),
     db_truncate = (\<lambda>d. (0, [])), db_get_re_len = (\<lambda>d. (0, 1120)), db_stat = (\<lambda>d. (0, length d))\<rparr>"

definition client1 :: "byte list list conn_element_st" where
  "client1 = client0\<lparr>ce_cq := Ptr \<lparr>cq_qt = \<lparr>softlimit = 0, hardlimit = 0, nbspq = [queue0]\<rparr>, data_size_max = 1120\<rparr>\<rparr>"

definition feed_np :: "byte list list np_st" where
  "feed_np = np0\<lparr>np_sv := Some \<lparr>sv_ct = table1\<lparr>ct_ce := [client1]\<rparr>, gprocess_connections_time = 0,
     greport_client_connections_flag = False, sv_files = ([], [])\<rparr>\<rparr>"

definition feed_packet :: "byte list" where
  "feed_packet = bb_xor (packet_for [72, 105] (replicate 22 48) [65, 46, 84, 88, 84] 1)"

lemma wide_db_ok:
  "queue_ok wide_db id 1120 0 queue0" "reliable_db wide_db id QUEUE_PACKET_SIZE (2 ^ 31 - 1)" "truncates wide_db"
proof -
  have "db_fifo wide_db id 1120 0" by (auto simp: db_fifo_def wide_db_def split: list.splits)
  then show "queue_ok wide_db id 1120 0 queue0" by (simp add: queue_ok_def queue0_def)
  show "truncates wide_db" by (simp add: truncates_def wide_db_def)
  then show "reliable_db wide_db id QUEUE_PACKET_SIZE (2 ^ 31 - 1)"
    by (auto simp: reliable_db_def wide_db_def emwin_consts split: list.splits)
qed

lemma client1_ok:
  "ready wide_db id QUEUE_PACKET_SIZE 0 [] client1" "queued wide_db id 1120 0 [] client1" "\<not> f_exit client1"
  using wide_db_ok(1) client0_ready(2)
  by (simp_all add: ready_def queued_def client1_def emwin_consts) (simp_all add: queue0_def test_qdb_status_flag_def)

lemma feed_np_ok: "np_ok cf0 feed_np" "served 0 feed_np" "ce_cq client1 = ce_cq (client_at 0 feed_np)"
  using np0_ok
  by (simp_all add: np_ok_def feed_np_def served_def client_at_def clients_ready_def client1_def has_queue_def client_defs)

lemma feed_packet_ok: "good_packet ne0 feed_packet" "feed_env cf0 0 ne0" "length feed_packet = 1116"
proof -
  have t: "get_parts_total (Suc (Suc 0)) = 1" by (simp add: get_parts_total_def insert_consts)
  show l: "length feed_packet = 1116"
    using length_packet_for [of "[65, 46, 84, 88, 84]" "replicate 22 48" 1 "[72, 105]"] t by (simp add: feed_packet_def emwin_consts)
  have "\<exists>ep' g'. fill_packet_struct_bb env0 ep feed_packet g = (0, ep', g')" for ep g
    using inserted_packet [of "[65, 46, 84, 88, 84]" "[65]" "[84, 88, 84]" "replicate 22 48" 1 "[72, 105]" env0 ep g] t
    by (auto simp: feed_packet_def fill_serial_bb_xor ctype_defs)
  moreover have "hd feed_packet = 255" by (simp add: feed_packet_def packet_for_def Let_def bb_xor_def eval_nat_numeral)
  ultimately show "good_packet ne0 feed_packet"
    using l by (auto simp: good_packet_def ne0_def emwin_consts bb_is_emwin_data_packet_def) (metis fst_conv)
  show "feed_env cf0 0 ne0" using lists_apart0 by (simp add: feed_env_def ne0_def os0_def)
qed

theorem feed_refines_client_witness:
  "\<exists>acc c' np' ce' d'. run_feed wide_db (raw_server\<lparr>es_type := EMWIN_SERVER_TYPE_BB\<rparr>) 0 0 0 10 [Packet ne0, Thread (True, 0, (0, 0))]
       (\<lparr>ch_rx = [Rx_data feed_packet], ch_tx = [], ch_intr = [], ch_out = []\<rparr>, feed_np, client1,
        \<lparr>ch_rx = [], ch_tx = [Tx_room 9, Tx_writeerr], ch_intr = [], ch_out = []\<rparr>) = Some (c', np', ce', d')
     \<and> (\<exists>later. concat acc = ch_out d' @ later)"
  using feed_refines_client [where ps = "[feed_packet]" and acts = "[Packet ne0, Thread (True, 0, (0, 0))]" and cf = cf0 and i = 0
      and es = "raw_server\<lparr>es_type := EMWIN_SERVER_TYPE_BB\<rparr>" and np = feed_np and ce = client1 and r = 0 and rest = "[]"
      and c = "\<lparr>ch_rx = [Rx_data feed_packet], ch_tx = [], ch_intr = [], ch_out = []\<rparr>"
      and d = "\<lparr>ch_rx = [], ch_tx = [Tx_room 9, Tx_writeerr], ch_intr = [], ch_out = []\<rparr>" and ms = 0 and retry = 0 and lf = 10,
      OF _ cf0_ok(1) feed_np_ok _ _ _ _ client1_ok(2) wide_db_ok(3)] feed_packet_ok
  by (fastforce simp: server_type_bbserver_def flowing_def pending_def)

theorem feed_relayed_witness:
  "\<exists>c' np' ce' d'. run_feed wide_db (raw_server\<lparr>es_type := EMWIN_SERVER_TYPE_BB\<rparr>) 0 0 0 10 ([Packet ne0] @ map Thread [(True, 0, (0, 0))])
       (\<lparr>ch_rx = [Rx_data feed_packet], ch_tx = [], ch_intr = [], ch_out = []\<rparr>, feed_np, client1,
        \<lparr>ch_rx = [], ch_tx = replicate 1116 (Tx_room 9), ch_intr = [], ch_out = []\<rparr>) = Some (c', np', ce', d')
     \<and> ch_out d' = feed_packet"
proof -
  have "taking_tx 0 0 (replicate n (Tx_room 9)) \<and> tx_answers (replicate n (Tx_room 9)) = n" for n by (induction n) auto
  then have "taking 0 1116 \<lparr>ch_rx = [], ch_tx = replicate 1116 (Tx_room 9), ch_intr = [], ch_out = []\<rparr>" by (simp add: taking_def)
  then show ?thesis
    using feed_relayed [where ps = "[feed_packet]" and acts = "[Packet ne0]" and ts = "[(True, 0, (0, 0))]" and cf = cf0 and i = 0
        and es = "raw_server\<lparr>es_type := EMWIN_SERVER_TYPE_BB\<rparr>" and np = feed_np and ce = client1 and r = 0 and rest = "[]"
        and c = "\<lparr>ch_rx = [Rx_data feed_packet], ch_tx = [], ch_intr = [], ch_out = []\<rparr>"
        and d = "\<lparr>ch_rx = [], ch_tx = replicate 1116 (Tx_room 9), ch_intr = [], ch_out = []\<rparr>" and ms = 0 and retry = 0 and lf = 10,
        OF _ cf0_ok(1) feed_np_ok _ _ _ _ client1_ok(1,3) wide_db_ok(2)] feed_packet_ok
    by (fastforce simp: server_type_bbserver_def flowing_def pending_def)
qed

end
